(* ===== verification/GoNumbers.thy ===== *)
theory GoNumbers
  imports Prelude
begin

text \<open>
  Decimal numbers as the source writes and reads them: \<open>%d\<close> of package fmt (\<open>show_int\<close>) and
  \<open>strconv.Atoi\<close> (\<open>atoi_full\<close>, \<open>atoi\<close>) on the 64-bit \<open>int\<close>. \<open>atoi_full\<close> keeps the value that
  \<open>Atoi\<close> returns beside its error, because one caller of the source ignores the error.
\<close>

definition min_int64 :: int where "min_int64 = - (2 ^ 63)"
definition max_int64 :: int where "max_int64 = 2 ^ 63 - 1"

definition int64_range :: "int \<Rightarrow> bool" where
  "int64_range n = (min_int64 \<le> n \<and> n \<le> max_int64)"

text \<open>What a 64-bit register holds after an operation whose exact result is \<open>n\<close>.\<close>

definition wrap_int64 :: "int \<Rightarrow> int" where
  "wrap_int64 n = (n + 2 ^ 63) mod 2 ^ 64 - 2 ^ 63"

lemma wrap_int64_id: "int64_range n \<Longrightarrow> wrap_int64 n = n"
  by (simp add: wrap_int64_def int64_range_def min_int64_def max_int64_def)

lemma wrap_int64_range: "int64_range (wrap_int64 n)"
proof -
  have "0 \<le> (n + 2 ^ 63) mod 2 ^ 64 \<and> (n + 2 ^ 63) mod 2 ^ 64 < 2 ^ 64" by simp
  then show ?thesis
    by (simp add: wrap_int64_def int64_range_def min_int64_def max_int64_def)
qed

section \<open>Digits\<close>

definition is_digit :: "char \<Rightarrow> bool" where
  "is_digit c = (48 \<le> (of_char c :: nat) \<and> (of_char c :: nat) \<le> 57)"

definition digit_val :: "char \<Rightarrow> nat" where
  "digit_val c = of_char c - 48"

definition digit_char :: "nat \<Rightarrow> char" where
  "digit_char n = char_of (48 + n)"

lemma digit_char_val [simp]: "n < 10 \<Longrightarrow> digit_val (digit_char n) = n"
  by (simp add: digit_val_def digit_char_def)

lemma is_digit_char [simp]: "n < 10 \<Longrightarrow> is_digit (digit_char n)"
  by (simp add: is_digit_def digit_char_def)

lemma not_digit_simps [simp]:
  "\<not> is_digit (CHR ''-'')" "\<not> is_digit (CHR ''+'')" "\<not> is_digit (CHR ''_'')"
  "\<not> is_digit (CHR ''/'')" "\<not> is_digit (CHR ''.'')" "\<not> is_digit (CHR 0x00)"
  "\<not> is_digit (CHR ''k'')" "\<not> is_digit (CHR ''m'')"
  by (simp_all add: is_digit_def)

fun show_nat :: "nat \<Rightarrow> string" where
  "show_nat n =
     (if n < 10 then [digit_char n] else show_nat (n div 10) @ [digit_char (n mod 10)])"

declare show_nat.simps [simp del]

lemma show_nat_digits [chars_simps]: "c \<in> set (show_nat n) \<Longrightarrow> is_digit c"
proof (induction n rule: show_nat.induct)
  case (1 n)
  then show ?case
    by (cases "n < 10") (auto simp: show_nat.simps [of n])
qed

lemma show_nat_not_Nil [simp]: "show_nat n \<noteq> []"
  by (subst show_nat.simps) simp

definition show_int :: "int \<Rightarrow> string" where
  "show_int i = (if i < 0 then CHR ''-'' # show_nat (nat (- i)) else show_nat (nat i))"

lemma show_int_not_Nil [simp]: "show_int i \<noteq> []"
  by (simp add: show_int_def)

lemma show_int_chars [chars_simps]: "c \<in> set (show_int i) \<Longrightarrow> is_digit c \<or> c = CHR ''-''"
  by (auto simp: show_int_def split: if_splits dest: show_nat_digits)

lemma show_int_nonneg_chars: "0 \<le> i \<Longrightarrow> c \<in> set (show_int i) \<Longrightarrow> is_digit c"
  by (auto simp: show_int_def dest: show_nat_digits)

lemma show_int_free:
  "\<not> is_digit c \<Longrightarrow> c \<noteq> CHR ''-'' \<Longrightarrow> c \<notin> set (show_int i)"
  by (auto dest: show_int_chars)

section \<open>strconv.Atoi\<close>

datatype atoi_result = AtoiOk int | AtoiSyntax | AtoiRange int

text \<open>\<open>ParseUint\<close>: a bad byte is a syntax error, leaving 64 bits is a range error at once.\<close>

fun scan_uint :: "nat \<Rightarrow> string \<Rightarrow> nat option option" where
  "scan_uint acc [] = Some (Some acc)"
| "scan_uint acc (c # cs) =
     (if \<not> is_digit c then Some None
      else if 10 * acc + digit_val c \<ge> 2 ^ 64 then None
      else scan_uint (10 * acc + digit_val c) cs)"

text \<open>\<open>None\<close> is a range error, \<open>Some None\<close> a syntax error.\<close>

definition atoi_full :: "string \<Rightarrow> atoi_result" where
  "atoi_full s =
     (let neg = (s \<noteq> [] \<and> hd s = CHR ''-'');
          ds = (if s \<noteq> [] \<and> (hd s = CHR ''-'' \<or> hd s = CHR ''+'') then tl s else s)
      in if ds = [] then AtoiSyntax
         else case scan_uint 0 ds of
           Some None \<Rightarrow> AtoiSyntax
         | None \<Rightarrow> AtoiRange (if neg then min_int64 else max_int64)
         | Some (Some n) \<Rightarrow>
             (if \<not> neg \<and> int n \<ge> 2 ^ 63 then AtoiRange max_int64
              else if neg \<and> int n > 2 ^ 63 then AtoiRange min_int64
              else AtoiOk (if neg then - int n else int n)))"

definition atoi :: "string \<Rightarrow> int option" where
  "atoi s = (case atoi_full s of AtoiOk n \<Rightarrow> Some n | _ \<Rightarrow> None)"

text \<open>The value a caller sees that ignores the error: 0, or the clamped bound.\<close>

definition atoi_value :: "string \<Rightarrow> int" where
  "atoi_value s = (case atoi_full s of AtoiOk n \<Rightarrow> n | AtoiSyntax \<Rightarrow> 0 | AtoiRange n \<Rightarrow> n)"

lemma scan_uint_append:
  "scan_uint acc (xs @ ys) =
     (case scan_uint acc xs of Some (Some n) \<Rightarrow> scan_uint n ys | r \<Rightarrow> r)"
  by (induction acc xs rule: scan_uint.induct) auto

lemma scan_uint_show_nat: "n < 2 ^ 64 \<Longrightarrow> scan_uint 0 (show_nat n) = Some (Some n)"
proof (induction n rule: show_nat.induct)
  case (1 n)
  show ?case
  proof (cases "n < 10")
    case True
    then show ?thesis by (simp add: show_nat.simps [of n])
  next
    case False
    then have "scan_uint 0 (show_nat (n div 10)) = Some (Some (n div 10))"
      using 1 by simp
    moreover have "10 * (n div 10) + n mod 10 = n" by simp
    ultimately show ?thesis
      using False 1(2) by (simp add: show_nat.simps [of n] scan_uint_append)
  qed
qed

lemma hd_show_nat: "is_digit (hd (show_nat n))"
  using show_nat_digits [of "hd (show_nat n)" n] by simp

lemma atoi_show_int [roundtrip_simps]: "int64_range i \<Longrightarrow> atoi (show_int i) = Some i"
proof (cases "i < 0")
  case True
  moreover assume "int64_range i"
  ultimately show ?thesis
    by (auto simp: atoi_def atoi_full_def show_int_def Let_def int64_range_def min_int64_def
        max_int64_def scan_uint_show_nat)
next
  case False
  moreover assume "int64_range i"
  moreover have "hd (show_nat (nat i)) \<noteq> CHR ''-''" "hd (show_nat (nat i)) \<noteq> CHR ''+''"
    using hd_show_nat [of "nat i"] by auto
  ultimately show ?thesis
    by (auto simp: atoi_def atoi_full_def show_int_def Let_def int64_range_def min_int64_def
        max_int64_def scan_uint_show_nat)
qed

lemma atoi_range: "atoi s = Some n \<Longrightarrow> int64_range n"
  by (auto simp: atoi_def atoi_full_def Let_def int64_range_def min_int64_def max_int64_def
      split: atoi_result.splits option.splits if_splits)

lemma show_nat_inj: "show_nat m = show_nat n \<Longrightarrow> m = n"
proof (induction m arbitrary: n rule: show_nat.induct)
  case (1 m)
  have *: "length (show_nat k) = 1 \<longleftrightarrow> k < 10" for k
    by (subst show_nat.simps) (auto simp: neq_Nil_conv)
  show ?case
  proof (cases "m < 10")
    case True
    with 1(2) have "n < 10" using * by metis
    with True 1(2) show ?thesis
      by (simp add: show_nat.simps [of m] show_nat.simps [of n])
        (metis digit_char_val)
  next
    case False
    with 1(2) have n: "\<not> n < 10" using * by metis
    from 1(2) False n have "show_nat (m div 10) = show_nat (n div 10)"
      and d: "digit_char (m mod 10) = digit_char (n mod 10)"
      by (simp_all add: show_nat.simps [of m] show_nat.simps [of n])
    with 1(1) False have "m div 10 = n div 10" by blast
    moreover have "m mod 10 = n mod 10" using d by (metis digit_char_val mod_less_divisor zero_less_numeral)
    ultimately show ?thesis by (metis div_mult_mod_eq)
  qed
qed

lemma show_int_inj: "show_int i = show_int j \<longleftrightarrow> i = j"
proof
  assume eq: "show_int i = show_int j"
  have nd: "show_nat n \<noteq> CHR ''-'' # s" for n s
    using hd_show_nat [of n] by auto
  from eq show "i = j"
    by (auto simp: show_int_def nd nd [symmetric] split: if_splits dest: show_nat_inj)
qed simp

section \<open>Evaluation\<close>

text \<open>Equations that evaluate printing and reading of concrete numbers by simplification.\<close>

lemma digit_char_eval:
  "digit_char 0 = CHR ''0''" "digit_char (Suc 0) = CHR ''1''" "digit_char 2 = CHR ''2''" "digit_char 3 = CHR ''3''"
  "digit_char 4 = CHR ''4''" "digit_char 5 = CHR ''5''" "digit_char 6 = CHR ''6''" "digit_char 7 = CHR ''7''"
  "digit_char 8 = CHR ''8''" "digit_char 9 = CHR ''9''"
  by (simp_all add: digit_char_def char_of_def bit_0)

lemmas number_eval =
  atoi_def atoi_full_def atoi_value_def scan_uint.simps is_digit_def digit_val_def
  show_int_def show_nat.simps digit_char_eval min_int64_def max_int64_def

lemma atoi_eval_check: "atoi ''12'' = Some 12" "show_int 120 = ''120''" "atoi_value ''99999999999999999999999'' = max_int64"
  by (simp_all add: number_eval)

end
