(* ===== verification/GoJson.thy ===== *)
theory GoJson
  imports GoNumbers "HOL-Library.Log_Nat"
begin

text \<open>
  Dynamic values of Go and the strict JSON codec of \<open>internal/jsonx/codec.go\<close>. A value of type
  \<open>any\<close> keeps its dynamic Go type, since the source asserts it: an \<open>int\<close> is not a \<open>float64\<close>,
  a \<open>[]map[string]any\<close> is not a \<open>[]any\<close>. A \<open>map[string]any\<close> is an association list with distinct
  keys. Encoding to JSON and decoding again is modelled by what it does to values: numbers become
  float64 in an \<open>any\<close>, an integer field takes a number that is an integer of 64 bits, an unknown key
  is an error. A float64 is a rational; the rounding of integers to float64 is written out. Keys are
  compared exactly: option maps are built by the service itself with the lower-case names.
\<close>

datatype gval =
    GNull
  | GBool bool
  | GInt int
  | GFloat rat
  | GStr string
  | GArr "gval list"
  | GObj "(string \<times> gval) list"
  | GObjs "(string \<times> gval) list list"

type_synonym optmap = "(string \<times> gval) list"

definition set_key :: "string \<Rightarrow> gval \<Rightarrow> optmap \<Rightarrow> optmap" where
  "set_key k v m = (k, v) # filter (\<lambda>p. fst p \<noteq> k) m"

lemma map_of_filter_key: "j \<noteq> k \<Longrightarrow> map_of (filter (\<lambda>p. fst p \<noteq> k) m) j = map_of m j"
  by (induction m) auto

lemma map_of_set_key [simp]: "map_of (set_key k v m) j = (if j = k then Some v else map_of m j)"
  by (simp add: set_key_def map_of_filter_key)

lemma fst_set_key [simp]: "fst ` set (set_key k v m) = insert k (fst ` set m)"
  by (force simp: set_key_def)

section \<open>Integers as float64\<close>

text \<open>Round to nearest, ties to even, at 53 significant bits.\<close>

definition round_half_even :: "nat \<Rightarrow> nat \<Rightarrow> nat" where
  "round_half_even d a =
     (let q = a div d; r = a mod d
      in if 2 * r > d \<or> (2 * r = d \<and> odd q) then (q + 1) * d else q * d)"

definition f64_of_int :: "int \<Rightarrow> rat" where
  "f64_of_int n =
     (let a = nat \<bar>n\<bar>; k = floorlog 2 a - 53
      in of_int (sgn n * int (round_half_even (2 ^ k) a)))"

definition exact_int :: "int \<Rightarrow> bool" where
  "exact_int n = (\<bar>n\<bar> < 2 ^ 53)"

lemma f64_exact: "exact_int n \<Longrightarrow> f64_of_int n = of_int n"
proof -
  assume "exact_int n"
  then have "nat \<bar>n\<bar> < 2 ^ 53" by (simp add: exact_int_def nat_less_iff)
  then have "floorlog 2 (nat \<bar>n\<bar>) \<le> 53" by (intro floorlog_leI) simp_all
  then show ?thesis by (simp add: f64_of_int_def Let_def round_half_even_def)
      (simp add: sgn_if)
qed

text \<open>The bound of \<open>int64\<close> rounds up, out of the 64-bit range.\<close>

lemma f64_max_int64: "f64_of_int max_int64 = 2 ^ 63"
proof -
  have "floorlog 2 9223372036854775807 = 63"
    by (intro antisym floorlog_leI floorlog_geI) simp_all
  then show ?thesis
    by (simp add: f64_of_int_def Let_def round_half_even_def max_int64_def)
qed

section \<open>Decoding fields\<close>

datatype decode_error = UnknownField string | BadField string

definition decode_bool :: "string \<Rightarrow> optmap \<Rightarrow> (decode_error, bool) result" where
  "decode_bool f m =
     (case map_of m f of
        None \<Rightarrow> Inr False | Some GNull \<Rightarrow> Inr False
      | Some (GBool b) \<Rightarrow> Inr b | Some v \<Rightarrow> Inl (BadField f))"

definition decode_int :: "string \<Rightarrow> optmap \<Rightarrow> (decode_error, int) result" where
  "decode_int f m =
     (case map_of m f of
        None \<Rightarrow> Inr 0 | Some GNull \<Rightarrow> Inr 0
      | Some (GInt n) \<Rightarrow> if int64_range n then Inr n else Inl (BadField f)
      | Some (GFloat q) \<Rightarrow>
          if of_int \<lfloor>q\<rfloor> = q \<and> int64_range \<lfloor>q\<rfloor> then Inr \<lfloor>q\<rfloor> else Inl (BadField f)
      | Some v \<Rightarrow> Inl (BadField f))"

definition decode_float :: "string \<Rightarrow> optmap \<Rightarrow> (decode_error, rat) result" where
  "decode_float f m =
     (case map_of m f of
        None \<Rightarrow> Inr 0 | Some GNull \<Rightarrow> Inr 0
      | Some (GInt n) \<Rightarrow> Inr (f64_of_int n)
      | Some (GFloat q) \<Rightarrow> Inr q
      | Some v \<Rightarrow> Inl (BadField f))"

definition decode_str :: "string \<Rightarrow> optmap \<Rightarrow> (decode_error, string) result" where
  "decode_str f m =
     (case map_of m f of
        None \<Rightarrow> Inr [] | Some GNull \<Rightarrow> Inr []
      | Some (GStr s) \<Rightarrow> Inr s | Some v \<Rightarrow> Inl (BadField f))"

text \<open>A pointer to a struct: nil when absent or null.\<close>

definition decode_ptr ::
    "(optmap \<Rightarrow> (decode_error, 'a) result) \<Rightarrow> string \<Rightarrow> optmap \<Rightarrow> (decode_error, 'a option) result" where
  "decode_ptr dec f m =
     (case map_of m f of
        None \<Rightarrow> Inr None | Some GNull \<Rightarrow> Inr None
      | Some (GObj o1) \<Rightarrow> (case dec o1 of Inl e \<Rightarrow> Inl e | Inr a \<Rightarrow> Inr (Some a))
      | Some v \<Rightarrow> Inl (BadField f))"

fun decode_all :: "(optmap \<Rightarrow> (decode_error, 'a) result) \<Rightarrow> gval list \<Rightarrow> (decode_error, 'a list) result" where
  "decode_all dec [] = Inr []"
| "decode_all dec (GObj o1 # vs) =
     bind_result (dec o1) (\<lambda>a. bind_result (decode_all dec vs) (\<lambda>as1. Inr (a # as1)))"
| "decode_all dec (v # vs) = Inl (BadField ''element'')"

definition decode_list ::
    "(optmap \<Rightarrow> (decode_error, 'a) result) \<Rightarrow> string \<Rightarrow> optmap \<Rightarrow> (decode_error, 'a list) result" where
  "decode_list dec f m =
     (case map_of m f of
        None \<Rightarrow> Inr [] | Some GNull \<Rightarrow> Inr []
      | Some (GArr vs) \<Rightarrow> decode_all dec vs
      | Some (GObjs os) \<Rightarrow> decode_all dec (map GObj os)
      | Some v \<Rightarrow> Inl (BadField f))"

text \<open>\<open>DisallowUnknownFields\<close>.\<close>

definition known_fields :: "string list \<Rightarrow> optmap \<Rightarrow> bool" where
  "known_fields fs m = list_all (\<lambda>p. fst p \<in> set fs) m"

definition strict :: "string list \<Rightarrow> (optmap \<Rightarrow> (decode_error, 'a) result) \<Rightarrow> optmap \<Rightarrow> (decode_error, 'a) result" where
  "strict fs dec m = (if known_fields fs m then dec m else Inl (UnknownField []))"

section \<open>Encoding fields\<close>

text \<open>Fields tagged \<open>omitempty\<close>, as they come out of \<open>ToMap\<close>.\<close>

definition enc_bool :: "string \<Rightarrow> bool \<Rightarrow> optmap" where
  "enc_bool f b = (if b then [(f, GBool True)] else [])"

definition enc_int :: "string \<Rightarrow> int \<Rightarrow> optmap" where
  "enc_int f n = (if n = 0 then [] else [(f, GFloat (f64_of_int n))])"

definition enc_float :: "string \<Rightarrow> rat \<Rightarrow> optmap" where
  "enc_float f q = (if q = 0 then [] else [(f, GFloat q)])"

definition enc_str :: "string \<Rightarrow> string \<Rightarrow> optmap" where
  "enc_str f s = (if s = [] then [] else [(f, GStr s)])"

definition enc_ptr :: "('a \<Rightarrow> optmap) \<Rightarrow> string \<Rightarrow> 'a option \<Rightarrow> optmap" where
  "enc_ptr enc f p = (case p of None \<Rightarrow> [] | Some a \<Rightarrow> [(f, GObj (enc a))])"

lemma map_of_enc [simp]:
  "map_of (enc_bool f b) g = (if b \<and> g = f then Some (GBool True) else None)"
  "map_of (enc_int f n) g = (if n \<noteq> 0 \<and> g = f then Some (GFloat (f64_of_int n)) else None)"
  "map_of (enc_float f q) g = (if q \<noteq> 0 \<and> g = f then Some (GFloat q) else None)"
  "map_of (enc_str f s) g = (if s \<noteq> [] \<and> g = f then Some (GStr s) else None)"
  "map_of (enc_ptr enc f p) g = (if p \<noteq> None \<and> g = f then Some (GObj (enc (the p))) else None)"
  by (auto simp: enc_bool_def enc_int_def enc_float_def enc_str_def enc_ptr_def split: option.splits)

lemma known_enc [simp]:
  "known_fields fs (enc_bool f b) \<longleftrightarrow> (b \<longrightarrow> f \<in> set fs)"
  "known_fields fs (enc_int f n) \<longleftrightarrow> (n \<noteq> 0 \<longrightarrow> f \<in> set fs)"
  "known_fields fs (enc_float f q) \<longleftrightarrow> (q \<noteq> 0 \<longrightarrow> f \<in> set fs)"
  "known_fields fs (enc_str f s) \<longleftrightarrow> (s \<noteq> [] \<longrightarrow> f \<in> set fs)"
  "known_fields fs (enc_ptr enc f p) \<longleftrightarrow> (p \<noteq> None \<longrightarrow> f \<in> set fs)"
  "known_fields fs (a @ b') \<longleftrightarrow> known_fields fs a \<and> known_fields fs b'"
  "known_fields fs []"
  by (auto simp: known_fields_def enc_bool_def enc_int_def enc_float_def enc_str_def enc_ptr_def split: option.splits)

lemma exact_int_range: "exact_int n \<Longrightarrow> int64_range n"
  by (auto simp: exact_int_def int64_range_def min_int64_def max_int64_def)

lemmas decode_defs = decode_bool_def decode_int_def decode_float_def decode_str_def decode_ptr_def

end
