(* ===== verification/QueueTasks.thy ===== *)
theory QueueTasks
  imports GoJson
begin

text \<open>
  Task types, queue routing, option and payload structs of \<open>internal/queue/\<close>, with the strict
  decoding and the map form that \<open>internal/jsonx/codec.go\<close> gives each option struct.
\<close>

section \<open>Task types and queues\<close>

definition type_image_thumbnail :: string where "type_image_thumbnail = ''image:thumbnail''"
definition type_audio_transcode :: string where "type_audio_transcode = ''audio:transcode''"
definition type_video_cover :: string where "type_video_cover = ''video:cover''"
definition type_video_preview :: string where "type_video_preview = ''video:preview''"
definition type_video_transcode :: string where "type_video_transcode = ''video:transcode''"
definition type_video_full :: string where "type_video_full = ''video:full''"

lemmas task_types = type_image_thumbnail_def type_audio_transcode_def type_video_cover_def
  type_video_preview_def type_video_transcode_def type_video_full_def

definition queue_critical :: string where "queue_critical = ''critical''"
definition queue_default :: string where "queue_default = ''default''"
definition queue_video_large :: string where "queue_video_large = ''video:large''"

text \<open>Queue and maximal number of retries.\<close>

definition video_queue_options :: "int \<Rightarrow> int \<Rightarrow> string \<times> nat" where
  "video_queue_options file_size large_threshold =
     (if file_size \<ge> large_threshold then (queue_video_large, 2) else (queue_default, 3))"

definition media_queue_options :: "int \<Rightarrow> int \<Rightarrow> string \<times> nat" where
  "media_queue_options file_size large_threshold = video_queue_options file_size large_threshold"

section \<open>Option structs\<close>

record thumbnail_output =
  th_variant :: string
  th_width :: int
  th_height :: int
  th_format :: string

record cover_options =
  co_timestamp :: rat

record preview_options =
  po_start :: rat
  po_duration :: rat
  po_width :: int
  po_fps :: int
  po_format :: string

record transcode_options =
  to_encrypt :: bool

record audio_options =
  ao_hls :: bool
  ao_encrypt :: bool
  ao_mp3 :: bool
  ao_flac :: bool
  ao_waveform :: bool
  ao_waveform_bins :: int
  ao_mp3_bitrate :: string

record full_options =
  fo_cover :: "cover_options option"
  fo_preview :: "preview_options option"
  fo_transcode :: "transcode_options option"

section \<open>Strict decoding\<close>

definition decode_thumbnail :: "optmap \<Rightarrow> (decode_error, thumbnail_output) result" where
  "decode_thumbnail = strict [''variant'', ''width'', ''height'', ''format''] (\<lambda>m.
     bind_result (decode_str ''variant'' m) (\<lambda>v. bind_result (decode_int ''width'' m) (\<lambda>w.
     bind_result (decode_int ''height'' m) (\<lambda>h. bind_result (decode_str ''format'' m) (\<lambda>f.
       Inr \<lparr>th_variant = v, th_width = w, th_height = h, th_format = f\<rparr>)))))"

definition decode_outputs :: "optmap \<Rightarrow> (decode_error, thumbnail_output list) result" where
  "decode_outputs = strict [''outputs''] (decode_list decode_thumbnail ''outputs'')"

definition decode_cover :: "optmap \<Rightarrow> (decode_error, cover_options) result" where
  "decode_cover = strict [''timestamp_sec''] (\<lambda>m.
     bind_result (decode_float ''timestamp_sec'' m) (\<lambda>t. Inr \<lparr>co_timestamp = t\<rparr>))"

definition decode_preview :: "optmap \<Rightarrow> (decode_error, preview_options) result" where
  "decode_preview = strict [''start_sec'', ''duration'', ''width'', ''fps'', ''format''] (\<lambda>m.
     bind_result (decode_float ''start_sec'' m) (\<lambda>s. bind_result (decode_float ''duration'' m) (\<lambda>d.
     bind_result (decode_int ''width'' m) (\<lambda>w. bind_result (decode_int ''fps'' m) (\<lambda>f.
     bind_result (decode_str ''format'' m) (\<lambda>fmt.
       Inr \<lparr>po_start = s, po_duration = d, po_width = w, po_fps = f, po_format = fmt\<rparr>))))))"

definition decode_transcode :: "optmap \<Rightarrow> (decode_error, transcode_options) result" where
  "decode_transcode = strict [''encrypt''] (\<lambda>m.
     bind_result (decode_bool ''encrypt'' m) (\<lambda>e. Inr \<lparr>to_encrypt = e\<rparr>))"

definition decode_audio :: "optmap \<Rightarrow> (decode_error, audio_options) result" where
  "decode_audio =
     strict [''hls'', ''encrypt'', ''mp3'', ''flac'', ''waveform'', ''waveform_bins'', ''mp3_bitrate''] (\<lambda>m.
     bind_result (decode_bool ''hls'' m) (\<lambda>h. bind_result (decode_bool ''encrypt'' m) (\<lambda>e.
     bind_result (decode_bool ''mp3'' m) (\<lambda>mp. bind_result (decode_bool ''flac'' m) (\<lambda>fl.
     bind_result (decode_bool ''waveform'' m) (\<lambda>w. bind_result (decode_int ''waveform_bins'' m) (\<lambda>b.
     bind_result (decode_str ''mp3_bitrate'' m) (\<lambda>br.
       Inr \<lparr>ao_hls = h, ao_encrypt = e, ao_mp3 = mp, ao_flac = fl, ao_waveform = w,
            ao_waveform_bins = b, ao_mp3_bitrate = br\<rparr>))))))))"

definition decode_full :: "optmap \<Rightarrow> (decode_error, full_options) result" where
  "decode_full = strict [''cover'', ''preview'', ''transcode''] (\<lambda>m.
     bind_result (decode_ptr decode_cover ''cover'' m) (\<lambda>c.
     bind_result (decode_ptr decode_preview ''preview'' m) (\<lambda>p.
     bind_result (decode_ptr decode_transcode ''transcode'' m) (\<lambda>t.
       Inr \<lparr>fo_cover = c, fo_preview = p, fo_transcode = t\<rparr>))))"

section \<open>Map forms\<close>

definition encode_cover :: "cover_options \<Rightarrow> optmap" where
  "encode_cover c = enc_float ''timestamp_sec'' (co_timestamp c)"

definition encode_preview :: "preview_options \<Rightarrow> optmap" where
  "encode_preview p =
     enc_float ''start_sec'' (po_start p) @ enc_float ''duration'' (po_duration p) @
     enc_int ''width'' (po_width p) @ enc_int ''fps'' (po_fps p) @ enc_str ''format'' (po_format p)"

definition encode_transcode :: "transcode_options \<Rightarrow> optmap" where
  "encode_transcode t = enc_bool ''encrypt'' (to_encrypt t)"

definition encode_audio :: "audio_options \<Rightarrow> optmap" where
  "encode_audio a =
     enc_bool ''hls'' (ao_hls a) @ enc_bool ''encrypt'' (ao_encrypt a) @ enc_bool ''mp3'' (ao_mp3 a) @
     enc_bool ''flac'' (ao_flac a) @ enc_bool ''waveform'' (ao_waveform a) @
     enc_int ''waveform_bins'' (ao_waveform_bins a) @ enc_str ''mp3_bitrate'' (ao_mp3_bitrate a)"

definition encode_full :: "full_options \<Rightarrow> optmap" where
  "encode_full f =
     enc_ptr encode_cover ''cover'' (fo_cover f) @ enc_ptr encode_preview ''preview'' (fo_preview f) @
     enc_ptr encode_transcode ''transcode'' (fo_transcode f)"

section \<open>Round trips\<close>

text \<open>Integers survive the detour over float64 when they are below 2 to the 53.\<close>

definition exact_preview :: "preview_options \<Rightarrow> bool" where
  "exact_preview p \<longleftrightarrow> exact_int (po_width p) \<and> exact_int (po_fps p)"

definition exact_audio :: "audio_options \<Rightarrow> bool" where
  "exact_audio a \<longleftrightarrow> exact_int (ao_waveform_bins a)"

definition exact_full :: "full_options \<Rightarrow> bool" where
  "exact_full f \<longleftrightarrow> (case fo_preview f of None \<Rightarrow> True | Some p \<Rightarrow> exact_preview p)"

lemma decode_float_bool_str_simps [simp]:
  "map_of m f = None \<Longrightarrow> decode_float f m = Inr 0" "map_of m f = Some (GFloat q) \<Longrightarrow> decode_float f m = Inr q"
  "map_of m f = None \<Longrightarrow> decode_bool f m = Inr False" "map_of m f = Some (GBool b) \<Longrightarrow> decode_bool f m = Inr b"
  "map_of m f = None \<Longrightarrow> decode_str f m = Inr []" "map_of m f = Some (GStr s) \<Longrightarrow> decode_str f m = Inr s"
  "map_of m f = None \<Longrightarrow> decode_int f m = Inr 0"
  by (simp_all add: decode_defs)

lemma decode_int_exact [simp]:
  "map_of m f = Some (GFloat (f64_of_int n)) \<Longrightarrow> exact_int n \<Longrightarrow> decode_int f m = Inr n"
  by (simp add: decode_int_def f64_exact exact_int_range)

lemma decode_encode_cover [roundtrip_simps]: "decode_cover (encode_cover c) = Inr c"
  by (cases "co_timestamp c = 0") (simp_all add: decode_cover_def encode_cover_def strict_def)

lemma decode_encode_transcode [roundtrip_simps]: "decode_transcode (encode_transcode t) = Inr t"
  by (cases "to_encrypt t") (simp_all add: decode_transcode_def encode_transcode_def strict_def)

lemma decode_encode_preview [roundtrip_simps]:
  assumes "exact_preview p"
  shows "decode_preview (encode_preview p) = Inr p"
proof -
  let ?m = "encode_preview p"
  have "decode_float ''start_sec'' ?m = Inr (po_start p)"
    by (cases "po_start p = 0") (simp_all add: encode_preview_def map_add_def)
  moreover have "decode_float ''duration'' ?m = Inr (po_duration p)"
    by (cases "po_duration p = 0") (simp_all add: encode_preview_def map_add_def)
  moreover have "decode_int ''width'' ?m = Inr (po_width p)" "decode_int ''fps'' ?m = Inr (po_fps p)"
    using assms by (cases "po_width p = 0"; cases "po_fps p = 0"; simp add: encode_preview_def exact_preview_def map_add_def)+
  moreover have "decode_str ''format'' ?m = Inr (po_format p)"
    by (cases "po_format p = []") (simp_all add: encode_preview_def map_add_def)
  moreover have "known_fields [''start_sec'', ''duration'', ''width'', ''fps'', ''format''] ?m"
    by (simp add: encode_preview_def)
  ultimately show ?thesis by (simp add: decode_preview_def strict_def)
qed

lemma decode_encode_audio [roundtrip_simps]:
  assumes "exact_audio a"
  shows "decode_audio (encode_audio a) = Inr a"
proof -
  let ?m = "encode_audio a"
  have b: "decode_bool f ?m = Inr b" if "(f, b) \<in> {(''hls'', ao_hls a), (''encrypt'', ao_encrypt a), (''mp3'', ao_mp3 a),
      (''flac'', ao_flac a), (''waveform'', ao_waveform a)}" for f b
    using that by (cases b) (auto simp: encode_audio_def map_add_def)
  have "decode_int ''waveform_bins'' ?m = Inr (ao_waveform_bins a)"
    using assms by (cases "ao_waveform_bins a = 0") (simp_all add: encode_audio_def exact_audio_def map_add_def)
  moreover have "decode_str ''mp3_bitrate'' ?m = Inr (ao_mp3_bitrate a)"
    by (cases "ao_mp3_bitrate a = []") (simp_all add: encode_audio_def map_add_def)
  moreover have "known_fields [''hls'', ''encrypt'', ''mp3'', ''flac'', ''waveform'', ''waveform_bins'', ''mp3_bitrate''] ?m"
    by (simp add: encode_audio_def)
  ultimately show ?thesis by (simp add: decode_audio_def strict_def b)
qed

lemma decode_encode_full [roundtrip_simps]:
  assumes "exact_full f"
  shows "decode_full (encode_full f) = Inr f"
proof -
  let ?m = "encode_full f"
  have "decode_ptr decode_cover ''cover'' ?m = Inr (fo_cover f)"
    by (cases "fo_cover f") (simp_all add: decode_ptr_def encode_full_def decode_encode_cover map_add_def)
  moreover have "decode_ptr decode_preview ''preview'' ?m = Inr (fo_preview f)"
    using assms by (cases "fo_preview f")
      (simp_all add: decode_ptr_def encode_full_def decode_encode_preview exact_full_def map_add_def)
  moreover have "decode_ptr decode_transcode ''transcode'' ?m = Inr (fo_transcode f)"
    by (cases "fo_transcode f") (simp_all add: decode_ptr_def encode_full_def decode_encode_transcode map_add_def)
  moreover have "known_fields [''cover'', ''preview'', ''transcode''] ?m"
    by (simp add: encode_full_def)
  ultimately show ?thesis by (simp add: decode_full_def strict_def)
qed

end
