(* ===== verification/Waveform.thy ===== *)
theory Waveform
  imports GoNumbers "HOL-Library.Word"
begin

unbundle bit_operations_syntax

text \<open>
  The waveform of an audio source, \<open>internal/audio/waveform.go\<close>, on the bytes FFmpeg writes. A float32
  is its 32-bit pattern. The absolute value clears the sign bit, and for values that are not NaN the
  order of absolute values is the order of the patterns, so peaks are patterns without sign bit. The
  conversion to float64 and back is exact. Bin numbers are computed in 64 bits.
\<close>

section \<open>Samples\<close>

definition little_endian :: "char \<Rightarrow> char \<Rightarrow> char \<Rightarrow> char \<Rightarrow> 32 word" where
  "little_endian a b c d =
     of_char a OR push_bit 8 (of_char b) OR push_bit 16 (of_char c) OR push_bit 24 (of_char d)"

text \<open>\<open>len (data) / 4\<close> whole samples; trailing bytes are dropped.\<close>

fun samples :: "string \<Rightarrow> 32 word list" where
  "samples (a # b # c # d # rest) = little_endian a b c d # samples rest"
| "samples _ = []"

definition amplitude :: "32 word \<Rightarrow> 32 word" where
  "amplitude s = s AND 0x7FFFFFFF"

definition is_nan :: "32 word \<Rightarrow> bool" where
  "is_nan s \<longleftrightarrow> 0x7F800000 < amplitude s"

text \<open>\<open>amp > peak\<close> on float32, for a peak that is no NaN: false for a NaN.\<close>

definition louder :: "32 word \<Rightarrow> 32 word \<Rightarrow> bool" where
  "louder s peak \<longleftrightarrow> \<not> is_nan s \<and> peak < amplitude s"

section \<open>Bins\<close>

datatype wave_error = WaveExtract string | WaveNoSamples | WavePanic

text \<open>Go's division truncates towards zero; an overflowing product can be negative.\<close>

definition trunc_div :: "int \<Rightarrow> int \<Rightarrow> int" where
  "trunc_div a b = sgn a * sgn b * (\<bar>a\<bar> div \<bar>b\<bar>)"

definition bin_of :: "int \<Rightarrow> nat \<Rightarrow> nat \<Rightarrow> int" where
  "bin_of bins count i =
     (let bin = trunc_div (wrap_int64 (int i * bins)) (int count)
      in if bin \<ge> bins then bins - 1 else bin)"

fun fill_peaks :: "int \<Rightarrow> nat \<Rightarrow> nat \<Rightarrow> 32 word list \<Rightarrow> 32 word list \<Rightarrow> (wave_error, 32 word list) result" where
  "fill_peaks bins count i [] peaks = Inr peaks"
| "fill_peaks bins count i (s # ss) peaks =
     (let bin = bin_of bins count i in
      if bin < 0 then Inl WavePanic
      else fill_peaks bins count (Suc i) ss
        (if louder s (peaks ! nat bin) then peaks[nat bin := amplitude s] else peaks))"

definition default_waveform_bins :: int where "default_waveform_bins = 2048"

text \<open>
  \<open>max_slice\<close> is the longest \<open>[]float32\<close> the runtime can allocate; \<open>make\<close> panics above it. \<open>out\<close> is the
  standard output of FFmpeg, or the error of the run.
\<close>

definition generate_waveform ::
    "int \<Rightarrow> (string, string) result \<Rightarrow> int \<Rightarrow> (wave_error, 32 word list) result" where
  "generate_waveform max_slice out bins0 =
     (let bins = (if bins0 \<le> 0 then default_waveform_bins else bins0) in
      bind_result (map_err WaveExtract out) (\<lambda>data.
        if length data < 4 then Inl WaveNoSamples
        else let ss = samples data in
          if ss = [] then Inl WaveNoSamples
          else if bins > max_slice then Inl WavePanic
          else fill_peaks bins (length ss) 0 ss (replicate (nat bins) 0)))"

section \<open>Reference: the loudest sample of every bin\<close>

definition loudness :: "32 word \<Rightarrow> 32 word" where
  "loudness s = (if is_nan s then 0 else amplitude s)"

definition bin_samples :: "int \<Rightarrow> 32 word list \<Rightarrow> nat \<Rightarrow> 32 word list" where
  "bin_samples bins ss b =
     map snd (filter (\<lambda>(i, s). i * nat bins div length ss = b) (enumerate 0 ss))"

definition loudest :: "32 word list \<Rightarrow> 32 word" where
  "loudest ss = fold (\<lambda>s m. max m (loudness s)) ss 0"

lemma length_samples: "length (samples d) = length d div 4"
  by (induction d rule: samples.induct) simp_all

lemma louder_max: "(if louder s p then amplitude s else p) = max p (loudness s)"
proof (cases "is_nan s")
  case True
  then show ?thesis by (simp add: louder_def loudness_def max_def word_coorder.extremum_unique)
next
  case False
  then show ?thesis by (auto simp: louder_def loudness_def max_def)
qed

lemma bin_of_exact:
  assumes "i < count" "0 < bins" "int count * bins < 2 ^ 63"
  shows "bin_of bins count i = int (i * nat bins div count)" "i * nat bins div count < nat bins"
proof -
  have "int i * bins < int count * bins" "0 \<le> int i * bins" using assms by simp_all
  with assms(3) have w: "wrap_int64 (int i * bins) = int i * bins"
    by (intro wrap_int64_id) (simp add: int64_range_def min_int64_def max_int64_def)
  have "i * nat bins < nat bins * count" using assms by (simp add: mult.commute)
  then show lt: "i * nat bins div count < nat bins" by (simp add: less_mult_imp_div_less)
  have "trunc_div (int i * bins) (int count) = int i * bins div int count"
    using assms by (simp add: trunc_div_def sgn_if)
  also have "\<dots> = int (i * nat bins div count)" using assms by (simp add: zdiv_int)
  finally have t: "trunc_div (wrap_int64 (int i * bins)) (int count) = int (i * nat bins div count)"
    unfolding w .
  have "\<not> bins \<le> int (i * nat bins div count)" using lt assms(2) by linarith
  then show "bin_of bins count i = int (i * nat bins div count)"
    by (simp add: bin_of_def t Let_def)
qed

lemma fill_peaks_spec:
  assumes "i + length ss \<le> count" "0 < bins" "int count * bins < 2 ^ 63" "length peaks = nat bins"
  shows "\<exists>peaks'. fill_peaks bins count i ss peaks = Inr peaks' \<and> length peaks' = nat bins \<and>
    (\<forall>b < nat bins. peaks' ! b =
       fold (\<lambda>s m. max m (loudness s)) (map snd (filter (\<lambda>(j, s). j * nat bins div count = b) (enumerate i ss))) (peaks ! b))"
  using assms(1,4)
proof (induction ss arbitrary: i peaks)
  case (Cons s ss)
  let ?b = "i * nat bins div count"
  from Cons.prems have i: "i < count" by simp
  note bin = bin_of_exact [OF i assms(2,3)]
  let ?p = "peaks[?b := max (peaks ! ?b) (loudness s)]"
  have step: "(if louder s (peaks ! ?b) then peaks[?b := amplitude s] else peaks) = ?p"
    using louder_max [of s "peaks ! ?b"] by (auto split: if_splits)
  obtain peaks' where "fill_peaks bins count (Suc i) ss ?p = Inr peaks'" "length peaks' = nat bins"
    "\<forall>b < nat bins. peaks' ! b =
       fold (\<lambda>s m. max m (loudness s)) (map snd (filter (\<lambda>(j, s). j * nat bins div count = b) (enumerate (Suc i) ss))) (?p ! b)"
    using Cons.IH [of "Suc i" ?p] Cons.prems by auto
  moreover have "?p ! b = (if b = ?b then max (peaks ! ?b) (loudness s) else peaks ! b)" if "b < nat bins" for b
    using that Cons.prems by simp
  moreover have "fill_peaks bins count i (s # ss) peaks = fill_peaks bins count (Suc i) ss ?p"
    unfolding step [symmetric] using bin by (simp add: Let_def)
  ultimately show ?case using bin(2) by (intro exI [of _ peaks']) (auto simp del: fill_peaks.simps)
qed simp

lemma generate_waveform_spec:
  assumes "generate_waveform max_slice (Inr data) bins0 = Inr peaks"
    and "int (length data) * bins0 < 2 ^ 63"
  defines "bins \<equiv> (if bins0 \<le> 0 then 2048 else bins0)"
  assumes "int (length data) < 2 ^ 50"
  shows "length peaks = nat bins \<and> (\<forall>b < nat bins. peaks ! b = loudest (bin_samples bins (samples data) b))"
proof -
  let ?ss = "samples data"
  have b: "0 < bins" by (simp add: bins_def)
  have "length ?ss \<le> length data" by (simp add: length_samples)
  then have "int (length ?ss) * bins \<le> int (length data) * bins" using b by simp
  moreover have "int (length data) * bins < 2 ^ 63"
    using assms(2,4) by (simp add: bins_def)
  ultimately have c: "int (length ?ss) * bins < 2 ^ 63" by linarith
  have f: "fill_peaks bins (length ?ss) 0 ?ss (replicate (nat bins) 0) = Inr peaks"
    using assms(1) by (auto simp: generate_waveform_def bins_def default_waveform_bins_def Let_def split: if_splits)
  show ?thesis
    using fill_peaks_spec [of 0 ?ss "length ?ss" bins "replicate (nat bins) 0"] b c f
    by (simp add: loudest_def bin_samples_def)
qed

text \<open>
  C26. The waveform is right: the result has one peak per bin, and the peak of a bin is the largest
  absolute value among the samples that fall into it, zero when none does. NaN samples do not count.
\<close>

theorem waveform_peaks:
  assumes "generate_waveform max_slice (Inr data) bins0 = Inr peaks"
    and "int (length data) * bins0 < 2 ^ 63" and "int (length data) < 2 ^ 50"
  shows "length peaks = nat (if bins0 \<le> 0 then 2048 else bins0) \<and>
    (\<forall>b < length peaks. peaks ! b =
       loudest (bin_samples (if bins0 \<le> 0 then 2048 else bins0) (samples data) b))"
  using generate_waveform_spec [OF assms] by simp

text \<open>Within the same bounds a waveform is produced whenever there is a sample and the bins fit.\<close>

lemma waveform_produced:
  assumes "int (length data) * bins < 2 ^ 63" "0 < bins" "bins \<le> max_slice" "4 \<le> length data"
  shows "\<exists>peaks. generate_waveform max_slice (Inr data) bins = Inr peaks"
proof -
  have n: "samples data \<noteq> []" using assms(4) length_samples [of data] by (cases "samples data") auto
  have "length (samples data) \<le> length data" by (simp add: length_samples)
  then have "int (length (samples data)) * bins \<le> int (length data) * bins" using assms(2) by simp
  with assms(1) have "int (length (samples data)) * bins < 2 ^ 63" by linarith
  from fill_peaks_spec [of 0 "samples data" "length (samples data)" bins "replicate (nat bins) 0"] this assms(2)
  obtain peaks where "fill_peaks bins (length (samples data)) 0 (samples data) (replicate (nat bins) 0) = Inr peaks"
    by auto
  with assms n show ?thesis by (simp add: generate_waveform_def)
qed

text \<open>1.0, -2.0, NaN and 0.5 in two bins: the peaks are 2.0 and 0.5.\<close>

definition demo_samples :: string where
  "demo_samples = [CHR 0x00, CHR 0x00, CHR 0x80, CHR 0x3F, CHR 0x00, CHR 0x00, CHR 0x00, CHR 0xC0,
     CHR 0x00, CHR 0x00, CHR 0xC0, CHR 0x7F, CHR 0x00, CHR 0x00, CHR 0x00, CHR 0x3F]"

theorem waveform_peaks_witness:
  "\<exists>peaks. generate_waveform 1000 (Inr demo_samples) 2 = Inr peaks \<and> length peaks = 2 \<and>
     peaks ! 0 = loudest (bin_samples 2 (samples demo_samples) 0)"
proof -
  have l: "length demo_samples = 16" by (simp add: demo_samples_def)
  then obtain peaks where p: "generate_waveform 1000 (Inr demo_samples) 2 = Inr peaks"
    using waveform_produced [of demo_samples 2 1000] by auto
  from waveform_peaks [OF p] l p show ?thesis by auto
qed

end
