(* ===== verification/JobRequest.thy ===== *)
theory JobRequest
  imports QueueTasks Waveform
begin

text \<open>
  Job requests, \<open>internal/job/request/request.go\<close>: the structured JSON contract, its normalization
  into a task type and an option map, validation and canonicalization. The decoding of the request
  body into the raw structs is the standard JSON decoder; the model starts at the raw structs, and
  \<open>source_field\<close> models the service's own \<open>UnmarshalJSON\<close>. The parser of URLs is a parameter that
  returns scheme and host.
\<close>

section \<open>Requests\<close>

record normalized =
  nr_type :: string
  nr_hash :: string
  nr_source :: string
  nr_options :: optmap
  nr_callback :: string

datatype request_error =
    MixedContract | NotStructured | MissingAssetType | MissingOperation | UnsupportedRequest string string
  | SourceHashRequired | SourceKeyRequired | BadSourceField
  | UnsupportedProfile string | NotImplemented string | EncryptionNeedsHls
  | ProfileConflict string string | BitrateNotAccepted string | FormatRequired | UnsupportedDownload string
  | UnsupportedPipeline string
  | OutputVariantRequired | OutputWidthRequired | OutputFormatRequired
  | UnsupportedJobType string | HashRequired | SourceRequired
  | BadCallbackUrl | InvalidOptions decode_error | EncryptedDownloads | EncryptedWithoutHls

record source_field =
  sf_hash :: string
  sf_key :: string
  sf_structured :: bool

record cover_stage =
  cs_enabled :: bool
  cs_timestamp :: rat

record preview_stage =
  ps_enabled :: bool
  ps_options :: preview_options

record transcode_stage =
  ts_enabled :: bool
  ts_encrypt :: bool

record hls_stage =
  hs_enabled :: bool
  hs_profile :: string
  hs_encryption :: "bool option"

record download_request =
  dr_profile :: string
  dr_format :: string
  dr_bitrate :: string

record waveform_stage =
  ws_enabled :: bool
  ws_profile :: string
  ws_bins :: int

text \<open>
  \<open>structuredPipelineRequest\<close>; an optional package holds an optional HLS stage, the optional
  \<open>normalize\<close> stage is its \<open>enabled\<close> flag.
\<close>

record pipeline =
  pl_analyze :: bool
  pl_cover :: "cover_stage option"
  pl_outputs :: "thumbnail_output list"
  pl_package :: "hls_stage option option"
  pl_preview :: "preview_stage option"
  pl_transcode :: "transcode_stage option"
  pl_downloads :: "download_request list"
  pl_waveform :: "waveform_stage option"
  pl_normalize :: "bool option"

record raw_job_request =
  rq_type :: string
  rq_hash :: string
  rq_source :: source_field
  rq_options :: "optmap option"
  rq_callback :: string
  rq_asset_type :: string
  rq_operation :: string
  rq_pipeline :: "pipeline option"
  rq_delivery :: "string option"

text \<open>A source is absent, a bare key, or an object with hash and key.\<close>

definition unmarshal_source :: "gval \<Rightarrow> (request_error, source_field) result" where
  "unmarshal_source v =
     (case v of
        GNull \<Rightarrow> Inr \<lparr>sf_hash = [], sf_key = [], sf_structured = False\<rparr>
      | GStr key \<Rightarrow> Inr \<lparr>sf_hash = [], sf_key = key, sf_structured = False\<rparr>
      | GObj m \<Rightarrow>
          map_err (\<lambda>e. BadSourceField)
            (strict [''hash'', ''key''] (\<lambda>m.
               bind_result (decode_str ''hash'' m) (\<lambda>h. bind_result (decode_str ''key'' m) (\<lambda>k.
                 Inr \<lparr>sf_hash = h, sf_key = k, sf_structured = True\<rparr>))) m)
      | _ \<Rightarrow> Inl BadSourceField)"

definition norm_word :: "string \<Rightarrow> string" where
  "norm_word s = to_lower (trim_space s)"

section \<open>Audio options\<close>

definition apply_structured_audio_download ::
    "optmap \<Rightarrow> download_request \<Rightarrow> (request_error, optmap) result" where
  "apply_structured_audio_download options d =
     (let profile = norm_word (dr_profile d); format = norm_word (dr_format d) in
      if profile = ''download_mp3_high'' then
        (if format \<noteq> [] \<and> format \<noteq> ''mp3'' then Inl (ProfileConflict (dr_profile d) (dr_format d))
         else Inr (set_key ''mp3_bitrate'' (GStr ''320k'') (set_key ''mp3'' (GBool True) options)))
      else if profile = ''download_flac_standard'' then
        (if format \<noteq> [] \<and> format \<noteq> ''flac'' then Inl (ProfileConflict (dr_profile d) (dr_format d))
         else if trim_space (dr_bitrate d) \<noteq> [] then Inl (BitrateNotAccepted (dr_profile d))
         else Inr (set_key ''flac'' (GBool True) options))
      else if profile \<noteq> [] then Inl (UnsupportedDownload (dr_profile d))
      else if format = ''mp3'' then
        (let o1 = set_key ''mp3'' (GBool True) options
         in Inr (if trim_space (dr_bitrate d) \<noteq> [] then set_key ''mp3_bitrate'' (GStr (dr_bitrate d)) o1 else o1))
      else if format = ''flac'' then
        (if trim_space (dr_bitrate d) \<noteq> [] then Inl (BitrateNotAccepted (dr_format d))
         else Inr (set_key ''flac'' (GBool True) options))
      else if format = [] then Inl FormatRequired
      else Inl (UnsupportedDownload (dr_format d)))"

fun apply_downloads :: "optmap \<Rightarrow> download_request list \<Rightarrow> (request_error, optmap) result" where
  "apply_downloads options [] = Inr options"
| "apply_downloads options (d # ds) =
     bind_result (apply_structured_audio_download options d) (\<lambda>o1. apply_downloads o1 ds)"

definition apply_waveform :: "waveform_stage option \<Rightarrow> optmap \<Rightarrow> (request_error, optmap) result" where
  "apply_waveform ws options =
     (case ws of
        None \<Rightarrow> Inr options
      | Some w \<Rightarrow>
          if \<not> ws_enabled w then Inr options
          else let profile = norm_word (ws_profile w) in
            if profile \<noteq> [] \<and> profile \<noteq> ''waveform_standard'' then Inl (UnsupportedProfile (ws_profile w))
            else let o1 = set_key ''waveform'' (GBool True) options in
              Inr (if ws_bins w > 0 then set_key ''waveform_bins'' (GInt (ws_bins w)) o1 else o1))"

definition apply_audio_hls :: "hls_stage option option \<Rightarrow> optmap \<Rightarrow> (request_error, optmap) result" where
  "apply_audio_hls pkg options =
     (case pkg of
        Some (Some h) \<Rightarrow>
          (let profile = norm_word (hs_profile h) in
           if profile \<noteq> [] \<and> profile \<noteq> ''stream_aac_standard'' then Inl (UnsupportedProfile (hs_profile h))
           else let o1 = (if hs_enabled h then set_key ''hls'' (GBool True) options else options) in
             if hs_encryption h = Some True then
               (if \<not> hs_enabled h then Inl EncryptionNeedsHls else Inr (set_key ''encrypt'' (GBool True) o1))
             else Inr o1)
      | _ \<Rightarrow> Inr options)"

definition build_structured_audio_options :: "pipeline option \<Rightarrow> (request_error, optmap) result" where
  "build_structured_audio_options pl =
     (case pl of
        None \<Rightarrow> Inr []
      | Some p \<Rightarrow>
          bind_result (apply_waveform (pl_waveform p) []) (\<lambda>o1.
            if pl_normalize p = Some True then Inl (NotImplemented ''pipeline.normalize'')
            else bind_result (apply_audio_hls (pl_package p) o1) (\<lambda>o2. apply_downloads o2 (pl_downloads p))))"

section \<open>Image options\<close>

definition image_output_entry :: "thumbnail_output \<Rightarrow> (request_error, optmap) result" where
  "image_output_entry out =
     (if trim_space (th_variant out) = [] then Inl OutputVariantRequired
      else if th_width out \<le> 0 then Inl OutputWidthRequired
      else if trim_space (th_format out) = [] then Inl OutputFormatRequired
      else Inr ([(''variant'', GStr (th_variant out)), (''width'', GInt (th_width out)),
                 (''format'', GStr (th_format out))] @
                (if th_height out > 0 then [(''height'', GInt (th_height out))] else [])))"

fun image_output_entries :: "thumbnail_output list \<Rightarrow> (request_error, optmap list) result" where
  "image_output_entries [] = Inr []"
| "image_output_entries (x # xs) =
     bind_result (image_output_entry x) (\<lambda>e. bind_result (image_output_entries xs) (\<lambda>es. Inr (e # es)))"

definition build_structured_image_options :: "pipeline option \<Rightarrow> (request_error, optmap) result" where
  "build_structured_image_options pl =
     (case pl of
        None \<Rightarrow> Inr []
      | Some p \<Rightarrow>
          if pl_analyze p then Inl (UnsupportedPipeline ''analyze'')
          else if pl_cover p \<noteq> None \<or> pl_preview p \<noteq> None \<or> pl_transcode p \<noteq> None then Inl (UnsupportedPipeline ''video stages'')
          else if pl_package p \<noteq> None then Inl (UnsupportedPipeline ''package'')
          else if pl_downloads p \<noteq> [] then Inl (UnsupportedPipeline ''downloads'')
          else if (case pl_waveform p of None \<Rightarrow> False | Some w \<Rightarrow> ws_enabled w) then Inl (UnsupportedPipeline ''waveform'')
          else if pl_normalize p = Some True then Inl (UnsupportedPipeline ''normalize'')
          else if pl_outputs p = [] then Inr []
          else bind_result (image_output_entries (pl_outputs p)) (\<lambda>es. Inr [(''outputs'', GObjs es)]))"

section \<open>Video requests\<close>

definition package_is_empty :: "hls_stage option option \<Rightarrow> bool" where
  "package_is_empty pkg = (case pkg of Some (Some h) \<Rightarrow> False | _ \<Rightarrow> True)"

definition is_default_structured_video_pipeline :: "pipeline option \<Rightarrow> bool" where
  "is_default_structured_video_pipeline pl =
     (case pl of
        None \<Rightarrow> True
      | Some p \<Rightarrow>
          \<not> pl_analyze p \<and> pl_cover p = None \<and> pl_preview p = None \<and> pl_transcode p = None \<and>
          pl_outputs p = [] \<and> package_is_empty (pl_package p) \<and> pl_downloads p = [] \<and>
          pl_waveform p = None \<and> pl_normalize p = None)"

text \<open>HLS enabled, encryption requested.\<close>

definition parse_structured_video_hls :: "hls_stage option option \<Rightarrow> (request_error, bool \<times> bool) result" where
  "parse_structured_video_hls pkg =
     (case pkg of
        Some (Some h) \<Rightarrow>
          (let profile = norm_word (hs_profile h) in
           if profile \<noteq> [] \<and> profile \<noteq> ''stream_video_standard'' then Inl (UnsupportedProfile (hs_profile h))
           else Inr (hs_enabled h, hs_encryption h = Some True))
      | _ \<Rightarrow> Inr (False, False))"

definition cover_enabled :: "pipeline \<Rightarrow> bool" where
  "cover_enabled p = (case pl_cover p of None \<Rightarrow> False | Some c \<Rightarrow> cs_enabled c)"

definition preview_enabled :: "pipeline \<Rightarrow> bool" where
  "preview_enabled p = (case pl_preview p of None \<Rightarrow> False | Some c \<Rightarrow> ps_enabled c)"

definition bool_count :: "bool list \<Rightarrow> nat" where
  "bool_count bs = length (filter id bs)"

definition cover_options_for_full :: "cover_stage option \<Rightarrow> cover_options option" where
  "cover_options_for_full st = map_option (\<lambda>s. \<lparr>co_timestamp = cs_timestamp s\<rparr>) st"

definition preview_options_for_full :: "preview_stage option \<Rightarrow> preview_options option" where
  "preview_options_for_full st = map_option ps_options st"

definition build_structured_video_request :: "pipeline option \<Rightarrow> (request_error, string \<times> optmap) result" where
  "build_structured_video_request pl =
     (if is_default_structured_video_pipeline pl then Inr (type_video_full, [])
      else case pl of None \<Rightarrow> Inr (type_video_full, []) | Some p \<Rightarrow>
        if pl_transcode p \<noteq> None then Inl (UnsupportedPipeline ''pipeline.transcode'')
        else if pl_downloads p \<noteq> [] then Inl (UnsupportedPipeline ''downloads'')
        else if (case pl_waveform p of None \<Rightarrow> False | Some w \<Rightarrow> ws_enabled w) then Inl (UnsupportedPipeline ''waveform'')
        else if pl_normalize p = Some True then Inl (UnsupportedPipeline ''normalize'')
        else bind_result (parse_structured_video_hls (pl_package p)) (\<lambda>(hls_on, encrypt).
          let c = cover_enabled p; v = preview_enabled p in
          if bool_count [c, v, hls_on] = 0 then Inl (UnsupportedPipeline ''no deliverables enabled'')
          else if c \<and> \<not> v \<and> \<not> hls_on then
            Inr (type_video_cover, encode_cover \<lparr>co_timestamp = cs_timestamp (the (pl_cover p))\<rparr>)
          else if \<not> c \<and> v \<and> \<not> hls_on then
            Inr (type_video_preview, encode_preview (ps_options (the (pl_preview p))))
          else if \<not> c \<and> \<not> v \<and> hls_on then
            Inr (type_video_transcode, encode_transcode \<lparr>to_encrypt = encrypt\<rparr>)
          else if c \<and> v \<and> hls_on then
            Inr (type_video_full, encode_full
              \<lparr>fo_cover = cover_options_for_full (pl_cover p), fo_preview = preview_options_for_full (pl_preview p),
               fo_transcode = Some \<lparr>to_encrypt = encrypt\<rparr>\<rparr>)
          else Inl (UnsupportedPipeline ''combination'')))"

section \<open>Normalization\<close>

definition check_source :: "source_field \<Rightarrow> (request_error, unit) result" where
  "check_source sf =
     (if trim_space (sf_hash sf) = [] then Inl SourceHashRequired
      else if trim_space (sf_key sf) = [] then Inl SourceKeyRequired else Inr ())"

definition delivery_callback :: "raw_job_request \<Rightarrow> string" where
  "delivery_callback r = (case rq_delivery r of None \<Rightarrow> [] | Some u \<Rightarrow> u)"

definition normalize_structured_audio :: "raw_job_request \<Rightarrow> (request_error, normalized) result" where
  "normalize_structured_audio r =
     bind_result (check_source (rq_source r)) (\<lambda>_.
     bind_result (build_structured_audio_options (rq_pipeline r)) (\<lambda>opts.
       Inr \<lparr>nr_type = type_audio_transcode, nr_hash = sf_hash (rq_source r), nr_source = sf_key (rq_source r),
            nr_options = opts, nr_callback = delivery_callback r\<rparr>))"

definition normalize_structured_image :: "raw_job_request \<Rightarrow> (request_error, normalized) result" where
  "normalize_structured_image r =
     bind_result (check_source (rq_source r)) (\<lambda>_.
     bind_result (build_structured_image_options (rq_pipeline r)) (\<lambda>opts.
       Inr \<lparr>nr_type = type_image_thumbnail, nr_hash = sf_hash (rq_source r), nr_source = sf_key (rq_source r),
            nr_options = opts, nr_callback = delivery_callback r\<rparr>))"

definition normalize_structured_video :: "raw_job_request \<Rightarrow> (request_error, normalized) result" where
  "normalize_structured_video r =
     bind_result (check_source (rq_source r)) (\<lambda>_.
     bind_result (build_structured_video_request (rq_pipeline r)) (\<lambda>(task_type, opts).
       Inr \<lparr>nr_type = task_type, nr_hash = sf_hash (rq_source r), nr_source = sf_key (rq_source r),
            nr_options = opts, nr_callback = delivery_callback r\<rparr>))"

definition is_structured :: "raw_job_request \<Rightarrow> bool" where
  "is_structured r \<longleftrightarrow>
     rq_asset_type r \<noteq> [] \<or> rq_operation r \<noteq> [] \<or> rq_pipeline r \<noteq> None \<or> rq_delivery r \<noteq> None \<or>
     sf_structured (rq_source r)"

definition normalize_structured :: "raw_job_request \<Rightarrow> (request_error, normalized) result" where
  "normalize_structured r =
     (if rq_type r \<noteq> [] \<or> rq_hash r \<noteq> [] \<or> rq_options r \<noteq> None \<or> rq_callback r \<noteq> [] then Inl MixedContract
      else let asset = norm_word (rq_asset_type r); op = norm_word (rq_operation r) in
        if asset = ''audio'' \<and> op = ''process'' then normalize_structured_audio r
        else if asset = ''image'' \<and> op = ''process'' then normalize_structured_image r
        else if asset = ''video'' \<and> op = ''process'' then normalize_structured_video r
        else if asset = [] then Inl MissingAssetType
        else if op = [] then Inl MissingOperation
        else Inl (UnsupportedRequest asset op))"

definition decode_request :: "raw_job_request \<Rightarrow> (request_error, normalized) result" where
  "decode_request r = (if \<not> is_structured r then Inl NotStructured else normalize_structured r)"

definition route_fields_absent :: "raw_job_request \<Rightarrow> bool" where
  "route_fields_absent r \<longleftrightarrow>
     rq_type r = [] \<and> rq_hash r = [] \<and> rq_options r = None \<and> rq_callback r = [] \<and>
     rq_asset_type r = [] \<and> rq_operation r = []"

definition decode_audio_create :: "raw_job_request \<Rightarrow> (request_error, normalized) result" where
  "decode_audio_create r =
     (if \<not> route_fields_absent r then Inl MixedContract else normalize_structured_audio r)"

definition decode_video_create :: "raw_job_request \<Rightarrow> (request_error, normalized) result" where
  "decode_video_create r =
     (if \<not> route_fields_absent r then Inl MixedContract else normalize_structured_video r)"

section \<open>Canonical options\<close>

definition canonicalize_full :: "full_options \<Rightarrow> full_options" where
  "canonicalize_full f =
     \<lparr>fo_cover = (if fo_cover f = Some \<lparr>co_timestamp = 0\<rparr> then None else fo_cover f),
      fo_preview = (if fo_preview f = Some \<lparr>po_start = 0, po_duration = 0, po_width = 0, po_fps = 0, po_format = []\<rparr>
                    then None else fo_preview f),
      fo_transcode = (if fo_transcode f = Some \<lparr>to_encrypt = False\<rparr> then None else fo_transcode f)\<rparr>"

text \<open>The steps shared by the two audio canonicalizers.\<close>

definition audio_default_outputs :: "audio_options \<Rightarrow> audio_options" where
  "audio_default_outputs a =
     (if \<not> ao_hls a \<and> \<not> ao_mp3 a \<and> \<not> ao_flac a \<and> \<not> ao_waveform a
      then a\<lparr>ao_hls := True, ao_mp3 := True, ao_flac := True, ao_waveform := True\<rparr> else a)"

definition audio_default_bins :: "audio_options \<Rightarrow> audio_options" where
  "audio_default_bins a =
     (let a1 = (if ao_waveform a \<and> ao_waveform_bins a \<le> 0 then a\<lparr>ao_waveform_bins := default_waveform_bins\<rparr> else a)
      in if \<not> ao_waveform a1 then a1\<lparr>ao_waveform_bins := 0\<rparr> else a1)"

definition audio_default_bitrate :: "audio_options \<Rightarrow> audio_options" where
  "audio_default_bitrate a =
     (let a1 = (if ao_mp3 a \<and> trim_space (ao_mp3_bitrate a) = [] then a\<lparr>ao_mp3_bitrate := ''320k''\<rparr> else a)
      in if \<not> ao_mp3 a1 then a1\<lparr>ao_mp3_bitrate := []\<rparr> else a1)"

text \<open>\<open>canonicalizeAudioTranscodeOptions\<close> of package request.\<close>

definition canonicalize_audio :: "audio_options \<Rightarrow> audio_options" where
  "canonicalize_audio a = audio_default_bitrate (audio_default_bins (audio_default_outputs a))"

text \<open>The function of the same name in \<open>internal/handler/job.go\<close>, run again when a task is enqueued.\<close>

definition handler_canonicalize_audio :: "audio_options \<Rightarrow> audio_options" where
  "handler_canonicalize_audio a0 =
     (let a = (if ao_encrypt a0 then a0\<lparr>ao_hls := True, ao_mp3 := False, ao_flac := False\<rparr> else a0)
      in audio_default_bitrate (audio_default_bins (audio_default_outputs a)))"

section \<open>Validate and Canonicalize\<close>

type_synonym url_parser = "string \<Rightarrow> (string \<times> string) option"

definition validate_callback_url :: "url_parser \<Rightarrow> string \<Rightarrow> (request_error, unit) result" where
  "validate_callback_url parse_url raw =
     (if raw = [] then Inr ()
      else case parse_url raw of
        None \<Rightarrow> Inl BadCallbackUrl
      | Some (scheme, host) \<Rightarrow>
          if to_lower scheme \<notin> {''http'', ''https''} then Inl BadCallbackUrl
          else if host = [] then Inl BadCallbackUrl else Inr ())"

definition drop_value :: "(decode_error, 'a) result \<Rightarrow> (request_error, unit) result" where
  "drop_value r = (case r of Inl e \<Rightarrow> Inl (InvalidOptions e) | Inr a \<Rightarrow> Inr ())"

definition validate_job_options :: "string \<Rightarrow> optmap \<Rightarrow> (request_error, unit) result" where
  "validate_job_options job_type opts =
     (if job_type = type_image_thumbnail then drop_value (decode_outputs opts)
      else if job_type = type_audio_transcode then
        (case decode_audio opts of
           Inl e \<Rightarrow> Inl (InvalidOptions e)
         | Inr a \<Rightarrow>
             let parsed = canonicalize_audio a in
             if ao_encrypt parsed \<and> (ao_mp3 parsed \<or> ao_flac parsed) then Inl EncryptedDownloads
             else if ao_encrypt parsed \<and> \<not> ao_hls parsed then Inl EncryptedWithoutHls
             else Inr ())
      else if job_type = type_video_cover then drop_value (decode_cover opts)
      else if job_type = type_video_preview then drop_value (decode_preview opts)
      else if job_type = type_video_transcode then drop_value (decode_transcode opts)
      else if job_type = type_video_full then drop_value (decode_full opts)
      else Inr ())"

definition valid_job_types :: "string list" where
  "valid_job_types = [type_image_thumbnail, type_audio_transcode, type_video_cover, type_video_preview,
     type_video_transcode, type_video_full]"

definition validate_request :: "url_parser \<Rightarrow> normalized \<Rightarrow> (request_error, unit) result" where
  "validate_request parse_url r =
     (if nr_type r \<notin> set valid_job_types then Inl (UnsupportedJobType (nr_type r))
      else if nr_hash r = [] then Inl HashRequired
      else if nr_source r = [] then Inl SourceRequired
      else bind_result (validate_callback_url parse_url (nr_callback r)) (\<lambda>_.
             validate_job_options (nr_type r) (nr_options r)))"

definition canonical_options :: "string \<Rightarrow> optmap \<Rightarrow> (request_error, optmap) result" where
  "canonical_options job_type opts =
     (if job_type = type_audio_transcode then
        map_err InvalidOptions (bind_result (decode_audio opts) (\<lambda>a. Inr (encode_audio (canonicalize_audio a))))
      else if job_type = type_video_cover then
        map_err InvalidOptions (bind_result (decode_cover opts) (\<lambda>a. Inr (encode_cover a)))
      else if job_type = type_video_preview then
        map_err InvalidOptions (bind_result (decode_preview opts) (\<lambda>a. Inr (encode_preview a)))
      else if job_type = type_video_transcode then
        map_err InvalidOptions (bind_result (decode_transcode opts) (\<lambda>a. Inr (encode_transcode a)))
      else if job_type = type_video_full then
        map_err InvalidOptions (bind_result (decode_full opts) (\<lambda>a. Inr (encode_full (canonicalize_full a))))
      else Inr opts)"

definition canonicalize_request :: "normalized \<Rightarrow> (request_error, normalized) result" where
  "canonicalize_request r =
     bind_result (canonical_options (nr_type r) (nr_options r)) (\<lambda>opts. Inr (r\<lparr>nr_options := opts\<rparr>))"

section \<open>The canonical form\<close>

lemmas audio_defaults = audio_default_outputs_def audio_default_bins_def audio_default_bitrate_def

lemma default_bins_select [simp]:
  "ao_hls (audio_default_bins a) = ao_hls a" "ao_mp3 (audio_default_bins a) = ao_mp3 a"
  "ao_flac (audio_default_bins a) = ao_flac a" "ao_waveform (audio_default_bins a) = ao_waveform a"
  "ao_encrypt (audio_default_bins a) = ao_encrypt a"
  "ao_mp3_bitrate (audio_default_bins a) = ao_mp3_bitrate a"
  "ao_waveform_bins (audio_default_bins a) =
     (if ao_waveform a then if ao_waveform_bins a \<le> 0 then 2048 else ao_waveform_bins a else 0)"
  by (simp_all add: audio_default_bins_def Let_def default_waveform_bins_def)

lemma default_bitrate_select [simp]:
  "ao_hls (audio_default_bitrate a) = ao_hls a" "ao_mp3 (audio_default_bitrate a) = ao_mp3 a"
  "ao_flac (audio_default_bitrate a) = ao_flac a" "ao_waveform (audio_default_bitrate a) = ao_waveform a"
  "ao_encrypt (audio_default_bitrate a) = ao_encrypt a"
  "ao_waveform_bins (audio_default_bitrate a) = ao_waveform_bins a"
  "ao_mp3_bitrate (audio_default_bitrate a) =
     (if ao_mp3 a then if trim_space (ao_mp3_bitrate a) = [] then ''320k'' else ao_mp3_bitrate a else [])"
  by (simp_all add: audio_default_bitrate_def Let_def)

lemma default_outputs_fixed: "ao_hls a \<or> ao_mp3 a \<or> ao_flac a \<or> ao_waveform a \<Longrightarrow> audio_default_outputs a = a"
  by (simp add: audio_default_outputs_def)

lemma default_outputs_some:
  "ao_hls (audio_default_outputs a) \<or> ao_mp3 (audio_default_outputs a) \<or> ao_flac (audio_default_outputs a) \<or>
   ao_waveform (audio_default_outputs a)"
  by (auto simp: audio_default_outputs_def)

lemma trim_320k: "trim_space ''320k'' = ''320k''"
  by (simp add: trim_space_def is_space_def)

lemma canonicalize_audio_idem: "canonicalize_audio (canonicalize_audio a) = canonicalize_audio a"
proof -
  let ?b = "audio_default_outputs a"
  have "audio_default_outputs (audio_default_bitrate (audio_default_bins ?b)) = audio_default_bitrate (audio_default_bins ?b)"
    using default_outputs_some [of a] by (intro default_outputs_fixed) simp
  moreover have "audio_default_bins (audio_default_bitrate (audio_default_bins b)) = audio_default_bitrate (audio_default_bins b)" for b
    by (rule audio_options.equality) simp_all
  moreover have "audio_default_bitrate (audio_default_bitrate b) = audio_default_bitrate b" for b
    by (rule audio_options.equality) (simp_all add: trim_320k)
  ultimately show ?thesis by (simp add: canonicalize_audio_def)
qed

lemma canonicalize_full_idem: "canonicalize_full (canonicalize_full f) = canonicalize_full f"
  by (simp add: canonicalize_full_def)

lemma exact_canonical_audio: "exact_audio a \<Longrightarrow> exact_audio (canonicalize_audio a)"
  by (auto simp: exact_audio_def exact_int_def canonicalize_audio_def audio_default_outputs_def)

lemma exact_canonical_full: "exact_full f \<Longrightarrow> exact_full (canonicalize_full f)"
  by (auto simp: exact_full_def canonicalize_full_def split: option.splits)

text \<open>The integers of the decoded options survive float64.\<close>

definition exact_options :: "string \<Rightarrow> optmap \<Rightarrow> bool" where
  "exact_options job_type opts \<longleftrightarrow>
     (if job_type = type_audio_transcode then (case decode_audio opts of Inl e \<Rightarrow> True | Inr a \<Rightarrow> exact_audio a)
      else if job_type = type_video_preview then (case decode_preview opts of Inl e \<Rightarrow> True | Inr a \<Rightarrow> exact_preview a)
      else if job_type = type_video_full then (case decode_full opts of Inl e \<Rightarrow> True | Inr a \<Rightarrow> exact_full a)
      else True)"

lemma canonical_options_fixed:
  assumes "canonical_options t opts = Inr opts'" "exact_options t opts"
  shows "canonical_options t opts' = Inr opts' \<and> exact_options t opts'"
proof -
  consider (audio) "t = type_audio_transcode" | (cover) "t = type_video_cover" | (preview) "t = type_video_preview"
    | (transcode) "t = type_video_transcode" | (full) "t = type_video_full"
    | (other) "t \<notin> {type_audio_transcode, type_video_cover, type_video_preview, type_video_transcode, type_video_full}"
    by blast
  then show ?thesis
  proof cases
    case audio
    then obtain a where "decode_audio opts = Inr a" "opts' = encode_audio (canonicalize_audio a)"
      using assms(1) by (auto simp: canonical_options_def bind_result_Inr_iff)
    then have "decode_audio opts' = Inr (canonicalize_audio a)" "exact_audio (canonicalize_audio a)"
      "opts' = encode_audio (canonicalize_audio a)"
      using assms(2) audio exact_canonical_audio [of a] decode_encode_audio by (simp_all add: exact_options_def)
    then show ?thesis by (simp add: audio canonical_options_def exact_options_def canonicalize_audio_idem)
  next
    case cover
    then show ?thesis
      using assms(1) by (auto simp: canonical_options_def exact_options_def bind_result_Inr_iff task_types decode_encode_cover)
  next
    case preview
    then obtain a where "decode_preview opts = Inr a" "opts' = encode_preview a"
      using assms(1) by (auto simp: canonical_options_def bind_result_Inr_iff task_types)
    then show ?thesis
      using assms(2) preview decode_encode_preview
      by (simp add: canonical_options_def exact_options_def task_types)
  next
    case transcode
    then show ?thesis
      using assms(1) by (auto simp: canonical_options_def exact_options_def bind_result_Inr_iff task_types decode_encode_transcode)
  next
    case full
    then obtain a where "decode_full opts = Inr a" "opts' = encode_full (canonicalize_full a)"
      using assms(1) by (auto simp: canonical_options_def bind_result_Inr_iff task_types)
    moreover from this have "exact_full (canonicalize_full a)"
      using assms(2) full exact_canonical_full by (simp add: exact_options_def task_types)
    ultimately show ?thesis
      using full decode_encode_full
      by (simp add: canonical_options_def exact_options_def task_types canonicalize_full_idem)
  next
    case other
    then show ?thesis using assms by (auto simp: canonical_options_def)
  qed
qed

text \<open>
  Canonicalization is idempotent, and the canonical request is exact again: canonicalizing a
  stored job once more, as the retry endpoint does, reproduces the same options and hence the same
  request fingerprint.
\<close>

theorem canonicalize_request_idempotent:
  assumes "canonicalize_request r = Inr r'" and "exact_options (nr_type r) (nr_options r)"
  shows "canonicalize_request r' = Inr r'"
  using assms canonical_options_fixed [of "nr_type r" "nr_options r"]
  by (auto simp: canonicalize_request_def bind_result_Inr_iff)

definition demo_normalized :: "string \<Rightarrow> optmap \<Rightarrow> normalized" where
  "demo_normalized t m = \<lparr>nr_type = t, nr_hash = ''h'', nr_source = ''s.mov'', nr_options = m, nr_callback = []\<rparr>"

theorem canonicalize_request_idempotent_witness:
  "\<exists>r'. canonicalize_request (demo_normalized ''video:transcode'' [(''encrypt'', GBool False)]) = Inr r' \<and>
     canonicalize_request r' = Inr r' \<and> nr_options r' = []"
proof -
  have "canonicalize_request (demo_normalized ''video:transcode'' [(''encrypt'', GBool False)]) =
      Inr (demo_normalized ''video:transcode'' [])"
    by (simp add: canonicalize_request_def canonical_options_def demo_normalized_def task_types decode_transcode_def
      strict_def known_fields_def encode_transcode_def enc_bool_def decode_bool_def)
  from canonicalize_request_idempotent [OF this] this show ?thesis
    by (simp add: exact_options_def demo_normalized_def task_types)
qed

lemma drop_value_ok: "drop_value r = Inr () \<longleftrightarrow> (\<exists>a. r = Inr a)"
  by (cases r) (simp_all add: drop_value_def)

lemma validated_canonical:
  assumes "validate_job_options t opts = Inr ()" "exact_options t opts"
  shows "\<exists>opts'. canonical_options t opts = Inr opts' \<and> validate_job_options t opts' = Inr ()"
proof -
  consider (audio) "t = type_audio_transcode" | (cover) "t = type_video_cover" | (preview) "t = type_video_preview"
    | (transcode) "t = type_video_transcode" | (full) "t = type_video_full"
    | (other) "t \<notin> {type_audio_transcode, type_video_cover, type_video_preview, type_video_transcode, type_video_full}"
    by blast
  then show ?thesis
  proof cases
    case audio
    then obtain a where a: "decode_audio opts = Inr a"
      using assms(1) by (auto simp: validate_job_options_def task_types split: sum.splits)
    then have d: "decode_audio (encode_audio (canonicalize_audio a)) = Inr (canonicalize_audio a)"
      using assms(2) audio exact_canonical_audio [of a] decode_encode_audio by (simp add: exact_options_def)
    show ?thesis
      using assms(1) audio a d by (simp add: validate_job_options_def canonical_options_def task_types canonicalize_audio_idem)
  next
    case cover
    then show ?thesis
      using assms(1) by (auto simp: validate_job_options_def canonical_options_def task_types drop_value_ok decode_encode_cover)
  next
    case preview
    then obtain a where "decode_preview opts = Inr a" "exact_preview a"
      using assms by (auto simp: validate_job_options_def exact_options_def task_types drop_value_ok)
    then show ?thesis
      using preview by (simp add: validate_job_options_def canonical_options_def task_types drop_value_ok decode_encode_preview)
  next
    case transcode
    then show ?thesis
      using assms(1) by (auto simp: validate_job_options_def canonical_options_def task_types drop_value_ok decode_encode_transcode)
  next
    case full
    then obtain a where "decode_full opts = Inr a" "exact_full a"
      using assms by (auto simp: validate_job_options_def exact_options_def task_types drop_value_ok)
    then show ?thesis
      using full exact_canonical_full by (simp add: validate_job_options_def canonical_options_def task_types drop_value_ok decode_encode_full)
  next
    case other
    then show ?thesis using assms by (auto simp: canonical_options_def)
  qed
qed

text \<open>
  C30. A request that passes validation always has a canonical form, for the same source, type and
  callback, and the canonical form passes validation as well.
\<close>

theorem validated_request_canonical:
  assumes "validate_request parse_url r = Inr ()" and "exact_options (nr_type r) (nr_options r)"
  shows "\<exists>opts. canonicalize_request r = Inr (r\<lparr>nr_options := opts\<rparr>) \<and>
    validate_request parse_url (r\<lparr>nr_options := opts\<rparr>) = Inr ()"
proof -
  have "validate_job_options (nr_type r) (nr_options r) = Inr ()"
    using assms(1) by (auto simp: validate_request_def bind_result_Inr_iff split: if_splits)
  then obtain opts' where o: "canonical_options (nr_type r) (nr_options r) = Inr opts'"
    "validate_job_options (nr_type r) opts' = Inr ()"
    using validated_canonical assms(2) by blast
  then have "validate_request parse_url (r\<lparr>nr_options := opts'\<rparr>) = Inr ()"
    using assms(1) by (auto simp: validate_request_def bind_result_Inr_iff split: if_splits)
  with o show ?thesis by (auto simp: canonicalize_request_def)
qed

theorem validated_request_canonical_witness:
  "\<exists>opts. canonicalize_request (demo_normalized ''audio:transcode'' []) =
      Inr ((demo_normalized ''audio:transcode'' [])\<lparr>nr_options := opts\<rparr>)"
proof -
  have d: "decode_audio [] = Inr \<lparr>ao_hls = False, ao_encrypt = False, ao_mp3 = False, ao_flac = False,
      ao_waveform = False, ao_waveform_bins = 0, ao_mp3_bitrate = []\<rparr>"
    by (simp add: decode_audio_def strict_def)
  have "validate_request (\<lambda>u. None) (demo_normalized ''audio:transcode'' []) = Inr ()"
    by (simp add: validate_request_def validate_callback_url_def demo_normalized_def valid_job_types_def task_types
      validate_job_options_def d canonicalize_audio_def audio_default_outputs_def Let_def)
  from validated_request_canonical [OF this] show ?thesis
    by (auto simp: exact_options_def demo_normalized_def task_types d exact_audio_def exact_int_def)
qed

text \<open>
  The two copies of the audio canonicalizer agree on every audio request that validation lets
  through, although only the handler's copy forces the outputs of an encrypted job: an encrypted job
  that validates asks for HLS and for no download.
\<close>

theorem audio_canonicalizers_agree:
  assumes "validate_job_options type_audio_transcode opts = Inr ()" and "decode_audio opts = Inr a"
  shows "handler_canonicalize_audio a = canonicalize_audio a \<and>
    (ao_encrypt a \<longrightarrow> ao_hls (canonicalize_audio a) \<and> \<not> ao_mp3 (canonicalize_audio a) \<and> \<not> ao_flac (canonicalize_audio a)) \<and>
    (ao_hls (canonicalize_audio a) \<or> ao_mp3 (canonicalize_audio a) \<or> ao_flac (canonicalize_audio a) \<or>
     ao_waveform (canonicalize_audio a))"
proof -
  have v: "\<not> (ao_encrypt (canonicalize_audio a) \<and> (ao_mp3 (canonicalize_audio a) \<or> ao_flac (canonicalize_audio a)))"
    "\<not> (ao_encrypt (canonicalize_audio a) \<and> \<not> ao_hls (canonicalize_audio a))"
    using assms by (auto simp: validate_job_options_def task_types Let_def split: if_splits)
  have some: "ao_hls (canonicalize_audio a) \<or> ao_mp3 (canonicalize_audio a) \<or> ao_flac (canonicalize_audio a) \<or>
     ao_waveform (canonicalize_audio a)"
    using default_outputs_some [of a] by (simp add: canonicalize_audio_def)
  show ?thesis
  proof (cases "ao_encrypt a")
    case True
    then have "ao_hls a" "\<not> ao_mp3 a" "\<not> ao_flac a"
      using v by (auto simp: canonicalize_audio_def audio_default_outputs_def split: if_splits)
    moreover from this have "a\<lparr>ao_hls := True, ao_mp3 := False, ao_flac := False\<rparr> = a"
      by (intro audio_options.equality) simp_all
    ultimately show ?thesis
      using v some True by (simp add: handler_canonicalize_audio_def canonicalize_audio_def audio_default_outputs_def)
  next
    case False
    then show ?thesis using some by (simp add: handler_canonicalize_audio_def canonicalize_audio_def)
  qed
qed

theorem audio_canonicalizers_agree_witness:
  "\<exists>a. decode_audio [(''hls'', GBool True), (''encrypt'', GBool True)] = Inr a \<and> ao_encrypt a \<and>
     handler_canonicalize_audio a = canonicalize_audio a"
proof -
  let ?a = "\<lparr>ao_hls = True, ao_encrypt = True, ao_mp3 = False, ao_flac = False,
      ao_waveform = False, ao_waveform_bins = 0, ao_mp3_bitrate = []\<rparr>"
  have d: "decode_audio [(''hls'', GBool True), (''encrypt'', GBool True)] = Inr ?a"
    by (simp add: decode_audio_def strict_def known_fields_def decode_bool_def)
  have "validate_job_options type_audio_transcode [(''hls'', GBool True), (''encrypt'', GBool True)] = Inr ()"
    by (simp add: validate_job_options_def task_types d canonicalize_audio_def audio_default_outputs_def Let_def)
  from audio_canonicalizers_agree [OF this d] d show ?thesis by auto
qed

text \<open>
  The detour over float64 loses the largest bin count: the request is valid and has a canonical
  form, but the canonical form no longer decodes, so enqueuing the task fails.
\<close>

theorem canonical_bins_overflow:
  "(let opts = [(''waveform'', GBool True), (''waveform_bins'', GInt max_int64)] in
    validate_job_options type_audio_transcode opts = Inr () \<and>
    (\<exists>opts'. canonical_options type_audio_transcode opts = Inr opts' \<and>
       decode_audio opts' = Inl (BadField ''waveform_bins'')))"
proof -
  let ?opts = "[(''waveform'', GBool True), (''waveform_bins'', GInt max_int64)]"
  let ?a = "\<lparr>ao_hls = False, ao_encrypt = False, ao_mp3 = False, ao_flac = False,
      ao_waveform = True, ao_waveform_bins = max_int64, ao_mp3_bitrate = []\<rparr>"
  have d: "decode_audio ?opts = Inr ?a"
    by (simp add: decode_audio_def strict_def known_fields_def decode_bool_def decode_int_def int64_range_def
      min_int64_def max_int64_def)
  have c: "canonicalize_audio ?a = ?a"
    by (simp add: canonicalize_audio_def audio_defaults max_int64_def)
  have e: "encode_audio ?a = [(''waveform'', GBool True), (''waveform_bins'', GFloat (2 ^ 63))]"
    by (simp add: encode_audio_def enc_bool_def enc_int_def enc_str_def f64_max_int64) (simp add: max_int64_def)
  have "decode_audio [(''waveform'', GBool True), (''waveform_bins'', GFloat (2 ^ 63))] = Inl (BadField ''waveform_bins'')"
  proof -
    have "\<lfloor>(2::rat) ^ 63\<rfloor> = 2 ^ 63" by simp
    then show ?thesis
      by (simp add: decode_audio_def strict_def known_fields_def decode_bool_def decode_int_def int64_range_def
        max_int64_def)
  qed
  then show ?thesis
    by (simp add: validate_job_options_def canonical_options_def task_types d c e)
qed

section \<open>The video contract\<close>

text \<open>Cover, preview and HLS stream that a task type delivers.\<close>

definition deliverables :: "string \<Rightarrow> bool \<times> bool \<times> bool" where
  "deliverables t =
     (t = type_video_cover \<or> t = type_video_full, t = type_video_preview \<or> t = type_video_full,
      t = type_video_transcode \<or> t = type_video_full)"

definition hls_enabled :: "pipeline \<Rightarrow> bool" where
  "hls_enabled p = (case pl_package p of Some (Some h) \<Rightarrow> hs_enabled h | _ \<Rightarrow> False)"

definition exact_pipeline :: "pipeline option \<Rightarrow> bool" where
  "exact_pipeline pl =
     (case pl of None \<Rightarrow> True
      | Some p \<Rightarrow> (case pl_preview p of None \<Rightarrow> True | Some v \<Rightarrow> exact_preview (ps_options v)))"

lemma parse_hls_enabled: "parse_structured_video_hls (pl_package p) = Inr (on, enc) \<Longrightarrow> on = hls_enabled p"
  by (auto simp: parse_structured_video_hls_def hls_enabled_def Let_def split: option.splits if_splits)

lemma enabled_stages:
  "cover_enabled p \<Longrightarrow> pl_cover p \<noteq> None" "preview_enabled p \<Longrightarrow> pl_preview p \<noteq> None"
  by (auto simp: cover_enabled_def preview_enabled_def split: option.splits)

text \<open>
  C29. A video request is accepted for exactly the deliverables its task type produces: what is
  enabled in the pipeline is what the type delivers (everything, when the pipeline is left at its
  default), and the option map it builds passes the validation of that type.
\<close>

theorem video_request_deliverables:
  assumes "build_structured_video_request pl = Inr (t, opts)" and "exact_pipeline pl"
  shows "validate_job_options t opts = Inr () \<and>
    (case pl of
       None \<Rightarrow> t = type_video_full
     | Some p \<Rightarrow>
         if is_default_structured_video_pipeline pl then t = type_video_full
         else deliverables t = (cover_enabled p, preview_enabled p, hls_enabled p))"
proof (cases "is_default_structured_video_pipeline pl")
  case True
  then have "t = type_video_full" "opts = []"
    using assms(1) by (simp_all add: build_structured_video_request_def)
  moreover have "decode_full [] = Inr \<lparr>fo_cover = None, fo_preview = None, fo_transcode = None\<rparr>"
    by (simp add: decode_full_def strict_def decode_ptr_def)
  ultimately show ?thesis
    using True by (cases pl) (simp_all add: validate_job_options_def task_types drop_value_ok)
next
  case False
  then obtain p where p: "pl = Some p" by (cases pl) (simp_all add: is_default_structured_video_pipeline_def)
  obtain on enc where h: "parse_structured_video_hls (pl_package p) = Inr (on, enc)"
    using assms(1) False p
    by (auto simp: build_structured_video_request_def bind_result_Inr_iff split: if_splits option.splits)
  have on: "on = hls_enabled p" using parse_hls_enabled h by blast
  let ?c = "cover_enabled p" and ?v = "preview_enabled p"
  let ?full = "\<lparr>fo_cover = cover_options_for_full (pl_cover p), fo_preview = preview_options_for_full (pl_preview p),
               fo_transcode = Some \<lparr>to_encrypt = enc\<rparr>\<rparr>"
  have cases: "(?c \<and> \<not> ?v \<and> \<not> on \<and> t = type_video_cover \<and> (\<exists>x. opts = encode_cover x)) \<or>
    (\<not> ?c \<and> ?v \<and> \<not> on \<and> t = type_video_preview \<and> opts = encode_preview (ps_options (the (pl_preview p)))) \<or>
    (\<not> ?c \<and> \<not> ?v \<and> on \<and> t = type_video_transcode \<and> (\<exists>x. opts = encode_transcode x)) \<or>
    (?c \<and> ?v \<and> on \<and> t = type_video_full \<and> opts = encode_full ?full)"
    using assms(1) False p h
    by (auto simp: build_structured_video_request_def Let_def split: if_splits)
  have ex: "exact_preview (ps_options (the (pl_preview p)))" if "?v"
    using assms(2) enabled_stages(2) [OF that] p by (auto simp: exact_pipeline_def)
  have exf: "exact_full ?full"
    using assms(2) p by (auto simp: exact_full_def exact_pipeline_def preview_options_for_full_def split: option.splits)
  have "validate_job_options t opts = Inr () \<and> deliverables t = (?c, ?v, on)"
    using cases
  proof (elim disjE conjE exE)
    assume "?v" "t = type_video_preview" "opts = encode_preview (ps_options (the (pl_preview p)))" "\<not> ?c" "\<not> on"
    then show ?thesis
      using decode_encode_preview [OF ex]
      by (simp add: validate_job_options_def deliverables_def task_types drop_value_def)
  next
    assume "?c" "?v" on "t = type_video_full" "opts = encode_full ?full"
    then show ?thesis
      using decode_encode_full [OF exf]
      by (simp add: validate_job_options_def deliverables_def task_types drop_value_def)
  qed (simp_all add: validate_job_options_def deliverables_def task_types drop_value_def decode_encode_cover
      decode_encode_transcode)
  then show ?thesis using False p on by simp
qed

definition demo_pipeline :: pipeline where
  "demo_pipeline = \<lparr>pl_analyze = False, pl_cover = Some \<lparr>cs_enabled = True, cs_timestamp = 3 / 2\<rparr>, pl_outputs = [],
     pl_package = None, pl_preview = None, pl_transcode = None, pl_downloads = [], pl_waveform = None,
     pl_normalize = None\<rparr>"

theorem video_request_deliverables_witness:
  "\<exists>opts. build_structured_video_request (Some demo_pipeline) = Inr (type_video_cover, opts) \<and>
     validate_job_options type_video_cover opts = Inr ()"
proof -
  have "build_structured_video_request (Some demo_pipeline) = Inr (type_video_cover, encode_cover \<lparr>co_timestamp = 3 / 2\<rparr>)"
    by (simp add: build_structured_video_request_def demo_pipeline_def is_default_structured_video_pipeline_def
      parse_structured_video_hls_def cover_enabled_def preview_enabled_def bool_count_def Let_def)
  from video_request_deliverables [OF this] this show ?thesis
    by (auto simp: exact_pipeline_def demo_pipeline_def)
qed

end
