(* ===== verification/GoEncoding.thy ===== *)
theory GoEncoding
  imports GoNumbers
begin

text \<open>
  Encodings of the Go standard library that the source relies on: the extension of a slash path
  (\<open>path.Ext\<close>), percent decoding (\<open>url.PathUnescape\<close>), lower-case hex (\<open>encoding/hex\<close>, \<open>%x\<close>) and
  unpadded URL-safe base64 (\<open>base64.RawURLEncoding\<close>), with the facts that make them invertible.
\<close>

section \<open>Path extensions\<close>

text \<open>Scanning from the end, the text from the last dot unless a slash comes first.\<close>

definition path_ext :: "string \<Rightarrow> string" where
  "path_ext p =
     (let tail = takeWhile (\<lambda>c. c \<noteq> CHR ''/'' \<and> c \<noteq> CHR ''.'') (rev p);
          rest = drop (length tail) (rev p)
      in if rest \<noteq> [] \<and> hd rest = CHR ''.'' then CHR ''.'' # rev tail else [])"

lemma path_ext_split:
  assumes "CHR ''.'' \<notin> set e" and "CHR ''/'' \<notin> set e"
  shows "path_ext (s @ CHR ''.'' # e) = CHR ''.'' # e"
proof -
  have "takeWhile (\<lambda>c. c \<noteq> CHR ''/'' \<and> c \<noteq> CHR ''.'') (rev e @ CHR ''.'' # rev s) = rev e"
    using assms by (subst takeWhile_append2) auto
  then show ?thesis by (simp add: path_ext_def)
qed

lemma path_ext_shape:
  assumes "path_ext p \<noteq> []"
  obtains s e where "p = s @ CHR ''.'' # e" "path_ext p = CHR ''.'' # e"
    "CHR ''.'' \<notin> set e" "CHR ''/'' \<notin> set e"
proof -
  define t where "t = takeWhile (\<lambda>c. c \<noteq> CHR ''/'' \<and> c \<noteq> CHR ''.'') (rev p)"
  define r where "r = drop (length t) (rev p)"
  have pe: "path_ext p = (if r \<noteq> [] \<and> hd r = CHR ''.'' then CHR ''.'' # rev t else [])"
    by (simp only: path_ext_def Let_def t_def r_def)
  with assms obtain u where u: "r = CHR ''.'' # u" by (cases r) (auto split: if_splits)
  have "rev p = t @ r"
    by (simp add: r_def t_def flip: dropWhile_eq_drop)
  with u have "p = rev u @ CHR ''.'' # rev t" by (simp add: rev_swap)
  moreover have "CHR ''.'' \<notin> set (rev t)" "CHR ''/'' \<notin> set (rev t)"
    by (auto simp: t_def dest: set_takeWhileD)
  ultimately show thesis using that pe u by simp
qed

text \<open>The suffix that \<open>strings.TrimSuffix (raw, path.Ext (raw))\<close> removes is exactly the extension.\<close>

lemma trim_path_ext: "trim_suffix p (path_ext p) @ path_ext p = p"
proof (cases "path_ext p = []")
  case True
  then show ?thesis by (simp add: trim_suffix_def has_suffix_def)
next
  case False
  then obtain s e where "p = s @ CHR ''.'' # e" "path_ext p = CHR ''.'' # e"
    by (rule path_ext_shape)
  then show ?thesis by simp
qed

section \<open>Joining file paths\<close>

text \<open>
  \<open>filepath.Clean\<close>: empty and \<open>.\<close> elements go, \<open>..\<close> removes the element before it, and stays only at the
  front of a path that is not rooted. The stack is the reversed list of kept elements.
\<close>

fun clean_parts :: "bool \<Rightarrow> string list \<Rightarrow> string list \<Rightarrow> string list" where
  "clean_parts rooted st [] = rev st"
| "clean_parts rooted st (p # ps) =
     (if p = [] \<or> p = ''.'' then clean_parts rooted st ps
      else if p = ''..'' then
        (case st of
           [] \<Rightarrow> clean_parts rooted (if rooted then [] else [p]) ps
         | q # qs \<Rightarrow> clean_parts rooted (if q = ''..'' then p # st else qs) ps)
      else clean_parts rooted (p # st) ps)"

definition path_clean :: "string \<Rightarrow> string" where
  "path_clean p =
     (let rooted = has_prefix p ''/'';
          body = join_with ''/'' (clean_parts rooted [] (split_on (CHR ''/'') p))
      in if rooted then CHR ''/'' # body else if body = [] then ''.'' else body)"

text \<open>\<open>filepath.Join\<close>: leading empty elements are skipped, no element at all is the empty path.\<close>

definition path_join :: "string list \<Rightarrow> string" where
  "path_join parts =
     (let ps = dropWhile (\<lambda>p. p = []) parts in if ps = [] then [] else path_clean (join_with ''/'' ps))"

section \<open>Hexadecimal\<close>

definition hex_val :: "char \<Rightarrow> nat option" where
  "hex_val c =
     (let n = (of_char c :: nat) in
        if 48 \<le> n \<and> n \<le> 57 then Some (n - 48)
        else if 97 \<le> n \<and> n \<le> 102 then Some (n - 87)
        else if 65 \<le> n \<and> n \<le> 70 then Some (n - 55)
        else None)"

definition hex_char :: "nat \<Rightarrow> char" where
  "hex_char n = (if n < 10 then char_of (48 + n) else char_of (87 + n))"

lemma hex_val_char [simp]: "n < 16 \<Longrightarrow> hex_val (hex_char n) = Some n"
  by (auto simp: hex_val_def hex_char_def Let_def)

lemma hex_val_bound: "hex_val c = Some n \<Longrightarrow> n < 16"
  by (auto simp: hex_val_def Let_def split: if_splits)

fun hex_encode :: "string \<Rightarrow> string" where
  "hex_encode [] = []"
| "hex_encode (c # cs) =
     hex_char (of_char c div 16) # hex_char (of_char c mod 16) # hex_encode cs"

fun hex_decode :: "string \<Rightarrow> string option" where
  "hex_decode [] = Some []"
| "hex_decode [c] = None"
| "hex_decode (a # b # cs) =
     (case hex_val a of None \<Rightarrow> None | Some x \<Rightarrow>
      (case hex_val b of None \<Rightarrow> None | Some y \<Rightarrow>
        (case hex_decode cs of None \<Rightarrow> None
         | Some bs \<Rightarrow> Some (char_of (16 * x + y) # bs))))"

lemma of_char_less_256 [simp]: "(of_char c :: nat) < 256"
  using nat_of_char_less_256 by simp

lemma hex_decode_encode [roundtrip_simps]: "hex_decode (hex_encode s) = Some s"
proof (induction s)
  case (Cons c cs)
  have "of_char c div 16 < (16::nat)"
    using of_char_less_256 [of c] by (simp add: less_mult_imp_div_less)
  with Cons show ?case by simp
qed simp

lemma length_hex_encode [simp]: "length (hex_encode s) = 2 * length s"
  by (induction s) simp_all

lemma hex_decode_length: "hex_decode s = Some b \<Longrightarrow> length s = 2 * length b"
  by (induction s arbitrary: b rule: hex_decode.induct) (auto split: option.splits)

section \<open>url.PathUnescape\<close>

fun path_unescape :: "string \<Rightarrow> string option" where
  "path_unescape [] = Some []"
| "path_unescape (c # cs) =
     (if c = CHR ''%'' then
        (case cs of
           a # b # rest \<Rightarrow>
             (case hex_val a of None \<Rightarrow> None | Some x \<Rightarrow>
              (case hex_val b of None \<Rightarrow> None | Some y \<Rightarrow>
                map_option ((#) (char_of (16 * x + y))) (path_unescape rest)))
         | _ \<Rightarrow> None)
      else map_option ((#) c) (path_unescape cs))"

lemma path_unescape_plain: "CHR ''%'' \<notin> set s \<Longrightarrow> path_unescape s = Some s"
  by (induction s) auto

section \<open>Unpadded URL-safe base64\<close>

definition b64_char :: "nat \<Rightarrow> char" where
  "b64_char n =
     (if n < 26 then char_of (65 + n)
      else if n < 52 then char_of (71 + n)
      else if n < 62 then char_of (n - 4)
      else if n = 62 then CHR ''-'' else CHR ''_'')"

definition b64_val :: "char \<Rightarrow> nat option" where
  "b64_val c =
     (let n = (of_char c :: nat) in
        if 65 \<le> n \<and> n \<le> 90 then Some (n - 65)
        else if 97 \<le> n \<and> n \<le> 122 then Some (n - 71)
        else if 48 \<le> n \<and> n \<le> 57 then Some (n + 4)
        else if n = 45 then Some 62
        else if n = 95 then Some 63
        else None)"

lemma b64_val_char [simp]: "n < 64 \<Longrightarrow> b64_val (b64_char n) = Some n"
  by (auto simp: b64_val_def b64_char_def Let_def)

lemma b64_char_not_newline [simp]:
  "n < 64 \<Longrightarrow> b64_char n \<noteq> CHR 0x0A" "n < 64 \<Longrightarrow> b64_char n \<noteq> CHR 0x0D"
proof -
  have "b64_val (CHR 0x0A) = None" "b64_val (CHR 0x0D) = None" by (simp_all add: b64_val_def)
  then show "n < 64 \<Longrightarrow> b64_char n \<noteq> CHR 0x0A" "n < 64 \<Longrightarrow> b64_char n \<noteq> CHR 0x0D"
    using b64_val_char [of n] by force+
qed

fun b64_encode :: "string \<Rightarrow> string" where
  "b64_encode [] = []"
| "b64_encode [a] =
     [b64_char (of_char a div 4), b64_char ((of_char a mod 4) * 16)]"
| "b64_encode [a, b] =
     [b64_char (of_char a div 4), b64_char ((of_char a mod 4) * 16 + of_char b div 16),
      b64_char ((of_char b mod 16) * 4)]"
| "b64_encode (a # b # c # cs) =
     b64_char (of_char a div 4) # b64_char ((of_char a mod 4) * 16 + of_char b div 16) #
     b64_char ((of_char b mod 16) * 4 + of_char c div 64) # b64_char (of_char c mod 64) #
     b64_encode cs"

text \<open>The 6-bit groups after the decoder has dropped CR and LF; spare low bits are ignored.\<close>

fun b64_groups :: "nat list \<Rightarrow> string option" where
  "b64_groups [] = Some []"
| "b64_groups [v] = None"
| "b64_groups [v, w] = Some [char_of (v * 4 + w div 16)]"
| "b64_groups [v, w, x] =
     Some [char_of (v * 4 + w div 16), char_of ((w mod 16) * 16 + x div 4)]"
| "b64_groups (v # w # x # y # vs) =
     map_option (\<lambda>bs. char_of (v * 4 + w div 16) # char_of ((w mod 16) * 16 + x div 4) #
       char_of ((x mod 4) * 64 + y) # bs) (b64_groups vs)"

definition b64_decode :: "string \<Rightarrow> string option" where
  "b64_decode s =
     (let vs = map b64_val (filter (\<lambda>c. c \<noteq> CHR 0x0A \<and> c \<noteq> CHR 0x0D) s)
      in if None \<in> set vs then None else b64_groups (map the vs))"

definition b64_encoded_len :: "nat \<Rightarrow> nat" where
  "b64_encoded_len n = n div 3 * 4 + (n mod 3 * 8 + 5) div 6"

lemma glue_bits:
  "x < 16 \<Longrightarrow> (m * 16 + x) div 16 = m" "x < 16 \<Longrightarrow> (m * 16 + x) mod 16 = x"
  "x < 4 \<Longrightarrow> (m * 4 + x) div 4 = m" "x < 4 \<Longrightarrow> (m * 4 + x) mod 4 = x"
  for x m :: nat
  by simp_all

lemma byte_parts [simp]:
  "of_char c div 16 < (16::nat)" "of_char c div 64 < (4::nat)" "of_char c div 4 < (64::nat)"
  using of_char_less_256 [of c] by (simp_all add: less_mult_imp_div_less)

lemma six_bits [simp]:
  "x < 16 \<Longrightarrow> (m mod 4) * 16 + x < 64" "x < 4 \<Longrightarrow> (m mod 16) * 4 + x < 64"
  "(m mod 4) * 16 < 64" "(m mod 16) * 4 < 64"
  for x m :: nat
  using mod_less_divisor [of 4 m] mod_less_divisor [of 16 m] by linarith+

lemma glue_bits0: "m * 16 div 16 = m" "m * 4 div 4 = m" for m :: nat
  by simp_all

lemma char_of_split [simp]:
  "char_of (of_char c div 4 * 4 + of_char c mod 4 :: nat) = c"
  "char_of (of_char c div 16 * 16 + of_char c mod 16 :: nat) = c"
  "char_of (of_char c div 64 * 64 + of_char c mod 64 :: nat) = c"
  "char_of (of_char c mod 16 + of_char c div 16 * 16 :: nat) = c"
  by simp_all

lemma b64_encode_chars:
  "c \<in> set (b64_encode s) \<Longrightarrow> \<exists>n < 64. c = b64_char n"
proof -
  have "set (b64_encode s) \<subseteq> b64_char ` {..<64}"
    by (induction s rule: b64_encode.induct) (auto intro!: imageI)
  then show "c \<in> set (b64_encode s) \<Longrightarrow> \<exists>n < 64. c = b64_char n" by auto
qed

lemma b64_filter_encode:
  "filter (\<lambda>c. c \<noteq> CHR 0x0A \<and> c \<noteq> CHR 0x0D) (b64_encode s) = b64_encode s"
proof (rule filter_True, rule ballI)
  fix c assume "c \<in> set (b64_encode s)"
  then obtain n where "n < 64" "c = b64_char n" using b64_encode_chars by blast
  then show "c \<noteq> CHR 0x0A \<and> c \<noteq> CHR 0x0D" using b64_char_not_newline [of n] by simp
qed

lemma b64_vals_encode: "None \<notin> set (map b64_val (b64_encode s))"
  by (auto dest!: b64_encode_chars)

lemma b64_groups_encode: "b64_groups (map (the \<circ> b64_val) (b64_encode s)) = Some s"
  by (induction s rule: b64_encode.induct) (simp_all add: glue_bits glue_bits0)

lemma b64_decode_encode [roundtrip_simps]: "b64_decode (b64_encode s) = Some s"
  using b64_vals_encode [of s] b64_groups_encode [of s]
  by (simp add: b64_decode_def Let_def b64_filter_encode)

lemma length_b64_encode: "length (b64_encode s) = b64_encoded_len (length s)"
  by (induction s rule: b64_encode.induct) (simp_all add: b64_encoded_len_def)

lemma b64_encoded_len_ceil: "b64_encoded_len n = (8 * n + 5) div 6"
proof -
  have "8 * n + 5 = 6 * (n div 3 * 4) + (n mod 3 * 8 + 5)"
    using div_mult_mod_eq [of n 3] by linarith
  then have "(8 * n + 5) div 6 = (6 * (n div 3 * 4) + (n mod 3 * 8 + 5)) div 6" by (rule arg_cong)
  also have "\<dots> = n div 3 * 4 + (n mod 3 * 8 + 5) div 6" by (rule div_mult_self4) simp
  finally show ?thesis by (simp add: b64_encoded_len_def)
qed

lemma b64_encoded_len_mono: "m \<le> n \<Longrightarrow> b64_encoded_len m \<le> b64_encoded_len n"
  by (simp add: b64_encoded_len_ceil div_le_mono)

end
