(* ===== verification/AudioProbe.thy ===== *)
theory AudioProbe
  imports GoEncoding
begin

text \<open>
  Probing of audio sources, \<open>internal/audio/probe.go\<close>. The output of ffprobe, once its JSON is
  decoded, is the record \<open>ffprobe_output\<close>; \<open>strconv.ParseFloat\<close> is a parameter.
\<close>

datatype source_format =
    FmtUnknown | FmtAAC | FmtAIFF | FmtALAC | FmtFLAC | FmtM4A | FmtMP3 | FmtOGG | FmtOpus | FmtWAV

definition supported :: "source_format \<Rightarrow> bool" where
  "supported f = (f \<in> {FmtAAC, FmtAIFF, FmtALAC, FmtFLAC, FmtM4A, FmtMP3, FmtOGG, FmtOpus, FmtWAV})"

record audio_stream =
  st_index :: int
  st_codec :: string
  st_sample_rate :: int
  st_channels :: int
  st_layout :: string
  st_bitrate :: int
  st_bits :: int
  st_tags :: "(string \<times> string) list"

record probe_result =
  pr_format :: source_format
  pr_container :: string
  pr_duration :: rat
  pr_bitrate :: int
  pr_streams :: "audio_stream list"
  pr_tags :: "(string \<times> string) list"

record ffprobe_stream =
  ff_index :: int
  ff_codec_name :: string
  ff_codec_type :: string
  ff_sample_rate :: string
  ff_channels :: int
  ff_layout :: string
  ff_bit_rate :: string
  ff_bits :: int
  ff_tags :: "(string \<times> string) list"

record ffprobe_output =
  fo_streams :: "ffprobe_stream list"
  fo_format_name :: string
  fo_duration :: string
  fo_bit_rate :: string
  fo_tags :: "(string \<times> string) list"

definition detect_source_format :: "string \<Rightarrow> source_format" where
  "detect_source_format path =
     (let ext = to_lower (trim_prefix (path_ext path) ''.'') in
      if ext = ''aac'' then FmtAAC
      else if ext = ''aif'' \<or> ext = ''aiff'' then FmtAIFF
      else if ext = ''alac'' then FmtALAC
      else if ext = ''flac'' then FmtFLAC
      else if ext = ''m4a'' then FmtM4A
      else if ext = ''mp3'' then FmtMP3
      else if ext = ''ogg'' then FmtOGG
      else if ext = ''opus'' then FmtOpus
      else if ext = ''wav'' \<or> ext = ''wave'' then FmtWAV
      else FmtUnknown)"

fun codec_format :: "audio_stream list \<Rightarrow> source_format option" where
  "codec_format [] = None"
| "codec_format (s # ss) =
     (let c = to_lower (trim_space (st_codec s)) in
      if c = ''opus'' then Some FmtOpus
      else if c = ''alac'' then Some FmtALAC
      else if c = ''aac'' then Some FmtAAC
      else codec_format ss)"

definition infer_probe_format :: "string \<Rightarrow> audio_stream list \<Rightarrow> source_format" where
  "infer_probe_format container0 streams =
     (let container = to_lower (trim_space container0) in
      if contains_str container ''flac'' then FmtFLAC
      else if contains_str container ''wav'' then FmtWAV
      else if contains_str container ''aiff'' then FmtAIFF
      else if contains_str container ''mp3'' then FmtMP3
      else if contains_str container ''ogg'' then FmtOGG
      else case codec_format streams of
        Some f \<Rightarrow> f
      | None \<Rightarrow>
          if contains_str container ''mov'' \<or> contains_str container ''mp4'' then FmtM4A else FmtUnknown)"

definition parse_int :: "string \<Rightarrow> int" where
  "parse_int raw = (case atoi (trim_space raw) of Some n \<Rightarrow> n | None \<Rightarrow> 0)"

definition parse_float :: "(string \<Rightarrow> rat option) \<Rightarrow> string \<Rightarrow> rat" where
  "parse_float pf raw = (case pf (trim_space raw) of Some q \<Rightarrow> q | None \<Rightarrow> 0)"

definition audio_stream_of :: "ffprobe_stream \<Rightarrow> audio_stream" where
  "audio_stream_of s =
     \<lparr>st_index = ff_index s, st_codec = ff_codec_name s, st_sample_rate = parse_int (ff_sample_rate s),
      st_channels = ff_channels s, st_layout = ff_layout s, st_bitrate = parse_int (ff_bit_rate s),
      st_bits = ff_bits s, st_tags = ff_tags s\<rparr>"

datatype probe_error = ProbeRun string | ProbeParse string | NoAudioStream

text \<open>\<open>Probe\<close>, from what running ffprobe and decoding its output gave.\<close>

definition audio_probe ::
    "(string \<Rightarrow> rat option) \<Rightarrow> string \<Rightarrow> (probe_error, ffprobe_output) result \<Rightarrow> (probe_error, probe_result) result" where
  "audio_probe pf input out =
     bind_result out (\<lambda>parsed.
       let streams = map audio_stream_of (filter (\<lambda>s. ff_codec_type s = ''audio'') (fo_streams parsed));
           detected = detect_source_format input
       in if streams = [] then Inl NoAudioStream
          else Inr
            \<lparr>pr_format = (if detected = FmtUnknown then infer_probe_format (fo_format_name parsed) streams else detected),
             pr_container = fo_format_name parsed, pr_duration = parse_float pf (fo_duration parsed),
             pr_bitrate = parse_int (fo_bit_rate parsed), pr_streams = streams, pr_tags = fo_tags parsed\<rparr>)"

lemma supported_iff: "supported f \<longleftrightarrow> f \<noteq> FmtUnknown"
  by (cases f) (simp_all add: supported_def)

lemma parse_int_range: "int64_range (parse_int s)"
  by (auto simp: parse_int_def int64_range_def min_int64_def max_int64_def dest!: atoi_range split: option.splits)

text \<open>
  The worker probes a temporary file without extension, so the format comes from the container and
  the codecs alone.
\<close>

lemma detect_no_ext: "path_ext p = [] \<Longrightarrow> detect_source_format p = FmtUnknown"
  by (simp add: detect_source_format_def to_lower_def trim_prefix_def has_prefix_def)

lemma audio_probe_ok:
  assumes "audio_probe pf input out = Inr r"
  obtains parsed where "out = Inr parsed" "pr_streams r \<noteq> []"
    "length (pr_streams r) = length (filter (\<lambda>s. ff_codec_type s = ''audio'') (fo_streams parsed))"
    "pr_format r = (if detect_source_format input = FmtUnknown
       then infer_probe_format (fo_format_name parsed) (pr_streams r) else detect_source_format input)"
  using assms by (cases out) (auto simp: audio_probe_def Let_def split: if_splits)

end
