(* ===== verification/ImageOptions.thy ===== *)
theory ImageOptions
  imports GoEncoding
begin

text \<open>
  Image formats and processing options, \<open>internal/image/options.go\<close>, and the canonical form of the
  options segment that URL signatures cover, \<open>CanonicalizeImageOptions\<close> of
  \<open>internal/signature/hmac.go\<close>. The two parse the same segment independently; the lemmas here say
  that they agree, which is what makes a signature over the canonical form authorise one
  transformation only.
\<close>

datatype format =
  FormatOriginal | FormatWebP | FormatAVIF | FormatJPEG | FormatPNG | FormatGIF

definition format_mime :: "format \<Rightarrow> string" where
  "format_mime f =
     (case f of FormatWebP \<Rightarrow> ''image/webp'' | FormatAVIF \<Rightarrow> ''image/avif''
      | FormatJPEG \<Rightarrow> ''image/jpeg'' | FormatPNG \<Rightarrow> ''image/png'' | FormatGIF \<Rightarrow> ''image/gif''
      | FormatOriginal \<Rightarrow> ''application/octet-stream'')"

definition format_ext :: "format \<Rightarrow> string" where
  "format_ext f =
     (case f of FormatWebP \<Rightarrow> ''webp'' | FormatAVIF \<Rightarrow> ''avif'' | FormatJPEG \<Rightarrow> ''jpg''
      | FormatPNG \<Rightarrow> ''png'' | FormatGIF \<Rightarrow> ''gif'' | FormatOriginal \<Rightarrow> '''')"

definition supports_animation :: "format \<Rightarrow> bool" where
  "supports_animation f = (f = FormatWebP \<or> f = FormatGIF)"

definition parse_format :: "string \<Rightarrow> format" where
  "parse_format ext =
     (let e = to_lower (trim_prefix ext ''.'') in
      if e = ''webp'' then FormatWebP
      else if e = ''avif'' then FormatAVIF
      else if e = ''jpg'' \<or> e = ''jpeg'' then FormatJPEG
      else if e = ''png'' then FormatPNG
      else if e = ''gif'' then FormatGIF
      else FormatOriginal)"

record options =
  opt_width :: int
  opt_height :: int
  opt_quality :: int
  opt_format :: format

definition zero_options :: options where
  "zero_options = \<lparr>opt_width = 0, opt_height = 0, opt_quality = 0, opt_format = FormatOriginal\<rparr>"

definition default_quality :: "format \<Rightarrow> int" where
  "default_quality f =
     (case f of FormatWebP \<Rightarrow> 80 | FormatAVIF \<Rightarrow> 50 | FormatJPEG \<Rightarrow> 80 | FormatPNG \<Rightarrow> 0
      | FormatGIF \<Rightarrow> 0 | FormatOriginal \<Rightarrow> 80)"

definition effective_quality :: "options \<Rightarrow> int" where
  "effective_quality opts =
     (if opt_quality opts > 0 then opt_quality opts else default_quality (opt_format opts))"

datatype option_error =
    InvalidToken string
  | InvalidWidth string
  | InvalidHeight string
  | InvalidQuality string
  | InvalidValue char string
  | UnknownPrefix char

section \<open>ParseOptions\<close>

definition parse_part :: "string \<Rightarrow> options \<Rightarrow> (option_error, options) result" where
  "parse_part part opts =
     (if length part < 2 then Inl (InvalidToken part)
      else let pre = hd part; value = tl part in
        if pre = CHR ''w'' then
          (case atoi value of
             None \<Rightarrow> Inl (InvalidWidth value)
           | Some n \<Rightarrow> if n < 0 then Inl (InvalidWidth value) else Inr (opts\<lparr>opt_width := n\<rparr>))
        else if pre = CHR ''h'' then
          (case atoi value of
             None \<Rightarrow> Inl (InvalidHeight value)
           | Some n \<Rightarrow> if n < 0 then Inl (InvalidHeight value) else Inr (opts\<lparr>opt_height := n\<rparr>))
        else if pre = CHR ''q'' then
          (case atoi value of
             None \<Rightarrow> Inl (InvalidQuality value)
           | Some n \<Rightarrow> if n < 1 \<or> n > 100 then Inl (InvalidQuality value)
                       else Inr (opts\<lparr>opt_quality := n\<rparr>))
        else Inl (UnknownPrefix pre))"

fun parse_parts :: "string list \<Rightarrow> options \<Rightarrow> (option_error, options) result" where
  "parse_parts [] opts = Inr opts"
| "parse_parts (p # ps) opts =
     (case parse_part p opts of Inl e \<Rightarrow> Inl e | Inr opts' \<Rightarrow> parse_parts ps opts')"

definition parse_options :: "string \<Rightarrow> (option_error, options) result" where
  "parse_options raw =
     (if raw = [] then Inr zero_options else parse_parts (split_on (CHR ''_'') raw) zero_options)"

section \<open>CanonicalizeImageOptions\<close>

text \<open>The three \<open>optionValue\<close>s of the source, each absent or a number.\<close>

record canon_values =
  cv_width :: "int option"
  cv_height :: "int option"
  cv_quality :: "int option"

definition canon_part :: "string \<Rightarrow> canon_values \<Rightarrow> (option_error, canon_values) result" where
  "canon_part part vs =
     (if length part < 2 then Inl (InvalidToken part)
      else let pre = hd part; value = tl part in
        case atoi value of
          None \<Rightarrow> Inl (InvalidValue pre value)
        | Some n \<Rightarrow>
            if pre = CHR ''w'' then
              (if n < 0 then Inl (InvalidWidth value) else Inr (vs\<lparr>cv_width := Some n\<rparr>))
            else if pre = CHR ''h'' then
              (if n < 0 then Inl (InvalidHeight value) else Inr (vs\<lparr>cv_height := Some n\<rparr>))
            else if pre = CHR ''q'' then
              (if n < 1 \<or> n > 100 then Inl (InvalidQuality value)
               else Inr (vs\<lparr>cv_quality := Some n\<rparr>))
            else Inl (UnknownPrefix pre))"

fun canon_parts :: "string list \<Rightarrow> canon_values \<Rightarrow> (option_error, canon_values) result" where
  "canon_parts [] vs = Inr vs"
| "canon_parts (p # ps) vs =
     (case canon_part p vs of Inl e \<Rightarrow> Inl e | Inr vs' \<Rightarrow> canon_parts ps vs')"

definition opt_token :: "char \<Rightarrow> int option \<Rightarrow> string list" where
  "opt_token c v = (case v of None \<Rightarrow> [] | Some n \<Rightarrow> [c # show_int n])"

definition canon_tokens :: "canon_values \<Rightarrow> string list" where
  "canon_tokens vs =
     opt_token (CHR ''w'') (cv_width vs) @ opt_token (CHR ''h'') (cv_height vs) @
     opt_token (CHR ''q'') (cv_quality vs)"

definition canonicalize_image_options :: "string \<Rightarrow> (option_error, string) result" where
  "canonicalize_image_options raw0 =
     (let raw = trim_space raw0 in
      if raw = [] then Inr []
      else case canon_parts (split_on (CHR ''_'') raw)
             \<lparr>cv_width = None, cv_height = None, cv_quality = None\<rparr> of
        Inl e \<Rightarrow> Inl e
      | Inr vs \<Rightarrow> Inr (join_with ''_'' (canon_tokens vs)))"

section \<open>The two parsers agree\<close>

abbreviation no_values :: canon_values where
  "no_values \<equiv> \<lparr>cv_width = None, cv_height = None, cv_quality = None\<rparr>"

definition value_or_zero :: "int option \<Rightarrow> int" where
  "value_or_zero v = (case v of None \<Rightarrow> 0 | Some n \<Rightarrow> n)"

text \<open>The options a set of canonical values stands for.\<close>

definition values_options :: "canon_values \<Rightarrow> options" where
  "values_options vs =
     \<lparr>opt_width = value_or_zero (cv_width vs), opt_height = value_or_zero (cv_height vs),
      opt_quality = value_or_zero (cv_quality vs), opt_format = FormatOriginal\<rparr>"

definition valid_values :: "canon_values \<Rightarrow> bool" where
  "valid_values vs \<longleftrightarrow>
     (case cv_width vs of None \<Rightarrow> True | Some n \<Rightarrow> 0 \<le> n \<and> int64_range n) \<and>
     (case cv_height vs of None \<Rightarrow> True | Some n \<Rightarrow> 0 \<le> n \<and> int64_range n) \<and>
     (case cv_quality vs of None \<Rightarrow> True | Some n \<Rightarrow> 1 \<le> n \<and> n \<le> 100)"

lemma part_agreement:
  "(case canon_part p vs of Inl e \<Rightarrow> \<not> is_ok (parse_part p (values_options vs))
    | Inr vs' \<Rightarrow> parse_part p (values_options vs) = Inr (values_options vs'))"
proof (cases "length p < 2")
  case False
  note [simp] = canon_part_def parse_part_def values_options_def value_or_zero_def False
  consider "hd p = CHR ''w''" | "hd p = CHR ''h''" | "hd p = CHR ''q''"
    | "hd p \<noteq> CHR ''w''" "hd p \<noteq> CHR ''h''" "hd p \<noteq> CHR ''q''" by blast
  then show ?thesis by cases (simp_all add: Let_def split: option.split)
qed (simp add: canon_part_def parse_part_def)

lemma canon_part_parse:
  "canon_part p vs = Inr vs' \<Longrightarrow> parse_part p (values_options vs) = Inr (values_options vs')"
  using part_agreement [of p vs] by simp

lemma parse_part_canon:
  "parse_part p (values_options vs) = Inr opts \<Longrightarrow>
   \<exists>vs'. canon_part p vs = Inr vs' \<and> opts = values_options vs'"
  using part_agreement [of p vs] by (cases "canon_part p vs") simp_all

lemma parse_parts_canon:
  "parse_parts ps (values_options vs) = Inr opts \<Longrightarrow>
   \<exists>vs'. canon_parts ps vs = Inr vs' \<and> opts = values_options vs'"
proof (induction ps arbitrary: vs)
  case (Cons p ps)
  then obtain o1 where "parse_part p (values_options vs) = Inr o1" "parse_parts ps o1 = Inr opts"
    by (auto split: sum.splits)
  with parse_part_canon Cons.IH show ?case by force
qed auto

lemma canon_parts_parse:
  "canon_parts ps vs = Inr vs' \<Longrightarrow> parse_parts ps (values_options vs) = Inr (values_options vs')"
  by (induction ps vs rule: canon_parts.induct) (auto split: sum.splits simp: canon_part_parse)

lemma canon_part_valid: "canon_part p vs = Inr vs' \<Longrightarrow> valid_values vs \<Longrightarrow> valid_values vs'"
  by (auto simp: canon_part_def Let_def valid_values_def dest: atoi_range
      split: if_splits option.splits)

lemma canon_parts_valid: "canon_parts ps vs = Inr vs' \<Longrightarrow> valid_values vs \<Longrightarrow> valid_values vs'"
  by (induction ps vs rule: canon_parts.induct) (auto split: sum.splits dest: canon_part_valid)

lemma valid_no_values [simp]: "valid_values no_values"
  by (simp add: valid_values_def)

lemma values_options_no_values [simp]: "values_options no_values = zero_options"
  by (simp add: values_options_def zero_options_def value_or_zero_def)

lemma canon_token [simp]:
  "int64_range n \<Longrightarrow> 0 \<le> n \<Longrightarrow> canon_part (CHR ''w'' # show_int n) vs = Inr (vs\<lparr>cv_width := Some n\<rparr>)"
  "int64_range n \<Longrightarrow> 0 \<le> n \<Longrightarrow> canon_part (CHR ''h'' # show_int n) vs = Inr (vs\<lparr>cv_height := Some n\<rparr>)"
  "1 \<le> n \<Longrightarrow> n \<le> 100 \<Longrightarrow> canon_part (CHR ''q'' # show_int n) vs = Inr (vs\<lparr>cv_quality := Some n\<rparr>)"
proof -
  have "\<not> Suc (length (show_int n)) < 2"
    using show_int_not_Nil [of n] by (cases "show_int n") auto
  moreover have "1 \<le> n \<Longrightarrow> n \<le> 100 \<Longrightarrow> int64_range n"
    by (simp add: int64_range_def min_int64_def max_int64_def)
  ultimately show
    "int64_range n \<Longrightarrow> 0 \<le> n \<Longrightarrow> canon_part (CHR ''w'' # show_int n) vs = Inr (vs\<lparr>cv_width := Some n\<rparr>)"
    "int64_range n \<Longrightarrow> 0 \<le> n \<Longrightarrow> canon_part (CHR ''h'' # show_int n) vs = Inr (vs\<lparr>cv_height := Some n\<rparr>)"
    "1 \<le> n \<Longrightarrow> n \<le> 100 \<Longrightarrow> canon_part (CHR ''q'' # show_int n) vs = Inr (vs\<lparr>cv_quality := Some n\<rparr>)"
    by (simp_all add: canon_part_def Let_def atoi_show_int)
qed

lemma canon_parts_tokens:
  "valid_values vs \<Longrightarrow> canon_parts (canon_tokens vs) no_values = Inr vs"
  by (auto simp: canon_tokens_def opt_token_def valid_values_def split: option.splits)

text \<open>The bytes of a canonical segment.\<close>

definition option_byte :: "char \<Rightarrow> bool" where
  "option_byte c = (is_digit c \<or> c \<in> {CHR ''-'', CHR ''_'', CHR ''w'', CHR ''h'', CHR ''q''})"

lemma canon_tokens_chars:
  assumes "p \<in> set (canon_tokens vs)"
  shows "CHR ''_'' \<notin> set p" "\<And>c. c \<in> set p \<Longrightarrow> option_byte c"
  using assms show_int_free [of "CHR ''_''"]
  by (auto simp: canon_tokens_def opt_token_def option_byte_def split: option.splits dest: show_int_chars)

lemma canonical_chars [chars_simps]:
  assumes "canonicalize_image_options raw = Inr c" and "x \<in> set c"
  shows "option_byte x"
proof -
  obtain vs where "c = join_with ''_'' (canon_tokens vs)"
    using assms(1,2)
    by (auto simp: canonicalize_image_options_def Let_def split: if_splits sum.splits)
  with assms(2) set_join_with [of "''_''" "canon_tokens vs"]
  have "x = CHR ''_'' \<or> (\<exists>p \<in> set (canon_tokens vs). x \<in> set p)" by auto
  then show ?thesis
    using canon_tokens_chars(2) by (auto simp: option_byte_def)
qed

lemma option_byte_not [simp]:
  "\<not> option_byte (CHR ''/'')" "\<not> option_byte (CHR ''.'')" "\<not> option_byte (CHR 0x00)"
  "\<not> option_byte (CHR ''t'')" "\<not> option_byte (CHR ''v'')"
  by (simp_all add: option_byte_def is_digit_def)

lemma canonical_free:
  "canonicalize_image_options raw = Inr c \<Longrightarrow> \<not> option_byte x \<Longrightarrow> x \<notin> set c"
  using canonical_chars by blast

lemma option_byte_not_space: "option_byte c \<Longrightarrow> \<not> is_space c"
  by (auto simp: option_byte_def is_space_def is_digit_def)

lemma canonical_values:
  assumes "canonicalize_image_options raw = Inr c"
  obtains vs where "valid_values vs" "c = join_with ''_'' (canon_tokens vs)"
    "trim_space raw = [] \<longrightarrow> vs = no_values"
    "trim_space raw \<noteq> [] \<longrightarrow> canon_parts (split_on (CHR ''_'') (trim_space raw)) no_values = Inr vs"
proof (cases "trim_space raw = []")
  case True
  with assms have "c = join_with ''_'' (canon_tokens no_values)"
    by (simp add: canonicalize_image_options_def canon_tokens_def opt_token_def)
  with True show thesis using that [of no_values] by simp
next
  case False
  with assms obtain vs where "canon_parts (split_on (CHR ''_'') (trim_space raw)) no_values = Inr vs"
    "c = join_with ''_'' (canon_tokens vs)"
    by (auto simp: canonicalize_image_options_def Let_def split: sum.splits)
  with False show thesis using that [of vs] canon_parts_valid by simp
qed

lemma join_with_Nil_iff: "[] \<notin> set ps \<Longrightarrow> join_with d ps = [] \<longleftrightarrow> ps = []"
  by (induction d ps rule: join_with.induct) auto

lemma canon_tokens_nonempty: "[] \<notin> set (canon_tokens vs)"
  by (auto simp: canon_tokens_def opt_token_def split: option.splits)

lemma split_canonical:
  "canon_tokens vs \<noteq> [] \<Longrightarrow>
   split_on (CHR ''_'') (join_with ''_'' (canon_tokens vs)) = canon_tokens vs"
  by (rule split_on_join) (auto dest: canon_tokens_chars)

text \<open>Parsing a canonical segment gives back the values it was printed from.\<close>

lemma parse_canonical:
  "valid_values vs \<Longrightarrow> parse_options (join_with ''_'' (canon_tokens vs)) = Inr (values_options vs)"
proof (cases "canon_tokens vs = []")
  case True
  then have "vs = no_values" by (cases vs) (auto simp: canon_tokens_def opt_token_def split: option.splits)
  then show ?thesis by (simp add: canon_tokens_def opt_token_def parse_options_def)
next
  case False
  assume v: "valid_values vs"
  have "join_with ''_'' (canon_tokens vs) \<noteq> []"
    using join_with_Nil_iff [OF canon_tokens_nonempty] False by simp
  then show ?thesis
    using canon_parts_parse [OF canon_parts_tokens [OF v]]
    by (simp add: parse_options_def split_canonical [OF False])
qed

lemma parse_part_no_space:
  assumes "parse_part p opts = Inr opts'"
  shows "\<not> is_space (hd p)" "\<not> is_space (last p)" "p \<noteq> []"
proof -
  have *: "p \<noteq> []" "hd p \<in> {CHR ''w'', CHR ''h'', CHR ''q''}" "\<exists>n. atoi (tl p) = Some n" "tl p \<noteq> []"
    using assms by (cases p; auto simp: parse_part_def Let_def split: if_splits option.splits)+
  then show "p \<noteq> []" "\<not> is_space (hd p)" by (auto simp: is_space_def)
  have digits: "scan_uint acc ds = Some (Some n) \<Longrightarrow> ds \<noteq> [] \<Longrightarrow> is_digit (last ds)" for acc ds n
    by (induction acc ds rule: scan_uint.induct) (auto split: if_splits)
  obtain n where n: "atoi (tl p) = Some n" using * by blast
  define ds where "ds = (if hd (tl p) = CHR ''-'' \<or> hd (tl p) = CHR ''+'' then tl (tl p) else tl p)"
  have "ds \<noteq> [] \<and> (\<exists>m. scan_uint 0 ds = Some (Some m))"
    using n *(4) by (auto simp: atoi_def atoi_full_def Let_def ds_def
        split: atoi_result.splits if_splits option.splits)
  with digits have "is_digit (last ds)" by blast
  moreover have "last ds = last p"
    using \<open>ds \<noteq> [] \<and> _\<close> *(1,4) by (auto simp: ds_def last_tl split: if_splits)
  ultimately show "\<not> is_space (last p)" by (auto simp: is_digit_def is_space_def)
qed

lemma parse_parts_each:
  "parse_parts ps opts = Inr opts' \<Longrightarrow> p \<in> set ps \<Longrightarrow> \<exists>a b. parse_part p a = Inr b"
  by (induction ps opts rule: parse_parts.induct) (auto split: sum.splits)

lemma parse_options_trimmed: "parse_options raw = Inr opts \<Longrightarrow> trim_space raw = raw"
proof (cases "raw = []")
  case False
  assume "parse_options raw = Inr opts"
  with False have *: "parse_parts (split_on (CHR ''_'') raw) zero_options = Inr opts"
    by (simp add: parse_options_def)
  let ?ps = "split_on (CHR ''_'') raw"
  have "\<exists>a b. parse_part (hd ?ps) a = Inr b" "\<exists>a b. parse_part (last ?ps) a = Inr b"
    using parse_parts_each [OF *] by simp_all
  then have "\<not> is_space (hd (hd ?ps))" "hd ?ps \<noteq> []" "\<not> is_space (last (last ?ps))" "last ?ps \<noteq> []"
    using parse_part_no_space by blast+
  then show ?thesis using split_on_hd split_on_last trim_space_ends by metis
qed simp

lemma canonical_faithful:
  "(case parse_options raw of
      Inl e \<Rightarrow> True
    | Inr opts \<Rightarrow>
        \<exists>c. canonicalize_image_options raw = Inr c \<and> parse_options c = Inr opts \<and>
          canonicalize_image_options c = Inr c)"
proof (cases "parse_options raw")
  case (Inr opts)
  note t = parse_options_trimmed [OF Inr]
  obtain c where c: "canonicalize_image_options raw = Inr c"
  proof (cases "raw = []")
    case False
    with Inr t have "parse_parts (split_on (CHR ''_'') raw) (values_options no_values) = Inr opts"
      by (simp add: parse_options_def)
    then obtain vs where "canon_parts (split_on (CHR ''_'') raw) no_values = Inr vs"
      using parse_parts_canon by blast
    with False t that show thesis by (simp add: canonicalize_image_options_def)
  qed (use that in \<open>simp add: canonicalize_image_options_def\<close>)
  then obtain vs where vs: "valid_values vs" "c = join_with ''_'' (canon_tokens vs)"
    and e: "raw = [] \<longrightarrow> vs = no_values"
    and ne: "raw \<noteq> [] \<longrightarrow> canon_parts (split_on (CHR ''_'') raw) no_values = Inr vs"
    using canonical_values [OF c] t by metis
  have o: "opts = values_options vs"
    using Inr e ne canon_parts_parse [of "split_on (CHR ''_'') raw" no_values vs]
    by (cases "raw = []") (simp_all add: parse_options_def)
  have p: "parse_options c = Inr opts" using parse_canonical vs o by simp
  have "canonicalize_image_options c = Inr c"
  proof (cases "canon_tokens vs = []")
    case True
    with vs show ?thesis by (simp add: canonicalize_image_options_def)
  next
    case False
    then have "c \<noteq> []" using vs(2) join_with_Nil_iff [OF canon_tokens_nonempty] by simp
    then show ?thesis
      using parse_options_trimmed [OF p] canon_parts_tokens [OF vs(1)] False
      by (simp add: canonicalize_image_options_def vs(2) split_canonical)
  qed
  with c p Inr show ?thesis by auto
qed simp

text \<open>
  C39. Whatever options segment the image endpoint accepts has a canonical form, the canonical form
  parses to the same width, height and quality, and it is its own canonical form.
\<close>

theorem canonical_options_faithful:
  "(case parse_options raw of
      Inl e \<Rightarrow> True
    | Inr opts \<Rightarrow>
        \<exists>c. canonicalize_image_options raw = Inr c \<and> parse_options c = Inr opts \<and>
          canonicalize_image_options c = Inr c)"
  by (rule canonical_faithful)

lemma canonical_options_parse:
  "parse_options raw = Inr opts \<Longrightarrow> canonicalize_image_options raw = Inr c \<Longrightarrow> parse_options c = Inr opts"
  using canonical_faithful [of raw] by simp

lemma canonical_parses:
  assumes "canonicalize_image_options raw = Inr c"
  shows "is_ok (parse_options (trim_space raw))" "parse_options (trim_space raw) = parse_options c"
proof -
  obtain vs where vs: "valid_values vs" "c = join_with ''_'' (canon_tokens vs)"
    "trim_space raw = [] \<longrightarrow> vs = no_values"
    "trim_space raw \<noteq> [] \<longrightarrow> canon_parts (split_on (CHR ''_'') (trim_space raw)) no_values = Inr vs"
    using canonical_values [OF assms] by metis
  then have "parse_options (trim_space raw) = Inr (values_options vs)"
    using canon_parts_parse [of "split_on (CHR ''_'') (trim_space raw)" no_values vs]
    by (cases "trim_space raw = []") (simp_all add: parse_options_def)
  then show "is_ok (parse_options (trim_space raw))" "parse_options (trim_space raw) = parse_options c"
    using parse_canonical vs by simp_all
qed

section \<open>Cache keys\<close>

text \<open>The text \<open>/w%d_h%d_q%d.%s\<close> that identifies a variant of a source.\<close>

definition variant_suffix :: "options \<Rightarrow> string" where
  "variant_suffix opts =
     ''/w'' @ show_int (opt_width opts) @ ''_h'' @ show_int (opt_height opts) @
     ''_q'' @ show_int (effective_quality opts) @ ''.'' @ format_ext (opt_format opts)"

definition cache_key :: "string \<Rightarrow> options \<Rightarrow> string" where
  "cache_key source opts = source @ variant_suffix opts"

lemma format_ext_inj [simp]: "format_ext f = format_ext g \<longleftrightarrow> f = g"
  by (cases f; cases g) (simp_all add: format_ext_def)

lemma format_ext_chars: "c \<in> set (format_ext f) \<Longrightarrow> c \<noteq> CHR ''/'' \<and> c \<noteq> CHR ''.'' \<and> c \<noteq> CHR 0x00"
  by (cases f) (auto simp: format_ext_def)

lemma show_int_sep [simp]:
  "CHR ''/'' \<notin> set (show_int i)" "CHR ''_'' \<notin> set (show_int i)" "CHR ''.'' \<notin> set (show_int i)"
  by (simp_all add: show_int_free)

lemma variant_suffix_inj:
  "variant_suffix a = variant_suffix b \<longleftrightarrow>
     opt_width a = opt_width b \<and> opt_height a = opt_height b \<and>
     effective_quality a = effective_quality b \<and> opt_format a = opt_format b"
  by (simp add: variant_suffix_def first_sep_inj show_int_inj)

lemma cache_key_iff:
  "cache_key s a = cache_key t b \<longleftrightarrow>
     s = t \<and> opt_width a = opt_width b \<and> opt_height a = opt_height b \<and>
     effective_quality a = effective_quality b \<and> opt_format a = opt_format b"
proof -
  have free: "CHR ''/'' \<notin> set (tl (variant_suffix x))" for x
    using format_ext_chars by (auto simp: variant_suffix_def)
  have shape: "variant_suffix x = CHR ''/'' # tl (variant_suffix x)" for x
    by (simp add: variant_suffix_def)
  have key: "cache_key u x = u @ CHR ''/'' # tl (variant_suffix x)" for u x
    using shape [of x] by (simp add: cache_key_def)
  have "cache_key s a = cache_key t b \<longleftrightarrow> s = t \<and> tl (variant_suffix a) = tl (variant_suffix b)"
    unfolding key by (rule last_sep_inj [OF free free])
  also have "\<dots> \<longleftrightarrow> s = t \<and> variant_suffix a = variant_suffix b"
    using shape [of a] shape [of b] by metis
  finally show ?thesis by (simp add: variant_suffix_inj)
qed

text \<open>
  Two requests share a cache key exactly when they name the same source, width, height,
  effective quality and output format: the textual key never confuses two variants, whatever bytes
  the source key contains.
\<close>

theorem cache_key_unique:
  "cache_key s a = cache_key t b \<longleftrightarrow>
     s = t \<and> opt_width a = opt_width b \<and> opt_height a = opt_height b \<and>
     effective_quality a = effective_quality b \<and> opt_format a = opt_format b"
  by (rule cache_key_iff)

text \<open>Equations that evaluate the two option parsers on a concrete segment.\<close>

lemmas options_eval =
  canonicalize_image_options_def canon_part_def canon_tokens_def opt_token_def parse_options_def
  parse_part_def zero_options_def trim_space_def is_space_def number_eval

end
