(* ===== verification/Signature.thy ===== *)
theory Signature
  imports ImageOptions
begin

text \<open>
  URL and webhook signatures, \<open>internal/signature/hmac.go\<close>. Every signature is the lower-case hex
  form of HMAC-SHA256 over a message built from the request. HMAC is standard library code that
  this development does not define: it is the parameter \<open>mac\<close> (secret, message, digest). What the
  source decides is the message, so each scheme is split as the code computes it: the canonical
  parts, the message written to the hash, the hex digest, and the comparison. The properties say
  what a message determines about the request that is authorised by it.
\<close>

type_synonym mac = "string \<Rightarrow> string \<Rightarrow> string"

datatype sig_error =
    BadOptions option_error
  | MissingObjectKey
  | InvalidObjectKeyEncoding
  | MissingSourcePath
  | MissingOutputFormat
  | InvalidSourceEncoding
  | MissingSourceKey
  | MissingSourceToken
  | InvalidSourceToken

section \<open>Canonical request parts\<close>

definition canonicalize_object_key :: "string \<Rightarrow> (sig_error, string) result" where
  "canonicalize_object_key raw0 =
     (let raw = trim_prefix raw0 ''/'' in
      if raw = [] then Inl MissingObjectKey
      else case path_unescape raw of
        None \<Rightarrow> Inl InvalidObjectKeyEncoding
      | Some key \<Rightarrow> if key = [] then Inl MissingObjectKey else Inr key)"

definition output_format :: "string \<Rightarrow> string" where
  "output_format ext =
     (let format = to_lower (trim_prefix ext ''.'') in if format = ''jpeg'' then ''jpg'' else format)"

definition canonicalize_image_source_path :: "string \<Rightarrow> (sig_error, string) result" where
  "canonicalize_image_source_path raw0 =
     (let raw = trim_prefix raw0 ''/'' in
      if raw = [] then Inl MissingSourcePath
      else let ext = path_ext raw in
        if ext = [] then Inl MissingOutputFormat
        else case path_unescape (trim_suffix raw ext) of
          None \<Rightarrow> Inl InvalidSourceEncoding
        | Some source_key \<Rightarrow>
            if source_key = [] then Inl MissingSourceKey
            else let format = output_format ext in
              if format = [] then Inl MissingOutputFormat
              else Inr (source_key @ ''.'' @ format))"

definition canonicalize_encrypted_image_source_path ::
    "string \<Rightarrow> (sig_error, string \<times> string) result" where
  "canonicalize_encrypted_image_source_path raw0 =
     (let raw = trim_prefix raw0 ''/'' in
      if raw = [] then Inl MissingSourceToken
      else let ext = path_ext raw in
        if ext = [] then Inl MissingOutputFormat
        else let token = trim_suffix raw ext in
          if token = [] then Inl MissingSourceToken
          else let format = output_format ext in
            if format = [] then Inl MissingOutputFormat else Inr (token, format))"

section \<open>Messages and signatures\<close>

text \<open>\<open>Sign\<close> writes options, a slash and the source to the hash.\<close>

definition sign_message :: "string \<Rightarrow> string \<Rightarrow> string" where
  "sign_message opts source = opts @ ''/'' @ source"

definition sign :: "mac \<Rightarrow> string \<Rightarrow> string \<Rightarrow> string \<Rightarrow> string" where
  "sign mac secret opts source = hex_encode (mac secret (sign_message opts source))"

definition verify :: "mac \<Rightarrow> string \<Rightarrow> string \<Rightarrow> string \<Rightarrow> string \<Rightarrow> bool" where
  "verify mac secret sg opts source = (sign mac secret opts source = sg)"

text \<open>\<open>signDomain\<close> writes the domain and then each part after a zero byte.\<close>

definition domain_message :: "string \<Rightarrow> string list \<Rightarrow> string" where
  "domain_message domain parts = domain @ concat (map (\<lambda>p. CHR 0x00 # p) parts)"

definition sign_domain :: "mac \<Rightarrow> string \<Rightarrow> string \<Rightarrow> string list \<Rightarrow> string" where
  "sign_domain mac secret domain parts = hex_encode (mac secret (domain_message domain parts))"

definition sign_image :: "mac \<Rightarrow> string \<Rightarrow> string \<Rightarrow> string \<Rightarrow> (sig_error, string) result" where
  "sign_image mac secret raw_options raw_source =
     (case canonicalize_image_options raw_options of
        Inl e \<Rightarrow> Inl (BadOptions e)
      | Inr opts \<Rightarrow>
          (case canonicalize_image_source_path raw_source of
             Inl e \<Rightarrow> Inl e
           | Inr source \<Rightarrow> Inr (sign mac secret opts source)))"

definition verify_image :: "mac \<Rightarrow> string \<Rightarrow> string \<Rightarrow> string \<Rightarrow> string \<Rightarrow> (sig_error, bool) result" where
  "verify_image mac secret sg raw_options raw_source =
     (case sign_image mac secret raw_options raw_source of
        Inl e \<Rightarrow> Inl e | Inr expected \<Rightarrow> Inr (expected = sg))"

definition sign_encrypted_image ::
    "mac \<Rightarrow> string \<Rightarrow> string \<Rightarrow> string \<Rightarrow> (sig_error, string) result" where
  "sign_encrypted_image mac secret raw_options raw_source =
     (case canonicalize_image_options raw_options of
        Inl e \<Rightarrow> Inl (BadOptions e)
      | Inr opts \<Rightarrow>
          (case canonicalize_encrypted_image_source_path raw_source of
             Inl e \<Rightarrow> Inl e
           | Inr (token, format) \<Rightarrow>
               Inr (sign_domain mac secret ''vylux/image-url/v1'' [opts, token, format])))"

definition verify_encrypted_image ::
    "mac \<Rightarrow> string \<Rightarrow> string \<Rightarrow> string \<Rightarrow> string \<Rightarrow> (sig_error, bool) result" where
  "verify_encrypted_image mac secret sg raw_options raw_source =
     (case sign_encrypted_image mac secret raw_options raw_source of
        Inl e \<Rightarrow> Inl e | Inr expected \<Rightarrow> Inr (expected = sg))"

definition sign_original :: "mac \<Rightarrow> string \<Rightarrow> string \<Rightarrow> (sig_error, string) result" where
  "sign_original mac secret raw_key =
     (case canonicalize_object_key raw_key of
        Inl e \<Rightarrow> Inl e | Inr key \<Rightarrow> Inr (sign mac secret [] key))"

definition verify_original :: "mac \<Rightarrow> string \<Rightarrow> string \<Rightarrow> string \<Rightarrow> (sig_error, bool) result" where
  "verify_original mac secret sg raw_key =
     (case sign_original mac secret raw_key of
        Inl e \<Rightarrow> Inl e | Inr expected \<Rightarrow> Inr (expected = sg))"

definition sign_encrypted_original :: "mac \<Rightarrow> string \<Rightarrow> string \<Rightarrow> (sig_error, string) result" where
  "sign_encrypted_original mac secret token =
     (if token = [] \<or> contains_str token ''/'' then Inl InvalidSourceToken
      else Inr (sign_domain mac secret ''vylux/original-url/v1'' [token]))"

definition verify_encrypted_original ::
    "mac \<Rightarrow> string \<Rightarrow> string \<Rightarrow> string \<Rightarrow> (sig_error, bool) result" where
  "verify_encrypted_original mac secret sg token =
     (case sign_encrypted_original mac secret token of
        Inl e \<Rightarrow> Inl e | Inr expected \<Rightarrow> Inr (expected = sg))"

definition sign_thumb :: "mac \<Rightarrow> string \<Rightarrow> string \<Rightarrow> (sig_error, string) result" where
  "sign_thumb mac secret raw_key =
     (case canonicalize_object_key raw_key of
        Inl e \<Rightarrow> Inl e | Inr key \<Rightarrow> Inr (sign mac secret ''thumb'' key))"

definition verify_thumb :: "mac \<Rightarrow> string \<Rightarrow> string \<Rightarrow> string \<Rightarrow> (sig_error, bool) result" where
  "verify_thumb mac secret sg raw_key =
     (case sign_thumb mac secret raw_key of
        Inl e \<Rightarrow> Inl e | Inr expected \<Rightarrow> Inr (expected = sg))"

definition sign_webhook :: "mac \<Rightarrow> string \<Rightarrow> string \<Rightarrow> string" where
  "sign_webhook mac secret body = ''sha256='' @ hex_encode (mac secret body)"

definition verify_webhook :: "mac \<Rightarrow> string \<Rightarrow> string \<Rightarrow> string \<Rightarrow> bool" where
  "verify_webhook mac secret sg body = (sign_webhook mac secret body = sg)"

section \<open>What a message determines\<close>

text \<open>
  A signed request of each endpoint, and the message its signature covers. \<open>url_message\<close> is read
  off the signing functions by taking the identity for the hash; \<open>sign_url_message\<close> below says
  that every signature is the digest of it.
\<close>

datatype signed_url =
    UImage string string
  | UOriginal string
  | UThumb string
  | UEncImage string string
  | UEncOriginal string

fun sign_url :: "mac \<Rightarrow> string \<Rightarrow> signed_url \<Rightarrow> (sig_error, string) result" where
  "sign_url mac secret (UImage o1 s) = sign_image mac secret o1 s"
| "sign_url mac secret (UOriginal k) = sign_original mac secret k"
| "sign_url mac secret (UThumb k) = sign_thumb mac secret k"
| "sign_url mac secret (UEncImage o1 s) = sign_encrypted_image mac secret o1 s"
| "sign_url mac secret (UEncOriginal t) = sign_encrypted_original mac secret t"

definition map_ok :: "('a \<Rightarrow> 'b) \<Rightarrow> ('e, 'a) result \<Rightarrow> ('e, 'b) result" where
  "map_ok f r = (case r of Inl e \<Rightarrow> Inl e | Inr a \<Rightarrow> Inr (f a))"

lemma map_ok_simps [simp]: "map_ok f (Inl e) = Inl e" "map_ok f (Inr a) = Inr (f a)"
  by (simp_all add: map_ok_def)

lemma map_ok_Inr_iff: "map_ok f r = Inr b \<longleftrightarrow> (\<exists>a. r = Inr a \<and> b = f a)"
  by (cases r) auto

fun url_message :: "signed_url \<Rightarrow> (sig_error, string) result" where
  "url_message (UImage o1 s) =
     (case canonicalize_image_options o1 of
        Inl e \<Rightarrow> Inl (BadOptions e)
      | Inr opts \<Rightarrow> map_ok (sign_message opts) (canonicalize_image_source_path s))"
| "url_message (UOriginal k) = map_ok (sign_message []) (canonicalize_object_key k)"
| "url_message (UThumb k) = map_ok (sign_message ''thumb'') (canonicalize_object_key k)"
| "url_message (UEncImage o1 s) =
     (case canonicalize_image_options o1 of
        Inl e \<Rightarrow> Inl (BadOptions e)
      | Inr opts \<Rightarrow>
          map_ok (\<lambda>(token, format). domain_message ''vylux/image-url/v1'' [opts, token, format])
            (canonicalize_encrypted_image_source_path s))"
| "url_message (UEncOriginal t) =
     (if t = [] \<or> contains_str t ''/'' then Inl InvalidSourceToken
      else Inr (domain_message ''vylux/original-url/v1'' [t]))"

lemma sign_url_message:
  "sign_url mac secret u = map_ok (\<lambda>m. hex_encode (mac secret m)) (url_message u)"
  by (cases u)
    (simp_all add: sign_image_def sign_original_def sign_thumb_def sign_encrypted_image_def
      sign_encrypted_original_def sign_def sign_domain_def split: sum.split)

lemma hex_encode_inj [simp]: "hex_encode a = hex_encode b \<longleftrightarrow> a = b"
  by (metis hex_decode_encode option.inject)

text \<open>The shape of the canonical source path, and what the handler reads from the same path.\<close>

lemma lower_char_code: "lower_char c \<noteq> c \<Longrightarrow> 97 \<le> (of_char (lower_char c) :: nat) \<and> (of_char (lower_char c) :: nat) \<le> 122"
  by (auto simp: lower_char_def Let_def split: if_splits)

lemma lower_char_fix [simp]:
  "lower_char c = CHR ''.'' \<longleftrightarrow> c = CHR ''.''" "lower_char c = CHR ''/'' \<longleftrightarrow> c = CHR ''/''"
  "lower_char c = CHR 0x00 \<longleftrightarrow> c = CHR 0x00"
proof -
  have fix1: "lower_char c = d \<longleftrightarrow> c = d" if "(of_char d :: nat) < 65" for d
  proof
    assume "lower_char c = d"
    with lower_char_code [of c] that show "c = d" by force
  next
    assume "c = d"
    with lower_char_def [of d] that show "lower_char c = d" by simp
  qed
  show "lower_char c = CHR ''.'' \<longleftrightarrow> c = CHR ''.''" "lower_char c = CHR ''/'' \<longleftrightarrow> c = CHR ''/''"
    "lower_char c = CHR 0x00 \<longleftrightarrow> c = CHR 0x00"
    by (rule fix1, simp)+
qed

lemma to_lower_free:
  "CHR ''.'' \<in> set (to_lower e) \<longleftrightarrow> CHR ''.'' \<in> set e" "CHR ''/'' \<in> set (to_lower e) \<longleftrightarrow> CHR ''/'' \<in> set e"
  "CHR 0x00 \<in> set (to_lower e) \<longleftrightarrow> CHR 0x00 \<in> set e"
  by (auto simp: to_lower_def image_iff) (metis lower_char_fix)+

lemma output_format_free [chars_simps]:
  "CHR ''.'' \<notin> set (output_format (path_ext p))" "CHR ''/'' \<notin> set (output_format (path_ext p))"
proof -
  have "CHR ''.'' \<notin> set (output_format (path_ext p)) \<and> CHR ''/'' \<notin> set (output_format (path_ext p))"
  proof (cases "path_ext p = []")
    case True
    then show ?thesis by (simp add: output_format_def trim_prefix_def has_prefix_def to_lower_def)
  next
    case False
    then obtain s e where "path_ext p = CHR ''.'' # e" "CHR ''.'' \<notin> set e" "CHR ''/'' \<notin> set e"
      by (rule path_ext_shape)
    moreover have "trim_prefix (CHR ''.'' # e) ''.'' = e" using trim_prefix_append [of "''.''" e] by simp
    ultimately show ?thesis by (simp add: output_format_def to_lower_free Let_def)
  qed
  then show "CHR ''.'' \<notin> set (output_format (path_ext p))" "CHR ''/'' \<notin> set (output_format (path_ext p))"
    by simp_all
qed

lemma parse_format_via_output:
  "parse_format a =
     (let e = output_format a in
      if e = ''webp'' then FormatWebP else if e = ''avif'' then FormatAVIF
      else if e = ''jpg'' then FormatJPEG else if e = ''png'' then FormatPNG
      else if e = ''gif'' then FormatGIF else FormatOriginal)"
  by (cases "to_lower (trim_prefix a ''.'') = ''jpeg''") (simp_all add: output_format_def parse_format_def Let_def)

lemma parse_format_output:
  "output_format a = output_format b \<Longrightarrow> parse_format a = parse_format b"
  by (simp add: parse_format_via_output)

lemma canonical_source_shape:
  assumes "canonicalize_image_source_path p = Inr m"
  obtains key where "m = key @ CHR ''.'' # output_format (path_ext (trim_prefix p ''/''))"
    "path_unescape (trim_suffix (trim_prefix p ''/'') (path_ext (trim_prefix p ''/''))) = Some key"
    "key \<noteq> []"
  using assms by (auto simp: canonicalize_image_source_path_def Let_def split: if_splits option.splits)

lemma canonical_source_inj:
  assumes "canonicalize_image_source_path p = Inr m" "canonicalize_image_source_path q = Inr m"
  defines "p' \<equiv> trim_prefix p ''/''" and "q' \<equiv> trim_prefix q ''/''"
  shows "path_unescape (trim_suffix p' (path_ext p')) = path_unescape (trim_suffix q' (path_ext q'))"
    and "output_format (path_ext p') = output_format (path_ext q')"
proof -
  obtain a where a: "m = a @ CHR ''.'' # output_format (path_ext p')"
      "path_unescape (trim_suffix p' (path_ext p')) = Some a"
    using assms(1) unfolding p'_def by (rule canonical_source_shape)
  obtain b where b: "m = b @ CHR ''.'' # output_format (path_ext q')"
      "path_unescape (trim_suffix q' (path_ext q')) = Some b"
    using assms(2) unfolding q'_def by (rule canonical_source_shape)
  have "a = b \<and> output_format (path_ext p') = output_format (path_ext q')"
    using a(1) b(1) last_sep_inj [OF output_format_free(1) output_format_free(1)] by metis
  then show "path_unescape (trim_suffix p' (path_ext p')) = path_unescape (trim_suffix q' (path_ext q'))"
    and "output_format (path_ext p') = output_format (path_ext q')"
    using a(2) b(2) by simp_all
qed

lemma image_message_parts:
  assumes "url_message (UImage a p) = Inr m" "url_message (UImage b q) = Inr m"
  obtains c d where "canonicalize_image_options a = Inr c" "canonicalize_image_options b = Inr c"
    "canonicalize_image_source_path p = Inr d" "canonicalize_image_source_path q = Inr d"
proof -
  obtain c d where c: "canonicalize_image_options a = Inr c" "canonicalize_image_source_path p = Inr d"
      "m = sign_message c d"
    using assms(1) by (auto simp: map_ok_Inr_iff split: sum.splits)
  obtain c' d' where c': "canonicalize_image_options b = Inr c'" "canonicalize_image_source_path q = Inr d'"
      "m = sign_message c' d'"
    using assms(2) by (auto simp: map_ok_Inr_iff split: sum.splits)
  have "c @ CHR ''/'' # d = c' @ CHR ''/'' # d'" using c(3) c'(3) by (simp add: sign_message_def)
  then have "c = c' \<and> d = d'"
    using first_sep_inj [of "CHR ''/''" c c' d d'] canonical_free [OF c(1)] canonical_free [OF c'(1)]
    by simp
  with c c' that show thesis by simp
qed

section \<open>Separation of the endpoints\<close>

datatype endpoint = EImage | EOriginal | EThumb | EEncImage | EEncOriginal

fun url_endpoint :: "signed_url \<Rightarrow> endpoint" where
  "url_endpoint (UImage o1 s) = EImage"
| "url_endpoint (UOriginal k) = EOriginal"
| "url_endpoint (UThumb k) = EThumb"
| "url_endpoint (UEncImage o1 s) = EEncImage"
| "url_endpoint (UEncOriginal t) = EEncOriginal"

text \<open>
  The bytes before the first slash tell the endpoints apart: canonical options, nothing,
  \<open>thumb\<close>, \<open>vylux\<close>.
\<close>

fun message_head :: "signed_url \<Rightarrow> string" where
  "message_head (UImage o1 s) = (case canonicalize_image_options o1 of Inl e \<Rightarrow> [] | Inr c \<Rightarrow> c)"
| "message_head (UOriginal k) = []"
| "message_head (UThumb k) = ''thumb''"
| "message_head (UEncImage o1 s) = ''vylux''"
| "message_head (UEncOriginal t) = ''vylux''"

lemma domain_message_Cons: "domain_message d (p # ps) = d @ CHR 0x00 # domain_message p ps"
  by (simp add: domain_message_def)

lemma domain_message_Nil: "domain_message d [] = d"
  by (simp add: domain_message_def)

fun message_tail :: "signed_url \<Rightarrow> string \<Rightarrow> bool" where
  "message_tail (UEncImage o1 s) t = (\<exists>u. t = ''image-url/v1'' @ u)"
| "message_tail (UEncOriginal k) t = (\<exists>u. t = ''original-url/v1'' @ u)"
| "message_tail u t = True"

lemma message_split:
  assumes "url_message u = Inr m"
  obtains t where "m = message_head u @ CHR ''/'' # t" "CHR ''/'' \<notin> set (message_head u)" "message_tail u t"
proof (cases u)
  case (UImage a p)
  then obtain c d where "canonicalize_image_options a = Inr c" "m = c @ CHR ''/'' # d"
    using assms by (auto simp: map_ok_Inr_iff sign_message_def split: sum.splits)
  with UImage canonical_free [of a c "CHR ''/''"] that show thesis by simp
next
  case (UEncImage a p)
  then show thesis
    using assms that by (auto simp: map_ok_Inr_iff domain_message_Cons split: sum.splits prod.splits)
qed (use assms that in \<open>auto simp: map_ok_Inr_iff sign_message_def domain_message_Cons split: if_splits\<close>)

text \<open>
  C1. A message belongs to one endpoint: two requests whose signatures cover the same message are
  for the same endpoint, with one exception, an image request without options and an original
  request. (Every signature is the digest of the message, \<open>sign_url_message\<close>.)
\<close>

theorem signed_messages_separate:
  assumes "url_message u = Inr m" and "url_message v = Inr m"
  shows "url_endpoint u = url_endpoint v \<or>
    (\<exists>o1 s k. (u, v) \<in> {(UImage o1 s, UOriginal k), (UOriginal k, UImage o1 s)} \<and>
      canonicalize_image_options o1 = Inr [])"
proof -
  obtain t where t: "m = message_head u @ CHR ''/'' # t" "CHR ''/'' \<notin> set (message_head u)" "message_tail u t"
    using assms(1) by (rule message_split)
  obtain t' where t': "m = message_head v @ CHR ''/'' # t'" "CHR ''/'' \<notin> set (message_head v)" "message_tail v t'"
    using assms(2) by (rule message_split)
  have head: "message_head u = message_head v" and tail: "t = t'"
    using t t' first_sep_inj by metis+
  have opts: "(\<exists>c. canonicalize_image_options a = Inr c) \<and> message_head w \<noteq> ''thumb'' \<and> message_head w \<noteq> ''vylux''"
    if w: "w = UImage a p" "url_message w = Inr m" for w a p
  proof -
    obtain c where c: "canonicalize_image_options a = Inr c"
      using w by (auto split: sum.splits)
    have "CHR ''t'' \<notin> set c" "CHR ''v'' \<notin> set c" using canonical_free [OF c] by simp_all
    with c w(1) show ?thesis by auto
  qed
  show ?thesis
    using head tail t(3) t'(3) opts [of u] opts [of v] assms
    by (cases u; cases v) (auto simp del: url_message.simps)
qed

theorem signed_messages_separate_witness:
  "url_endpoint (UThumb ''a.jpg'') = url_endpoint (UThumb ''/a.jpg'') \<or>
    (\<exists>o1 s k. (UThumb ''a.jpg'', UThumb ''/a.jpg'') \<in>
        {(UImage o1 s, UOriginal k), (UOriginal k, UImage o1 s)} \<and>
      canonicalize_image_options o1 = Inr [])"
  by (rule signed_messages_separate [of _ "''thumb/a.jpg''"]) code_simp+

text \<open>
  The exception is real: the signature that authorises an original object authorises, with an
  empty options segment, the image request whose canonical source path is that object's key.
\<close>

theorem image_signature_reuses_original:
  assumes "canonicalize_image_source_path p = Inr key" and "canonicalize_object_key k = Inr key"
  shows "verify_image mac secret sg [] p = verify_original mac secret sg k"
  using assms
  by (simp add: verify_image_def verify_original_def sign_image_def sign_original_def
    canonicalize_image_options_def)

theorem image_signature_reuses_original_witness:
  "\<forall>mac secret sg. verify_image mac secret sg [] ''a%20b.png.JPEG'' = verify_original mac secret sg ''a%20b.png.jpg''"
  by (intro allI, rule image_signature_reuses_original [of _ "''a b.png.jpg''"]) code_simp+

section \<open>Encrypted sources\<close>

lemma canonicalize_encrypted_eval [simp]:
  "canonicalize_encrypted_image_source_path ''/AbC.jpeg'' = Inr (''AbC'', ''jpg'')"
  "canonicalize_encrypted_image_source_path ''AbC.JPG'' = Inr (''AbC'', ''jpg'')"
  by code_simp+

lemma domain_message_3 [simp]:
  "domain_message d [a, b, c] = d @ CHR 0x00 # a @ CHR 0x00 # b @ CHR 0x00 # c"
  by (simp add: domain_message_def)

lemma encrypted_source_shape:
  assumes "canonicalize_encrypted_image_source_path p = Inr (tok, f)"
  shows "tok = trim_suffix (trim_prefix p ''/'') (path_ext (trim_prefix p ''/''))"
    and "f = output_format (path_ext (trim_prefix p ''/''))"
  using assms by (auto simp: canonicalize_encrypted_image_source_path_def Let_def split: if_splits)

lemma output_format_supported:
  assumes "parse_format ext \<noteq> FormatOriginal"
  shows "output_format ext = format_ext (parse_format ext)"
  using assms by (simp add: parse_format_via_output format_ext_def Let_def split: if_splits)

lemma format_ext_nul [simp]: "CHR 0x00 \<notin> set (format_ext f)"
  using format_ext_chars by blast

text \<open>
  For the output formats the service supports, the message of an encrypted-source image request
  determines its token, its output format and its canonical options: the zero bytes never make two
  requests collide.
\<close>

theorem encrypted_image_message_injective:
  assumes "url_message (UEncImage a p) = Inr m" and "url_message (UEncImage b q) = Inr m"
    and "parse_format (path_ext (trim_prefix p ''/'')) \<noteq> FormatOriginal"
    and "parse_format (path_ext (trim_prefix q ''/'')) \<noteq> FormatOriginal"
  shows "canonicalize_image_options a = canonicalize_image_options b \<and>
    canonicalize_encrypted_image_source_path p = canonicalize_encrypted_image_source_path q"
proof -
  obtain c t f where c: "canonicalize_image_options a = Inr c"
      "canonicalize_encrypted_image_source_path p = Inr (t, f)"
      "m = domain_message ''vylux/image-url/v1'' [c, t, f]"
    using assms(1) by (auto simp: map_ok_Inr_iff split: sum.splits)
  obtain c' t' f' where c': "canonicalize_image_options b = Inr c'"
      "canonicalize_encrypted_image_source_path q = Inr (t', f')"
      "m = domain_message ''vylux/image-url/v1'' [c', t', f']"
    using assms(2) by (auto simp: map_ok_Inr_iff split: sum.splits)
  have f: "CHR 0x00 \<notin> set f" "CHR 0x00 \<notin> set f'"
    using encrypted_source_shape(2) [OF c(2)] encrypted_source_shape(2) [OF c'(2)]
      output_format_supported [OF assms(3)] output_format_supported [OF assms(4)] by simp_all
  have "c @ CHR 0x00 # (t @ CHR 0x00 # f) = c' @ CHR 0x00 # (t' @ CHR 0x00 # f')"
    using c(3) c'(3) by (simp add: domain_message_3)
  then have "c = c'" "t @ CHR 0x00 # f = t' @ CHR 0x00 # f'"
    using first_sep_inj [of "CHR 0x00" c c'] canonical_free [OF c(1)] canonical_free [OF c'(1)] by simp_all
  then show ?thesis using last_sep_inj [OF f] c c' by simp
qed

theorem encrypted_image_message_injective_witness:
  "canonicalize_image_options ''h2_w1'' = canonicalize_image_options ''w1_h2'' \<and>
    canonicalize_encrypted_image_source_path ''/AbC.jpeg'' = canonicalize_encrypted_image_source_path ''AbC.JPG''"
  by (rule encrypted_image_message_injective
      [of _ _ "''vylux/image-url/v1'' @ CHR 0x00 # ''w1_h2'' @ CHR 0x00 # ''AbC'' @ CHR 0x00 # ''jpg''"])
    (simp add: options_eval, simp add: options_eval, code_simp, code_simp)

end
