(* ===== verification/Encryption.thy ===== *)
theory Encryption
  imports Signature
begin

text \<open>
  Content-key protection and encrypted image sources: \<open>internal/encryption/\<close> (key wrapping,
  source tokens, set-up of HLS encryption), the key table of \<open>internal/db/dbq/keys.sql.go\<close> and the
  key delivery endpoint \<open>internal/handler/key.go\<close>. AES-GCM is standard library code: it is the
  parameter record \<open>aead\<close>, with the two laws \<open>aead_ok\<close> (opening what was sealed gives it back, the
  ciphertext is longer by a fixed overhead). Randomness is an argument of the operations that draw it.
\<close>

section \<open>AES-GCM as a parameter\<close>

record aead =
  nonce_size :: nat
  overhead :: nat
  seal :: "string \<Rightarrow> string \<Rightarrow> string \<Rightarrow> string"
  open_sealed :: "string \<Rightarrow> string \<Rightarrow> string \<Rightarrow> string option"

text \<open>\<open>Seal (dst, nonce, plaintext, aad)\<close> appends \<open>seal A nonce plaintext aad\<close> to \<open>dst\<close>.\<close>

definition aead_ok :: "aead \<Rightarrow> bool" where
  "aead_ok A \<longleftrightarrow>
     (\<forall>n p a. length n = nonce_size A \<longrightarrow>
        open_sealed A n (seal A n p a) a = Some p \<and> length (seal A n p a) = length p + overhead A)"

lemma aead_open_seal:
  "aead_ok A \<Longrightarrow> length n = nonce_size A \<Longrightarrow> open_sealed A n (seal A n p a) a = Some p"
  by (simp add: aead_ok_def)

lemma aead_seal_length:
  "aead_ok A \<Longrightarrow> length n = nonce_size A \<Longrightarrow> length (seal A n p a) = length p + overhead A"
  by (simp add: aead_ok_def)

text \<open>
  An instance of the laws, used by the witnesses: the tag is sixteen zero bytes and the
  plaintext stays readable. It is no cipher; it shows that the laws can hold.
\<close>

definition plain_aead :: aead where
  "plain_aead = \<lparr>nonce_size = 12, overhead = 16,
     seal = (\<lambda>n p a. p @ replicate 16 (CHR 0x00)),
     open_sealed = (\<lambda>n c a. if length c < 16 then None else Some (take (length c - 16) c))\<rparr>"

lemma plain_aead_ok: "aead_ok plain_aead"
  by (simp add: aead_ok_def plain_aead_def)

section \<open>Key wrapping\<close>

definition current_kek_version :: string where
  "current_kek_version = ''v1''"

record key_wrapper =
  kw_aead :: aead
  kw_version :: string

datatype enc_error =
    BadHex | BadKeyLength nat
  | RandFailed
  | UnsupportedVersion string | OpenFailed | PanicNonceLength
  | SourceEncryptionOff | InvalidImageSource | BadNonceLength nat | InvalidImageSourceToken
  | KeyRowConflict

text \<open>\<open>gcm\<close> stands for \<open>aes.NewCipher\<close> and \<open>cipher.NewGCM\<close>, which succeed on a 32-byte key.\<close>

definition new_key_wrapper :: "(string \<Rightarrow> aead) \<Rightarrow> string \<Rightarrow> (enc_error, key_wrapper) result" where
  "new_key_wrapper gcm hex_key =
     (case hex_decode hex_key of
        None \<Rightarrow> Inl BadHex
      | Some key \<Rightarrow>
          if length key \<noteq> 32 then Inl (BadKeyLength (length key))
          else Inr \<lparr>kw_aead = gcm key, kw_version = current_kek_version\<rparr>)"

text \<open>\<open>rand\<close> is what \<open>rand.Read\<close> filled the buffer with, or its error.\<close>

definition wrap_key ::
    "key_wrapper \<Rightarrow> string option \<Rightarrow> string \<Rightarrow> (enc_error, string \<times> string \<times> string) result" where
  "wrap_key w rand plaintext =
     (case rand of
        None \<Rightarrow> Inl RandFailed
      | Some nonce \<Rightarrow>
          Inr (seal (kw_aead w) nonce plaintext (kw_version w), nonce, kw_version w))"

definition unwrap_key :: "key_wrapper \<Rightarrow> string \<Rightarrow> string \<Rightarrow> string \<Rightarrow> (enc_error, string) result" where
  "unwrap_key w wrapped nonce version =
     (if version \<noteq> kw_version w then Inl (UnsupportedVersion version)
      else if length nonce \<noteq> nonce_size (kw_aead w) then Inl PanicNonceLength
      else case open_sealed (kw_aead w) nonce wrapped version of
        None \<Rightarrow> Inl OpenFailed
      | Some plaintext \<Rightarrow> Inr plaintext)"

lemma unwrap_wrap [roundtrip_simps]:
  assumes "aead_ok (kw_aead w)" and "length nonce = nonce_size (kw_aead w)"
    and "wrap_key w (Some nonce) key = Inr (wrapped, nonce', version)"
  shows "unwrap_key w wrapped nonce' version = Inr key"
  using assms by (auto simp: wrap_key_def unwrap_key_def aead_open_seal)

section \<open>Encrypted image sources\<close>

definition image_source_token_version :: char where
  "image_source_token_version = CHR 0x01"

definition max_image_source_key_bytes :: nat where
  "max_image_source_key_bytes = 1024"

definition image_source_aad :: string where
  "image_source_aad = ''vylux/image-source/v1''"

text \<open>A disabled cipher has no \<open>aead\<close>.\<close>

record image_source_cipher =
  isc_aead :: "aead option"

definition new_image_source_cipher ::
    "(string \<Rightarrow> aead) \<Rightarrow> string \<Rightarrow> (enc_error, image_source_cipher) result" where
  "new_image_source_cipher gcm hex_key =
     (if hex_key = [] then Inr \<lparr>isc_aead = None\<rparr>
      else case hex_decode hex_key of
        None \<Rightarrow> Inl BadHex
      | Some key \<Rightarrow>
          if length key \<noteq> 32 then Inl (BadKeyLength (length key))
          else Inr \<lparr>isc_aead = Some (gcm key)\<rparr>)"

definition enabled :: "image_source_cipher \<Rightarrow> bool" where
  "enabled c = (isc_aead c \<noteq> None)"

definition encrypt_with_nonce :: "image_source_cipher \<Rightarrow> string \<Rightarrow> string \<Rightarrow> (enc_error, string) result" where
  "encrypt_with_nonce c source_key nonce =
     (case isc_aead c of
        None \<Rightarrow> Inl SourceEncryptionOff
      | Some A \<Rightarrow>
          if source_key = [] \<or> length source_key > max_image_source_key_bytes then Inl InvalidImageSource
          else if length nonce \<noteq> nonce_size A then Inl (BadNonceLength (length nonce))
          else Inr (b64_encode
            (image_source_token_version # nonce @ seal A nonce source_key image_source_aad)))"

definition encrypt_source ::
    "image_source_cipher \<Rightarrow> string option \<Rightarrow> string \<Rightarrow> (enc_error, string) result" where
  "encrypt_source c rand source_key =
     (if \<not> enabled c then Inl SourceEncryptionOff
      else case rand of
        None \<Rightarrow> Inl RandFailed
      | Some nonce \<Rightarrow> encrypt_with_nonce c source_key nonce)"

definition max_token_bytes :: "aead \<Rightarrow> nat" where
  "max_token_bytes A = 1 + nonce_size A + max_image_source_key_bytes + overhead A"

definition decrypt_source :: "image_source_cipher \<Rightarrow> string \<Rightarrow> (enc_error, string) result" where
  "decrypt_source c encoded =
     (case isc_aead c of
        None \<Rightarrow> Inl SourceEncryptionOff
      | Some A \<Rightarrow>
          if encoded = [] \<or> length encoded > b64_encoded_len (max_token_bytes A)
          then Inl InvalidImageSourceToken
          else case b64_decode encoded of
            None \<Rightarrow> Inl InvalidImageSourceToken
          | Some token \<Rightarrow>
              if length token \<le> 1 + nonce_size A + overhead A \<or> hd token \<noteq> image_source_token_version
              then Inl InvalidImageSourceToken
              else case open_sealed A (take (nonce_size A) (tl token)) (drop (1 + nonce_size A) token)
                     image_source_aad of
                None \<Rightarrow> Inl InvalidImageSourceToken
              | Some plaintext \<Rightarrow>
                  if plaintext = [] \<or> length plaintext > max_image_source_key_bytes
                  then Inl InvalidImageSourceToken else Inr plaintext)"

text \<open>
  C36. A token decrypts to the exact source key it was made from, for every key the encryption
  accepts and every nonce of the right length; the token is within the length bound that the
  decryption enforces and holds only URL-safe base64 bytes.
\<close>

theorem source_token_roundtrip:
  assumes "isc_aead c = Some A" and "aead_ok A"
    and "encrypt_with_nonce c source_key nonce = Inr token"
  shows "decrypt_source c token = Inr source_key \<and>
    length token \<le> b64_encoded_len (max_token_bytes A) \<and>
    (list_all (\<lambda>ch. b64_val ch \<noteq> None) token)"
proof -
  let ?raw = "image_source_token_version # nonce @ seal A nonce source_key image_source_aad"
  have len: "length nonce = nonce_size A" and key: "source_key \<noteq> []"
      "length source_key \<le> max_image_source_key_bytes"
    and tok: "token = b64_encode ?raw"
    using assms(1,3) by (auto simp: encrypt_with_nonce_def split: if_splits)
  have raw: "length ?raw = 1 + nonce_size A + (length source_key + overhead A)"
    using len assms(2) by (simp add: aead_seal_length)
  then have bound: "length token \<le> b64_encoded_len (max_token_bytes A)"
    unfolding tok length_b64_encode
    by (intro b64_encoded_len_mono) (use key(2) in \<open>simp add: max_token_bytes_def\<close>)
  have "token \<noteq> []" unfolding tok by (cases ?raw rule: b64_encode.cases) auto
  then have "decrypt_source c token = Inr source_key"
    using bound assms(1,2) key raw len
    by (simp add: decrypt_source_def tok b64_decode_encode aead_open_seal)
  moreover have "list_all (\<lambda>ch. b64_val ch \<noteq> None) token"
    unfolding tok list_all_iff by (auto dest!: b64_encode_chars)
  ultimately show ?thesis using bound by blast
qed

theorem source_token_roundtrip_witness:
  "\<exists>token. encrypt_with_nonce \<lparr>isc_aead = Some plain_aead\<rparr> ''a/b.png'' ''nonce-123456'' = Inr token \<and>
     decrypt_source \<lparr>isc_aead = Some plain_aead\<rparr> token = Inr ''a/b.png''"
proof -
  let ?c = "\<lparr>isc_aead = Some plain_aead\<rparr> :: image_source_cipher"
  obtain token where t: "encrypt_with_nonce ?c ''a/b.png'' ''nonce-123456'' = Inr token"
    by (simp add: encrypt_with_nonce_def plain_aead_def max_image_source_key_bytes_def)
  with source_token_roundtrip [OF _ plain_aead_ok t] show ?thesis by simp
qed

section \<open>The key table\<close>

record key_row =
  kr_id :: string
  kr_source_hash :: string
  kr_asset_type :: string
  kr_packaging_type :: string
  kr_wrapped_key :: string
  kr_wrap_nonce :: string
  kr_kek_version :: string
  kr_kid :: string
  kr_scheme :: string

definition same_asset :: "key_row \<Rightarrow> key_row \<Rightarrow> bool" where
  "same_asset a b \<longleftrightarrow>
     kr_source_hash a = kr_source_hash b \<and> kr_asset_type a = kr_asset_type b \<and>
     kr_packaging_type a = kr_packaging_type b"

text \<open>
  \<open>INSERT ... ON CONFLICT (source_hash, asset_type, packaging_type) DO UPDATE\<close>: a row of the same
  asset keeps its id and gets the new key columns. A fresh row must satisfy the table's checks and
  its id must be new.
\<close>

definition upsert_stream_key :: "key_row \<Rightarrow> key_row list \<Rightarrow> (enc_error, key_row \<times> key_row list) result" where
  "upsert_stream_key arg rows =
     (if kr_asset_type arg \<notin> {''audio'', ''video''} \<or> kr_packaging_type arg \<noteq> ''hls'' then Inl KeyRowConflict
      else case find (same_asset arg) rows of
        Some old \<Rightarrow>
          (let new = arg\<lparr>kr_id := kr_id old\<rparr>
           in Inr (new, map (\<lambda>r. if same_asset arg r then arg\<lparr>kr_id := kr_id r\<rparr> else r) rows))
      | None \<Rightarrow>
          if kr_id arg \<in> kr_id ` set rows then Inl KeyRowConflict else Inr (arg, rows @ [arg]))"

definition get_stream_key :: "string \<Rightarrow> key_row list \<Rightarrow> key_row option" where
  "get_stream_key i rows = find (\<lambda>r. kr_id r = i) rows"

definition delete_stream_keys :: "string \<Rightarrow> key_row list \<Rightarrow> key_row list" where
  "delete_stream_keys h rows = filter (\<lambda>r. kr_source_hash r \<noteq> h) rows"

text \<open>The primary key and the unique constraint of the table.\<close>

definition key_table_ok :: "key_row list \<Rightarrow> bool" where
  "key_table_ok rows \<longleftrightarrow>
     distinct (map kr_id rows) \<and>
     distinct (map (\<lambda>r. (kr_source_hash r, kr_asset_type r, kr_packaging_type r)) rows)"

lemma same_asset_triple:
  "same_asset a b \<longleftrightarrow>
     (kr_source_hash a, kr_asset_type a, kr_packaging_type a) =
     (kr_source_hash b, kr_asset_type b, kr_packaging_type b)"
  by (auto simp: same_asset_def)

lemma find_unique:
  "distinct (map f xs) \<Longrightarrow> x \<in> set xs \<Longrightarrow> find (\<lambda>y. f y = f x) xs = Some x"
  by (induction xs) (auto simp: image_iff)

lemma upsert_keeps_columns:
  "map kr_id (map (\<lambda>r. if same_asset arg r then arg\<lparr>kr_id := kr_id r\<rparr> else r) rows) = map kr_id rows"
  "map (\<lambda>r. (kr_source_hash r, kr_asset_type r, kr_packaging_type r))
     (map (\<lambda>r. if same_asset arg r then arg\<lparr>kr_id := kr_id r\<rparr> else r) rows) =
   map (\<lambda>r. (kr_source_hash r, kr_asset_type r, kr_packaging_type r)) rows"
  by (simp_all add: same_asset_triple)

lemma upsert_stream_key_ok:
  assumes "upsert_stream_key arg rows = Inr (r, rows')" and "key_table_ok rows"
  shows "key_table_ok rows'" and "get_stream_key (kr_id r) rows' = Some r"
    and "r = arg\<lparr>kr_id := kr_id r\<rparr>"
    and "\<And>i q. get_stream_key i rows = Some q \<Longrightarrow> \<not> same_asset arg q \<Longrightarrow> get_stream_key i rows' = Some q"
proof -
  have "key_table_ok rows' \<and> r \<in> set rows' \<and> r = arg\<lparr>kr_id := kr_id r\<rparr> \<and>
    (\<forall>q. q \<in> set rows \<and> \<not> same_asset arg q \<longrightarrow> q \<in> set rows')"
  proof (cases "find (same_asset arg) rows")
    case (Some old)
    then have "old \<in> set rows" "same_asset arg old" by (auto simp: find_Some_iff)
    moreover have "r = arg\<lparr>kr_id := kr_id old\<rparr>"
        "rows' = map (\<lambda>r. if same_asset arg r then arg\<lparr>kr_id := kr_id r\<rparr> else r) rows"
      using assms(1) Some by (simp_all add: upsert_stream_key_def Let_def split: if_splits)
    moreover from this have "key_table_ok rows'"
      using assms(2) unfolding key_table_ok_def by (simp only: upsert_keeps_columns)
    ultimately show ?thesis by (auto simp: image_iff)
  next
    case None
    then have fresh: "\<not> same_asset arg q" if "q \<in> set rows" for q
      using that by (simp add: find_None_iff)
    have "r = arg" "rows' = rows @ [arg]" "kr_id arg \<notin> kr_id ` set rows"
      using assms(1) None by (auto simp: upsert_stream_key_def split: if_splits)
    then show ?thesis
      using assms(2) fresh by (auto simp: key_table_ok_def same_asset_triple)
  qed
  note * = this
  then show "key_table_ok rows'" "r = arg\<lparr>kr_id := kr_id r\<rparr>" by simp_all
  have dist: "distinct (map kr_id rows')" using * by (simp add: key_table_ok_def)
  show "get_stream_key (kr_id r) rows' = Some r"
    unfolding get_stream_key_def using find_unique [OF dist] * by blast
  show "get_stream_key i rows' = Some q" if "get_stream_key i rows = Some q" "\<not> same_asset arg q" for i q
  proof -
    have "q \<in> set rows" "i = kr_id q"
      using that(1) by (auto simp: get_stream_key_def find_Some_iff)
    then show ?thesis
      using find_unique [OF dist, of q] * that(2) by (simp add: get_stream_key_def)
  qed
qed

section \<open>Setting up HLS encryption\<close>

record material =
  m_id :: string
  m_key :: string
  m_key_id :: string
  m_scheme :: string
  m_key_uri :: string

definition key_uri :: "string \<Rightarrow> string \<Rightarrow> string" where
  "key_uri base_url i = trim_right_of (CHR ''/'') base_url @ ''/api/key/'' @ i"

text \<open>What the source draws: content key, key id, wrapping nonce (each may fail), fresh row id.\<close>

record draws =
  d_key :: "string option"
  d_kid :: "string option"
  d_nonce :: "string option"
  d_uuid :: string

definition setup_hls_encryption ::
    "draws \<Rightarrow> string \<Rightarrow> string \<Rightarrow> string \<Rightarrow> key_wrapper \<Rightarrow> key_row list \<Rightarrow>
     (enc_error, material \<times> key_row list) result" where
  "setup_hls_encryption d hash asset base_url w rows =
     (case d_key d of
        None \<Rightarrow> Inl RandFailed
      | Some aes_key \<Rightarrow>
         (case d_kid d of
            None \<Rightarrow> Inl RandFailed
          | Some kid \<Rightarrow>
             (case wrap_key w (d_nonce d) aes_key of
                Inl e \<Rightarrow> Inl e
              | Inr (wrapped, nonce, version) \<Rightarrow>
                 (case upsert_stream_key
                         \<lparr>kr_id = d_uuid d, kr_source_hash = hash, kr_asset_type = asset,
                          kr_packaging_type = ''hls'', kr_wrapped_key = wrapped, kr_wrap_nonce = nonce,
                          kr_kek_version = version, kr_kid = hex_encode kid, kr_scheme = ''cbcs''\<rparr> rows of
                    Inl e \<Rightarrow> Inl e
                  | Inr (row, rows') \<Rightarrow>
                      Inr (\<lparr>m_id = kr_id row, m_key = aes_key, m_key_id = kid, m_scheme = ''cbcs'',
                            m_key_uri = key_uri base_url (kr_id row)\<rparr>, rows')))))"

section \<open>Key delivery\<close>

text \<open>\<open>strings.SplitN (s, sep, 2)\<close> with a one-byte separator, when the separator occurs.\<close>

definition split_first :: "char \<Rightarrow> string \<Rightarrow> (string \<times> string) option" where
  "split_first d s =
     (if d \<in> set s then Some (takeWhile (\<lambda>c. c \<noteq> d) s, tl (dropWhile (\<lambda>c. c \<noteq> d) s)) else None)"

datatype token_error = TokenFormat | TokenPayload | TokenSignatureCode | TokenSignature | TokenJson | TokenExpired

text \<open>\<open>unmarshal\<close> is \<open>json.Unmarshal\<close> into \<open>keyTokenPayload\<close>: the hash and the expiry time.\<close>

definition verify_token ::
    "mac \<Rightarrow> string \<Rightarrow> (string \<Rightarrow> (string \<times> int) option) \<Rightarrow> int \<Rightarrow> string \<Rightarrow>
     (token_error, string \<times> int) result" where
  "verify_token mac secret unmarshal now token =
     (case split_first (CHR ''.'') token of
        None \<Rightarrow> Inl TokenFormat
      | Some (payload_b64, sig_b64) \<Rightarrow>
         (case b64_decode payload_b64 of
            None \<Rightarrow> Inl TokenPayload
          | Some payload_bytes \<Rightarrow>
             (case b64_decode sig_b64 of
                None \<Rightarrow> Inl TokenSignatureCode
              | Some sig_bytes \<Rightarrow>
                  if sig_bytes \<noteq> mac secret payload_b64 then Inl TokenSignature
                  else (case unmarshal payload_bytes of
                    None \<Rightarrow> Inl TokenJson
                  | Some (h, e) \<Rightarrow> if now > e then Inl TokenExpired else Inr (h, e)))))"

record key_handler =
  kh_mac :: mac
  kh_secret :: string
  kh_unmarshal :: "string \<Rightarrow> (string \<times> int) option"
  kh_parse_uuid :: "string \<Rightarrow> string option"
  kh_wrapper :: key_wrapper

definition bearer_token :: "string \<Rightarrow> string" where
  "bearer_token auth = (if has_prefix auth ''Bearer '' then trim_prefix auth ''Bearer '' else [])"

definition key_handle ::
    "key_handler \<Rightarrow> int \<Rightarrow> key_row list \<Rightarrow> string \<Rightarrow> string \<Rightarrow> nat \<times> string option" where
  "key_handle h now rows i auth =
     (if i = [] then (400, None)
      else let token = bearer_token auth in
      if token = [] then (401, None)
      else case verify_token (kh_mac h) (kh_secret h) (kh_unmarshal h) now token of
        Inl e \<Rightarrow> (403, None)
      | Inr (phash, pexp) \<Rightarrow>
         (case kh_parse_uuid h i of
            None \<Rightarrow> (400, None)
          | Some key_id \<Rightarrow>
             (case get_stream_key key_id rows of
                None \<Rightarrow> (404, None)
              | Some row \<Rightarrow>
                  if phash \<noteq> kr_source_hash row then (403, None)
                  else (case unwrap_key (kh_wrapper h) (kr_wrapped_key row) (kr_wrap_nonce row) (kr_kek_version row) of
                    Inl e \<Rightarrow> (500, None)
                  | Inr aes_key \<Rightarrow> (200, Some aes_key)))))"

lemma setup_row:
  assumes "setup_hls_encryption d hash asset base w rows = Inr (m, rows')"
  obtains wrapped nonce version row where
    "d_key d = Some (m_key m)" "wrap_key w (d_nonce d) (m_key m) = Inr (wrapped, nonce, version)"
    "upsert_stream_key
       \<lparr>kr_id = d_uuid d, kr_source_hash = hash, kr_asset_type = asset, kr_packaging_type = ''hls'',
        kr_wrapped_key = wrapped, kr_wrap_nonce = nonce, kr_kek_version = version,
        kr_kid = hex_encode (m_key_id m), kr_scheme = ''cbcs''\<rparr> rows = Inr (row, rows')"
    "m_id m = kr_id row"
  using assms by (auto simp: setup_hls_encryption_def split: option.splits sum.splits prod.splits)

lemma setup_serves_key:
  assumes "setup_hls_encryption d hash asset base w rows = Inr (m, rows')"
    and "key_table_ok rows" and "aead_ok (kw_aead w)"
    and "d_nonce d = Some nonce" and "length nonce = nonce_size (kw_aead w)"
  shows "\<exists>row. get_stream_key (m_id m) rows' = Some row \<and> kr_source_hash row = hash \<and>
    unwrap_key w (kr_wrapped_key row) (kr_wrap_nonce row) (kr_kek_version row) = Inr (m_key m)"
proof -
  from assms(1) obtain wrapped nonce' version row where
    wrap: "wrap_key w (d_nonce d) (m_key m) = Inr (wrapped, nonce', version)" and
    up: "upsert_stream_key
       \<lparr>kr_id = d_uuid d, kr_source_hash = hash, kr_asset_type = asset, kr_packaging_type = ''hls'',
        kr_wrapped_key = wrapped, kr_wrap_nonce = nonce', kr_kek_version = version,
        kr_kid = hex_encode (m_key_id m), kr_scheme = ''cbcs''\<rparr> rows = Inr (row, rows')" and
    mid: "m_id m = kr_id row"
    by (rule setup_row)
  have "get_stream_key (m_id m) rows' = Some row"
    using upsert_stream_key_ok(2) [OF up assms(2)] mid by simp
  moreover have "kr_source_hash row = hash" "kr_wrapped_key row = wrapped" "kr_wrap_nonce row = nonce'"
      "kr_kek_version row = version"
    by (subst upsert_stream_key_ok(3) [OF up assms(2)], simp)+
  moreover have "unwrap_key w wrapped nonce' version = Inr (m_key m)"
    using unwrap_wrap [OF assms(3,5)] wrap assms(4) by simp
  ultimately show ?thesis by simp
qed

lemma key_delivery:
  assumes "setup_hls_encryption d hash asset base (kh_wrapper h) rows = Inr (m, rows')"
    and "key_table_ok rows" and "aead_ok (kw_aead (kh_wrapper h))"
    and "d_nonce d = Some nonce" and "length nonce = nonce_size (kw_aead (kh_wrapper h))"
    and "verify_token (kh_mac h) (kh_secret h) (kh_unmarshal h) now token = Inr (hash, exp1)"
    and "kh_parse_uuid h i = Some (m_id m)" and "i \<noteq> []"
  shows "key_handle h now rows' i (''Bearer '' @ token) = (200, Some (m_key m))"
proof -
  have "token \<noteq> []" using assms(6) by (auto simp: verify_token_def split_first_def)
  with setup_serves_key [OF assms(1-5)] assms(6-8) show ?thesis
    by (auto simp: key_handle_def bearer_token_def simp del: append.append_Cons append_Cons)
qed

text \<open>A configuration the witnesses use: a token of two base64 parts, an unmarshaller that reads the
  hash and expiry it is asked for.\<close>

definition demo_handler :: key_handler where
  "demo_handler = \<lparr>kh_mac = (\<lambda>k m. []), kh_secret = ''s'', kh_unmarshal = (\<lambda>b. Some (''h'', 100)),
     kh_parse_uuid = Some, kh_wrapper = \<lparr>kw_aead = plain_aead, kw_version = ''v1''\<rparr>\<rparr>"

definition demo_draws :: draws where
  "demo_draws = \<lparr>d_key = Some ''0123456789abcdef'', d_kid = Some ''fedcba9876543210'',
     d_nonce = Some ''nonce-123456'', d_uuid = ''id-1''\<rparr>"

lemma demo_token: "verify_token (kh_mac demo_handler) (kh_secret demo_handler) (kh_unmarshal demo_handler) 99 ''QQ.'' = Inr (''h'', 100)"
proof -
  have "b64_decode ''QQ'' = Some ''A''" "b64_decode [] = Some []" by code_simp+
  then show ?thesis by (simp add: verify_token_def demo_handler_def split_first_def)
qed

lemma demo_setup:
  "\<exists>m rows'. setup_hls_encryption demo_draws ''h'' ''video'' ''http://x/'' (kh_wrapper demo_handler) [] = Inr (m, rows')
     \<and> m_id m = ''id-1'' \<and> m_key m = ''0123456789abcdef''"
  by (simp add: setup_hls_encryption_def demo_draws_def wrap_key_def upsert_stream_key_def)

lemma demo_delivery:
  assumes "setup_hls_encryption demo_draws ''h'' ''video'' ''http://x/'' (kh_wrapper demo_handler) [] = Inr (m, rows')"
    and "m_id m = ''id-1''"
  shows "key_handle demo_handler 99 rows' ''id-1'' (''Bearer '' @ ''QQ.'') = (200, Some (m_key m))"
  by (rule key_delivery [OF assms(1) _ _ _ _ demo_token, where nonce = "''nonce-123456''"])
    (simp_all add: assms(2) key_table_ok_def demo_draws_def demo_handler_def plain_aead_ok,
     simp add: plain_aead_def)

text \<open>
  What the packager encrypted with is what the player gets: after a successful set-up, the key
  endpoint answers a valid unexpired token for the same source hash, on the key id of the material,
  with exactly the content key of the material.
\<close>

theorem key_delivery_after_setup:
  assumes "setup_hls_encryption d hash asset base (kh_wrapper h) rows = Inr (m, rows')"
    and "key_table_ok rows" and "aead_ok (kw_aead (kh_wrapper h))"
    and "d_nonce d = Some nonce" and "length nonce = nonce_size (kw_aead (kh_wrapper h))"
    and "verify_token (kh_mac h) (kh_secret h) (kh_unmarshal h) now token = Inr (hash, exp1)"
    and "kh_parse_uuid h i = Some (m_id m)" and "i \<noteq> []"
  shows "key_handle h now rows' i (''Bearer '' @ token) = (200, Some (m_key m))"
  by (rule key_delivery [OF assms])

theorem key_delivery_after_setup_witness:
  "\<exists>m rows'. setup_hls_encryption demo_draws ''h'' ''video'' ''http://x/'' (kh_wrapper demo_handler) [] = Inr (m, rows')
     \<and> key_handle demo_handler 99 rows' ''id-1'' (''Bearer '' @ ''QQ.'') = (200, Some ''0123456789abcdef'')"
proof -
  obtain m rows' where m: "setup_hls_encryption demo_draws ''h'' ''video'' ''http://x/'' (kh_wrapper demo_handler) [] = Inr (m, rows')"
    "m_id m = ''id-1''" "m_key m = ''0123456789abcdef''" using demo_setup by blast
  have "key_handle demo_handler 99 rows' ''id-1'' (''Bearer '' @ ''QQ.'') = (200, Some (m_key m))"
    by (rule key_delivery_after_setup [OF m(1) _ _ _ _ demo_token, where nonce = "''nonce-123456''"])
      (simp_all add: m(2) key_table_ok_def demo_draws_def demo_handler_def plain_aead_ok,
       simp add: plain_aead_def)
  with m show ?thesis by auto
qed

text \<open>
  C28. The key endpoint gives out a key only against an authentic, unexpired token for the source the
  key belongs to: the signature part decodes to the HMAC of the payload part exactly as received.
\<close>

theorem key_released_only_to_valid_token:
  assumes "key_handle h now rows i auth = (200, Some key)"
  shows "\<exists>payload sg payload_bytes phash pexp row.
    auth = ''Bearer '' @ payload @ ''.'' @ sg \<and> CHR ''.'' \<notin> set payload \<and>
    b64_decode sg = Some (kh_mac h (kh_secret h) payload) \<and> b64_decode payload = Some payload_bytes \<and>
    kh_unmarshal h payload_bytes = Some (phash, pexp) \<and> now \<le> pexp \<and>
    row \<in> set rows \<and> kh_parse_uuid h i = Some (kr_id row) \<and> kr_source_hash row = phash \<and>
    unwrap_key (kh_wrapper h) (kr_wrapped_key row) (kr_wrap_nonce row) (kr_kek_version row) = Inr key"
proof -
  from assms obtain phash pexp row where
    tok: "verify_token (kh_mac h) (kh_secret h) (kh_unmarshal h) now (bearer_token auth) = Inr (phash, pexp)"
      "bearer_token auth \<noteq> []" and
    row: "kh_parse_uuid h i = Some (kr_id row)" "row \<in> set rows" "kr_source_hash row = phash"
      "unwrap_key (kh_wrapper h) (kr_wrapped_key row) (kr_wrap_nonce row) (kr_kek_version row) = Inr key"
    by (auto simp: key_handle_def Let_def get_stream_key_def find_Some_iff
        split: if_splits sum.splits option.splits prod.splits)
  have auth: "auth = ''Bearer '' @ bearer_token auth"
    using tok(2) unfolding bearer_token_def has_prefix_iff by (auto split: if_splits simp del: append.append_Cons append_Cons)
  obtain payload sg where sp: "split_first (CHR ''.'') (bearer_token auth) = Some (payload, sg)"
    using tok(1) by (auto simp: verify_token_def split: option.splits)
  then have "bearer_token auth = payload @ ''.'' @ sg" "CHR ''.'' \<notin> set payload"
  proof -
    have "CHR ''.'' \<in> set (bearer_token auth)" using sp by (auto simp: split_first_def split: if_splits)
    then obtain xs ys where xy: "bearer_token auth = xs @ CHR ''.'' # ys" "CHR ''.'' \<notin> set xs"
      by (meson split_list_first)
    then have "takeWhile (\<lambda>c. c \<noteq> CHR ''.'') (bearer_token auth) = xs"
        "dropWhile (\<lambda>c. c \<noteq> CHR ''.'') (bearer_token auth) = CHR ''.'' # ys"
      by (auto simp: takeWhile_append dropWhile_append)
    with sp xy show "bearer_token auth = payload @ ''.'' @ sg" "CHR ''.'' \<notin> set payload"
      by (auto simp: split_first_def)
  qed
  moreover have "b64_decode sg = Some (kh_mac h (kh_secret h) payload)" and
    "\<exists>payload_bytes. b64_decode payload = Some payload_bytes \<and>
       kh_unmarshal h payload_bytes = Some (phash, pexp) \<and> now \<le> pexp"
    using tok(1) unfolding verify_token_def sp
    by (auto split: option.splits if_splits prod.splits)
  ultimately show ?thesis using row auth by metis
qed

theorem key_released_only_to_valid_token_witness:
  "\<exists>m rows' payload sg. setup_hls_encryption demo_draws ''h'' ''video'' ''http://x/'' (kh_wrapper demo_handler) [] = Inr (m, rows')
     \<and> key_handle demo_handler 99 rows' ''id-1'' (''Bearer '' @ ''QQ.'') = (200, Some ''0123456789abcdef'')
     \<and> ''Bearer '' @ ''QQ.'' = ''Bearer '' @ payload @ ''.'' @ sg \<and> CHR ''.'' \<notin> set payload"
proof -
  obtain m rows' where m: "setup_hls_encryption demo_draws ''h'' ''video'' ''http://x/'' (kh_wrapper demo_handler) [] = Inr (m, rows')"
      "m_id m = ''id-1''" "m_key m = ''0123456789abcdef''"
    using demo_setup by blast
  from demo_delivery [OF m(1,2)] m(3)
  have k: "key_handle demo_handler 99 rows' ''id-1'' (''Bearer '' @ ''QQ.'') = (200, Some ''0123456789abcdef'')"
    by simp
  from key_released_only_to_valid_token [OF k] m(1) k show ?thesis by blast
qed

text \<open>
  Setting up encryption a second time for the same source and asset type keeps the key id and URI
  but replaces the key: the id of the first material now serves the second key, so segments encrypted
  with the first key can no longer be decrypted through it.
\<close>

theorem second_setup_replaces_key:
  assumes "setup_hls_encryption d1 hash asset base (kh_wrapper h) rows = Inr (m1, rows1)"
    and "setup_hls_encryption d2 hash asset base (kh_wrapper h) rows1 = Inr (m2, rows2)"
    and "key_table_ok rows" and "aead_ok (kw_aead (kh_wrapper h))"
    and "d_nonce d2 = Some nonce" and "length nonce = nonce_size (kw_aead (kh_wrapper h))"
  shows "m_id m2 = m_id m1 \<and> m_key_uri m2 = m_key_uri m1 \<and> length rows2 = length rows1 \<and>
    (\<exists>row. get_stream_key (m_id m1) rows2 = Some row \<and>
      unwrap_key (kh_wrapper h) (kr_wrapped_key row) (kr_wrap_nonce row) (kr_kek_version row) = Inr (m_key m2))"
proof -
  from assms(1) obtain a row1 where
    up1: "upsert_stream_key a rows = Inr (row1, rows1)" and id1: "m_id m1 = kr_id row1"
    and a: "kr_source_hash a = hash" "kr_asset_type a = asset" "kr_packaging_type a = ''hls''"
    by (rule setup_row) (metis key_row.select_convs)
  from assms(2) obtain b row2 where
    up2: "upsert_stream_key b rows1 = Inr (row2, rows2)" and id2: "m_id m2 = kr_id row2"
    and b: "kr_source_hash b = hash" "kr_asset_type b = asset" "kr_packaging_type b = ''hls''"
    by (rule setup_row) (metis key_row.select_convs)
  note ok1 = upsert_stream_key_ok [OF up1 assms(3)]
  have "row1 \<in> set rows1" using ok1(2) by (auto simp: get_stream_key_def find_Some_iff)
  moreover have "same_asset b row1"
    by (subst ok1(3)) (simp add: same_asset_def a b)
  moreover from this have
    "same_asset b = (\<lambda>y. (kr_source_hash y, kr_asset_type y, kr_packaging_type y) =
       (kr_source_hash row1, kr_asset_type row1, kr_packaging_type row1))"
    by (auto simp: same_asset_def fun_eq_iff)
  ultimately have "find (same_asset b) rows1 = Some row1"
    using find_unique [of "\<lambda>r. (kr_source_hash r, kr_asset_type r, kr_packaging_type r)" rows1 row1] ok1(1)
    by (simp add: key_table_ok_def)
  then have "kr_id row2 = kr_id row1" "length rows2 = length rows1"
    using up2 by (auto simp: upsert_stream_key_def Let_def split: if_splits)
  moreover have "m_key_uri m1 = key_uri base (m_id m1)" "m_key_uri m2 = key_uri base (m_id m2)"
    using assms(1,2) by (auto simp: setup_hls_encryption_def split: option.splits sum.splits prod.splits)
  moreover obtain row where "get_stream_key (m_id m2) rows2 = Some row"
      "unwrap_key (kh_wrapper h) (kr_wrapped_key row) (kr_wrap_nonce row) (kr_kek_version row) = Inr (m_key m2)"
    using setup_serves_key [OF assms(2) ok1(1) assms(4-6)] by blast
  ultimately show ?thesis using id1 id2 by simp
qed

theorem second_setup_replaces_key_witness:
  "\<exists>m1 rows1 m2 rows2.
    setup_hls_encryption demo_draws ''h'' ''video'' ''http://x/'' (kh_wrapper demo_handler) [] = Inr (m1, rows1) \<and>
    setup_hls_encryption (demo_draws\<lparr>d_key := Some ''another key 1234'', d_uuid := ''id-2''\<rparr>) ''h'' ''video''
      ''http://x/'' (kh_wrapper demo_handler) rows1 = Inr (m2, rows2) \<and>
    m_id m2 = m_id m1 \<and> m_key m1 \<noteq> m_key m2"
proof -
  let ?d2 = "demo_draws\<lparr>d_key := Some ''another key 1234'', d_uuid := ''id-2''\<rparr>"
  obtain m1 rows1 where 1: "setup_hls_encryption demo_draws ''h'' ''video'' ''http://x/'' (kh_wrapper demo_handler) [] = Inr (m1, rows1)"
      "m_key m1 = ''0123456789abcdef''"
    using demo_setup by blast
  obtain m2 rows2 where 2: "setup_hls_encryption ?d2 ''h'' ''video'' ''http://x/'' (kh_wrapper demo_handler) rows1 = Inr (m2, rows2)"
      "m_key m2 = ''another key 1234''"
    using 1 by (auto simp: setup_hls_encryption_def demo_draws_def wrap_key_def upsert_stream_key_def same_asset_def Let_def)
  have "m_id m2 = m_id m1"
    using second_setup_replaces_key [OF 1(1) 2(1), of "''nonce-123456''"]
    by (simp add: key_table_ok_def demo_draws_def demo_handler_def plain_aead_ok) (simp add: plain_aead_def)
  with 1 2 show ?thesis by force
qed

end
