(* ===== verification/VideoProcessor.thy ===== *)
theory VideoProcessor
  imports GoNumbers Encryption
begin

text \<open>
  Video renditions, \<open>internal/video/processor.go\<close>, \<open>transcode.go\<close>, \<open>preview.go\<close> and \<open>cover.go\<close>.
  The tools (ffmpeg, ffprobe, packager) are outside the repository: a call is modelled by the
  argument list the source builds and by a parameter that returns its result. The arithmetic the
  source does in float64 on sizes and angles is done exactly, on rationals.
\<close>

section \<open>Renditions\<close>

datatype codec = H264 | AV1

definition codec_name :: "codec \<Rightarrow> string" where
  "codec_name c = (case c of H264 \<Rightarrow> ''h264'' | AV1 \<Rightarrow> ''av1'')"

record variant =
  va_label :: string
  va_codec :: codec
  va_width :: int
  va_height :: int
  va_crf :: int
  va_abitr :: string

record variant_spec =
  sp_rung :: int
  sp_width :: int
  sp_height :: int
  sp_av1_crf :: int
  sp_h264_crf :: int
  sp_audio_rate :: string

definition canonical_variant_specs :: "variant_spec list" where
  "canonical_variant_specs =
     [\<lparr>sp_rung = 1080, sp_width = 1920, sp_height = 1080, sp_av1_crf = 30, sp_h264_crf = 22, sp_audio_rate = ''128k''\<rparr>,
      \<lparr>sp_rung = 720, sp_width = 1280, sp_height = 720, sp_av1_crf = 32, sp_h264_crf = 23, sp_audio_rate = ''96k''\<rparr>,
      \<lparr>sp_rung = 480, sp_width = 854, sp_height = 480, sp_av1_crf = 34, sp_h264_crf = 24, sp_audio_rate = ''64k''\<rparr>,
      \<lparr>sp_rung = 360, sp_width = 640, sp_height = 360, sp_av1_crf = 36, sp_h264_crf = 26, sp_audio_rate = ''48k''\<rparr>,
      \<lparr>sp_rung = 240, sp_width = 426, sp_height = 240, sp_av1_crf = 38, sp_h264_crf = 28, sp_audio_rate = ''32k''\<rparr>]"

definition rung_label :: "int \<Rightarrow> codec \<Rightarrow> string" where
  "rung_label rung c = ''r'' @ show_int rung @ ''_'' @ codec_name c"

definition spec_variants :: "variant_spec \<Rightarrow> variant list" where
  "spec_variants s =
     [\<lparr>va_label = rung_label (sp_rung s) AV1, va_codec = AV1, va_width = sp_width s, va_height = sp_height s,
       va_crf = sp_av1_crf s, va_abitr = sp_audio_rate s\<rparr>,
      \<lparr>va_label = rung_label (sp_rung s) H264, va_codec = H264, va_width = sp_width s, va_height = sp_height s,
       va_crf = sp_h264_crf s, va_abitr = sp_audio_rate s\<rparr>]"

definition default_variants :: "variant list" where
  "default_variants = concat (map spec_variants canonical_variant_specs)"

definition h264_only_variants :: "variant list" where
  "h264_only_variants = map (\<lambda>s. spec_variants s ! 1) canonical_variant_specs"

record audio_track =
  at_id :: string
  at_role :: string
  at_language :: string
  at_codec :: string
  at_channels :: int
  at_bitrate :: string

definition default_audio_track :: audio_track where
  "default_audio_track = \<lparr>at_id = ''und_aac_2ch'', at_role = ''main'', at_language = ''und'',
     at_codec = ''aac'', at_channels = 2, at_bitrate = ''128k''\<rparr>"

section \<open>Geometry\<close>

definition round_half_away :: "rat \<Rightarrow> int" where
  "round_half_away q = (if q \<ge> 0 then \<lfloor>q + 1 / 2\<rfloor> else - \<lfloor>1 / 2 - q\<rfloor>)"

definition normalize_rotation :: "rat \<Rightarrow> int" where
  "normalize_rotation value =
     (let n = round_half_away value;
          r0 = (if n < 0 then - ((- n) mod 360) else n mod 360);
          r = (if r0 < 0 then r0 + 360 else r0)
      in if r mod 90 \<noteq> 0 then 0 else r)"

record probe_stream =
  st_width :: int
  st_height :: int
  st_rotate_tag :: "string option"
  st_side_rotations :: "rat list"

text \<open>\<open>parse_float\<close> is \<open>strconv.ParseFloat\<close>.\<close>

definition stream_rotation :: "(string \<Rightarrow> rat option) \<Rightarrow> probe_stream \<Rightarrow> int" where
  "stream_rotation parse_float s =
     (case filter (\<lambda>r. r \<noteq> 0) (st_side_rotations s) of
        r # rs \<Rightarrow> normalize_rotation r
      | [] \<Rightarrow>
          (case st_rotate_tag s of
             None \<Rightarrow> 0
           | Some raw \<Rightarrow> (case parse_float (trim_space raw) of None \<Rightarrow> 0 | Some v \<Rightarrow> normalize_rotation v)))"

datatype video_error =
    ToolFailed string | NoVideoStream | BadDimensions int int | MissingEncodedTrack string | IncompleteEncryption

definition video_geometry ::
    "(string \<Rightarrow> rat option) \<Rightarrow> (string, probe_stream list) result \<Rightarrow> (video_error, int \<times> int) result" where
  "video_geometry parse_float probed =
     (case probed of
        Inl m \<Rightarrow> Inl (ToolFailed m)
      | Inr [] \<Rightarrow> Inl NoVideoStream
      | Inr (s # ss) \<Rightarrow>
          if st_width s \<le> 0 \<or> st_height s \<le> 0 then Inl (BadDimensions (st_width s) (st_height s))
          else let r = stream_rotation parse_float s in
            if r = 90 \<or> r = 270 then Inr (st_height s, st_width s) else Inr (st_width s, st_height s))"

definition even_at_most :: "int \<Rightarrow> int" where
  "even_at_most v = (if v \<le> 2 then 2 else if v mod 2 \<noteq> 0 then v - 1 else v)"

definition even_nearest_at_most :: "rat \<Rightarrow> int \<Rightarrow> int" where
  "even_nearest_at_most value limit0 =
     (let limit = even_at_most limit0 in
      if limit \<le> 2 then 2
      else let n = round_half_away (value / 2) * 2 in
        if n \<le> 2 then 2 else if n > limit then limit else n)"

definition fit_variant_dimensions :: "int \<Rightarrow> int \<Rightarrow> int \<Rightarrow> int \<Rightarrow> int \<times> int" where
  "fit_variant_dimensions source_w source_h max_w max_h =
     (if source_w \<le> 0 \<or> source_h \<le> 0 then (max_w, max_h)
      else let limit_w = min max_w source_w; limit_h = min max_h source_h;
               source_aspect = (of_int source_w / of_int source_h :: rat);
               max_aspect = (of_int max_w / of_int max_h :: rat)
      in if source_aspect \<ge> max_aspect then
           (let width = even_at_most limit_w;
                height = even_nearest_at_most (of_int width / source_aspect) limit_h
            in if height > limit_h then
                 (let height = even_at_most limit_h
                  in (even_nearest_at_most (of_int height * source_aspect) limit_w, height))
               else (width, height))
         else
           (let height = even_at_most limit_h;
                width = even_nearest_at_most (of_int height * source_aspect) limit_w
            in if width > limit_w then
                 (let width = even_at_most limit_w
                  in (width, even_nearest_at_most (of_int width / source_aspect) limit_h))
               else (width, height)))"

definition fit_variant :: "int \<Rightarrow> int \<Rightarrow> variant \<Rightarrow> variant" where
  "fit_variant source_w source_h v =
     (case fit_variant_dimensions source_w source_h (va_width v) (va_height v) of
        (w, h) \<Rightarrow> v\<lparr>va_width := w, va_height := h\<rparr>)"

definition select_variants_for_codec :: "variant list \<Rightarrow> int \<Rightarrow> int \<Rightarrow> int \<Rightarrow> variant list" where
  "select_variants_for_codec templates source_w source_h short_edge =
     (let selected = map (fit_variant source_w source_h)
            (filter (\<lambda>t. \<not> min (va_width t) (va_height t) > short_edge) templates)
      in if selected \<noteq> [] \<or> templates = [] then selected
         else [fit_variant source_w source_h (last templates)])"

text \<open>The codecs in the order of their first template.\<close>

definition codec_order :: "variant list \<Rightarrow> codec list" where
  "codec_order templates = rev (remdups (rev (map va_codec templates)))"

definition variants_for_codec :: "variant list \<Rightarrow> codec \<Rightarrow> variant list" where
  "variants_for_codec vs c = filter (\<lambda>v. va_codec v = c) vs"

definition resolve_transcode_variants :: "variant list \<Rightarrow> int \<Rightarrow> int \<Rightarrow> variant list" where
  "resolve_transcode_variants templates source_w source_h =
     (if templates = [] \<or> source_w \<le> 0 \<or> source_h \<le> 0 then templates
      else concat (map (\<lambda>c. select_variants_for_codec (variants_for_codec templates c) source_w source_h
                              (min source_w source_h)) (codec_order templates)))"

section \<open>Bit rates\<close>

text \<open>\<open>parseBitrate\<close>: the product is taken in 64 bits.\<close>

definition parse_bitrate :: "string \<Rightarrow> int" where
  "parse_bitrate value =
     (let v = trim_space (to_lower value) in
      if v = [] then 0
      else if has_suffix v ''k'' then
        (case atoi (trim_suffix v ''k'') of None \<Rightarrow> 0 | Some n \<Rightarrow> wrap_int64 (n * 1000))
      else if has_suffix v ''m'' then
        (case atoi (trim_suffix v ''m'') of None \<Rightarrow> 0 | Some n \<Rightarrow> wrap_int64 (n * 1000000))
      else (case atoi v of None \<Rightarrow> 0 | Some n \<Rightarrow> n))"

definition estimate_bandwidth :: "variant \<Rightarrow> int" where
  "estimate_bandwidth v =
     (let base = (if va_height v \<ge> 1080 then 5000000 else if va_height v \<ge> 720 then 2500000
            else if va_height v \<ge> 480 then 1000000 else if va_height v \<ge> 360 then 500000
            else if va_height v \<ge> 240 then 300000 else 200000)
      in if va_codec v = AV1 then base * 60 div 100 else base)"

section \<open>Facts about sizes\<close>

lemma even_at_most_props:
  "even (even_at_most v)" "2 \<le> even_at_most v" "2 \<le> v \<Longrightarrow> even_at_most v \<le> v" "even_at_most v \<le> max 2 v"
proof -
  show "even (even_at_most v)" unfolding even_at_most_def by presburger
qed (simp_all add: even_at_most_def)

lemma even_nearest_cases:
  "even_nearest_at_most q l = 2 \<or> even_nearest_at_most q l = even_at_most l \<or>
   (\<exists>n. even_nearest_at_most q l = n * 2 \<and> 2 < n * 2 \<and> n * 2 \<le> even_at_most l)"
  unfolding even_nearest_at_most_def Let_def by (metis linorder_not_less)

lemma even_nearest_props:
  "even (even_nearest_at_most q l)" "2 \<le> even_nearest_at_most q l" "even_nearest_at_most q l \<le> even_at_most l"
proof -
  have "even (even_nearest_at_most q l) \<and> 2 \<le> even_nearest_at_most q l \<and> even_nearest_at_most q l \<le> even_at_most l"
    using even_nearest_cases [of q l] even_at_most_props(1,2) [of l] by auto
  then show "even (even_nearest_at_most q l)" "2 \<le> even_nearest_at_most q l"
    "even_nearest_at_most q l \<le> even_at_most l" by blast+
qed

text \<open>
  Every rendition has a size an encoder accepts: even, at least two pixels, within the template
  and never larger than the source, whatever the aspect ratio.
\<close>

theorem fit_dimensions_ok:
  assumes "0 < source_w" "0 < source_h" and "fit_variant_dimensions source_w source_h max_w max_h = (w, h)"
  shows "even w \<and> even h \<and> 2 \<le> w \<and> 2 \<le> h \<and> w \<le> max 2 (min max_w source_w) \<and> h \<le> max 2 (min max_h source_h)"
proof -
  note near = even_nearest_props and most = even_at_most_props
  have le: "even_nearest_at_most q l \<le> max 2 l" for q l
    using near(3) [of q l] most(4) [of l] by linarith
  show ?thesis
    using assms near most le
    by (auto simp: fit_variant_dimensions_def Let_def split: if_splits)
qed

theorem fit_dimensions_ok_witness:
  "fit_variant_dimensions 1080 1920 1920 1080 = (608, 1080) \<and> even (608::int) \<and> even (1080::int)"
proof -
  have *: "fit_variant_dimensions 1080 1920 1920 1080 = (608, 1080)"
    by (simp add: fit_variant_dimensions_def even_at_most_def even_nearest_at_most_def round_half_away_def Let_def floor_eq_iff)
  from fit_dimensions_ok [OF _ _ this] * show ?thesis by simp
qed

text \<open>
  The rotation of a source is one of the four right angles for every value a probe can report.
\<close>

theorem normalize_rotation_right_angle:
  "normalize_rotation value \<in> {0, 90, 180, 270}"
proof -
  have step: "(if r mod 90 \<noteq> 0 then 0 else r) \<in> {0, 90, 180, 270 :: int}" if "0 \<le> r" "r < 360" for r
  proof (cases "r mod 90 = 0")
    case True
    then obtain k where k: "r = 90 * k" by auto
    with that have "0 \<le> k" "k < 4" by simp_all
    then have "k \<in> {0, 1, 2, 3}" by auto
    with k show ?thesis by auto
  qed simp
  define n where "n = round_half_away value"
  define r0 where "r0 = (if n < 0 then - ((- n) mod 360) else n mod 360)"
  have "- 360 < r0" "r0 < 360" by (simp_all add: r0_def) (smt (verit) pos_mod_bound pos_mod_sign)+
  then have "0 \<le> (if r0 < 0 then r0 + 360 else r0)" "(if r0 < 0 then r0 + 360 else r0) < 360" by simp_all
  from step [OF this] show ?thesis
    by (simp only: normalize_rotation_def Let_def n_def [symmetric] r0_def [symmetric])
qed

section \<open>The selected renditions\<close>

lemma set_codec_order: "set (codec_order ts) = va_codec ` set ts"
  by (simp add: codec_order_def)

lemma fit_variant_keeps [simp]:
  "va_label (fit_variant w h v) = va_label v" "va_codec (fit_variant w h v) = va_codec v"
  by (simp_all add: fit_variant_def split: prod.split)

lemma select_from:
  "v \<in> set (select_variants_for_codec ts w h e) \<Longrightarrow> \<exists>t \<in> set ts. v = fit_variant w h t"
  by (auto simp: select_variants_for_codec_def Let_def split: if_splits)

lemma select_nonempty: "ts \<noteq> [] \<Longrightarrow> select_variants_for_codec ts w h e \<noteq> []"
  by (simp add: select_variants_for_codec_def Let_def)

lemma resolved_codecs:
  assumes "0 < source_w" "0 < source_h"
  shows "va_codec ` set (resolve_transcode_variants templates source_w source_h) = va_codec ` set templates \<and>
    (\<forall>v \<in> set (resolve_transcode_variants templates source_w source_h).
       \<exists>t \<in> set templates. v = fit_variant source_w source_h t)"
proof -
  let ?r = "resolve_transcode_variants templates source_w source_h"
  let ?sel = "\<lambda>c. select_variants_for_codec (variants_for_codec templates c) source_w source_h (min source_w source_h)"
  have r: "set ?r = (\<Union>c \<in> va_codec ` set templates. set (?sel c))"
    using assms by (cases "templates = []") (simp_all add: resolve_transcode_variants_def set_codec_order)
  have from1: "\<exists>t \<in> set templates. v = fit_variant source_w source_h t \<and> va_codec t = c" if "v \<in> set (?sel c)" for v c
    using select_from [OF that] by (auto simp: variants_for_codec_def)
  have some: "\<exists>v \<in> set (?sel c). va_codec v = c" if "c \<in> va_codec ` set templates" for c
  proof -
    from that have "variants_for_codec templates c \<noteq> []" by (auto simp: variants_for_codec_def filter_empty_conv)
    then obtain v where v: "v \<in> set (?sel c)"
      using select_nonempty by (meson ex_in_conv set_empty)
    from from1 [OF v] have "va_codec v = c" by auto
    with v show ?thesis by blast
  qed
  have tmpl: "\<exists>t \<in> set templates. v = fit_variant source_w source_h t \<and> va_codec v = va_codec t" if "v \<in> set ?r" for v
  proof -
    from that r obtain c where "v \<in> set (?sel c)" by auto
    from from1 [OF this] show ?thesis by auto
  qed
  have "va_codec ` set ?r = va_codec ` set templates"
  proof (intro equalityI subsetI)
    fix c assume "c \<in> va_codec ` set ?r"
    then show "c \<in> va_codec ` set templates" using tmpl by (metis (mono_tags, lifting) imageE imageI)
  next
    fix c assume c: "c \<in> va_codec ` set templates"
    from some [OF c] obtain v where "v \<in> set (?sel c)" "va_codec v = c" by auto
    moreover from this(1) c have "v \<in> set ?r" unfolding r by (intro UN_I)
    ultimately show "c \<in> va_codec ` set ?r" by auto
  qed
  with tmpl show ?thesis by (meson)
qed

text \<open>
  Whatever the source size, every codec among the templates keeps at least one rendition, and
  each rendition is a template scaled to the source: same label and codec, size fitted.
\<close>

theorem resolved_variants_cover_codecs:
  assumes "0 < source_w" "0 < source_h"
  shows "va_codec ` set (resolve_transcode_variants templates source_w source_h) = va_codec ` set templates \<and>
    (\<forall>v \<in> set (resolve_transcode_variants templates source_w source_h).
       \<exists>t \<in> set templates. v = fit_variant source_w source_h t)"
  using assms by (rule resolved_codecs)

theorem resolved_variants_cover_codecs_witness:
  "va_codec ` set (resolve_transcode_variants default_variants 100 60) = {AV1, H264}"
  using resolved_variants_cover_codecs [of 100 60 default_variants]
  by (auto simp: default_variants_def canonical_variant_specs_def spec_variants_def)

section \<open>Packaging\<close>

definition filepath_join :: "string list \<Rightarrow> string" where
  "filepath_join parts = join_with ''/'' parts"

definition audio_init_path :: "audio_track \<Rightarrow> string" where
  "audio_init_path t = filepath_join [''audio'', at_id t, ''init.mp4'']"

definition audio_playlist_path :: "audio_track \<Rightarrow> string" where
  "audio_playlist_path t = filepath_join [''audio'', at_id t, ''playlist.m3u8'']"

definition video_init_path :: "variant \<Rightarrow> string" where
  "video_init_path v = filepath_join [''video'', va_label v, ''init.mp4'']"

definition video_playlist_path :: "variant \<Rightarrow> string" where
  "video_playlist_path v = filepath_join [''video'', va_label v, ''playlist.m3u8'']"

definition video_segment_pattern :: "variant \<Rightarrow> string" where
  "video_segment_pattern v = filepath_join [''video'', va_label v, ''seg_$Number$.m4s'']"

definition audio_segment_pattern :: "audio_track \<Rightarrow> string" where
  "audio_segment_pattern t = filepath_join [''audio'', at_id t, ''seg_$Number$.m4s'']"

definition has_packager_language :: "string \<Rightarrow> bool" where
  "has_packager_language l = (let l' = trim_space (to_lower l) in l' \<noteq> [] \<and> l' \<noteq> ''und'')"

record encryption_config =
  ec_key_id :: string
  ec_key :: string
  ec_scheme :: string
  ec_key_uri :: string

definition config_of_material :: "material \<Rightarrow> encryption_config" where
  "config_of_material m =
     \<lparr>ec_key_id = hex_encode (m_key_id m), ec_key = m_key m, ec_scheme = m_scheme m, ec_key_uri = m_key_uri m\<rparr>"

text \<open>\<open>title\<close> is the title casing of golang.org/x/text.\<close>

definition audio_name :: "(string \<Rightarrow> string) \<Rightarrow> audio_track \<Rightarrow> string" where
  "audio_name title t = (if at_role t \<noteq> [] then title (at_role t) else ''Audio'')"

definition build_audio_descriptor :: "(string \<Rightarrow> string) \<Rightarrow> string \<Rightarrow> string \<Rightarrow> audio_track \<Rightarrow> string" where
  "build_audio_descriptor title input out_dir t =
     join_with '',''
       ([''in='' @ input, ''stream=audio'',
         ''init_segment='' @ path_join [out_dir, audio_init_path t],
         ''segment_template='' @ path_join [out_dir, audio_segment_pattern t],
         ''playlist_name='' @ path_join [out_dir, audio_playlist_path t],
         ''hls_group_id=audio'', ''hls_name='' @ audio_name title t] @
        (if has_packager_language (at_language t) then [''lang='' @ at_language t] else []))"

definition build_video_descriptor :: "string \<Rightarrow> string \<Rightarrow> variant \<Rightarrow> string" where
  "build_video_descriptor input out_dir v =
     join_with '',''
       [''in='' @ input, ''stream=video'',
        ''init_segment='' @ path_join [out_dir, video_init_path v],
        ''segment_template='' @ path_join [out_dir, video_segment_pattern v],
        ''playlist_name='' @ path_join [out_dir, video_playlist_path v],
        ''bw='' @ show_int (estimate_bandwidth v)]"

fun video_descriptors ::
    "string \<Rightarrow> (string \<times> string) list \<Rightarrow> variant list \<Rightarrow> (video_error, string list) result" where
  "video_descriptors out_dir encoded [] = Inr []"
| "video_descriptors out_dir encoded (v # vs) =
     (case map_of encoded (va_label v) of
        None \<Rightarrow> Inl (MissingEncodedTrack (va_label v))
      | Some path \<Rightarrow>
          (case video_descriptors out_dir encoded vs of
             Inl e \<Rightarrow> Inl e | Inr ds \<Rightarrow> Inr (build_video_descriptor (path_clean path) out_dir v # ds)))"

text \<open>The encryption arguments: an incomplete configuration is an error, never a plain stream.\<close>

definition encryption_args :: "encryption_config option \<Rightarrow> (video_error, string list) result" where
  "encryption_args ec =
     (case ec of
        None \<Rightarrow> Inr []
      | Some c \<Rightarrow>
          if ec_key c = [] \<or> ec_key_id c = [] \<or> ec_key_uri c = [] then Inl IncompleteEncryption
          else Inr [''--enable_raw_key_encryption'', ''--protection_scheme'',
                    (if ec_scheme c = [] then ''cbcs'' else ec_scheme c), ''--clear_lead'', ''0'',
                    ''--keys'', ''label=:key_id='' @ ec_key_id c @ '':key='' @ hex_encode (ec_key c),
                    ''--hls_key_uri'', ec_key_uri c])"

definition package_args ::
    "(string \<Rightarrow> string) \<Rightarrow> string \<Rightarrow> string \<Rightarrow> (string \<times> string) list \<Rightarrow> variant list \<Rightarrow> audio_track \<Rightarrow> int \<Rightarrow>
     encryption_config option \<Rightarrow> (video_error, string list) result" where
  "package_args title out_dir audio_path encoded variants track segment_sec ec =
     bind_result (video_descriptors out_dir encoded variants) (\<lambda>vds.
     bind_result (encryption_args ec) (\<lambda>eargs.
       Inr ((if audio_path \<noteq> [] then [build_audio_descriptor title (path_clean audio_path) out_dir track] else []) @ vds @
            [''--hls_master_playlist_output'', path_join [out_dir, ''master.m3u8''],
             ''--hls_playlist_type'', ''VOD'', ''--segment_duration'', show_int segment_sec,
             ''--fragment_duration'', show_int segment_sec] @
            (if audio_path \<noteq> [] \<and> has_packager_language (at_language track)
             then [''--default_language'', at_language track] else []) @ eargs)))"

section \<open>Encoder arguments\<close>

definition codec_args :: "variant \<Rightarrow> string list" where
  "codec_args v =
     (case va_codec v of
        AV1 \<Rightarrow> [''-c:v'', ''libsvtav1'', ''-preset'', ''6'', ''-crf'', show_int (va_crf v)]
      | H264 \<Rightarrow> [''-c:v'', ''libx264'', ''-preset'', ''fast'', ''-crf'', show_int (va_crf v)])"

definition build_shared_video_filter :: "variant list \<Rightarrow> string" where
  "build_shared_video_filter vs =
     join_with '';''
       ((''[0:v:0]split='' @ show_nat (length vs) @ concat (map (\<lambda>i. ''[vsrc'' @ show_nat i @ '']'') [0..<length vs])) #
        map (\<lambda>(i, v). ''[vsrc'' @ show_nat i @ '']scale='' @ show_int (va_width v) @ '':'' @ show_int (va_height v) @
               '',setsar=1[vout'' @ show_nat i @ '']'') (enumerate 0 vs))"

definition encode_single_args :: "string \<Rightarrow> string \<Rightarrow> variant \<Rightarrow> string list" where
  "encode_single_args input output v =
     [''-y'', ''-i'', input, ''-map'', ''0:v:0'', ''-an''] @ codec_args v @
     [''-vf'', ''scale='' @ show_int (va_width v) @ '':'' @ show_int (va_height v) @ '',setsar=1'',
      ''-movflags'', ''+faststart'', output]"

definition encode_video_args :: "string \<Rightarrow> string \<Rightarrow> variant list \<Rightarrow> string list" where
  "encode_video_args input out_dir vs =
     (case vs of
        [v] \<Rightarrow> encode_single_args input (path_join [out_dir, va_label v @ ''.mp4'']) v
      | _ \<Rightarrow> [''-y'', ''-i'', input, ''-filter_complex'', build_shared_video_filter vs] @
          concat (map (\<lambda>(i, v). [''-map'', ''[vout'' @ show_nat i @ '']'', ''-an''] @ codec_args v @
                     [''-movflags'', ''+faststart'', path_join [out_dir, va_label v @ ''.mp4'']]) (enumerate 0 vs)))"

definition encode_audio_args :: "string \<Rightarrow> string \<Rightarrow> audio_track \<Rightarrow> string list" where
  "encode_audio_args input output t =
     [''-y'', ''-i'', input, ''-map'', ''0:a:0'', ''-vn'', ''-c:a'', ''aac'', ''-b:a'', at_bitrate t,
      ''-movflags'', ''+faststart'', output]"

section \<open>Transcode\<close>

record packaged_audio =
  pa_track :: audio_track
  pa_bitrate :: int
  pa_playlist :: string
  pa_init :: string
  pa_segments :: "string list"

record packaged_video =
  pv_variant :: variant
  pv_bitrate :: int
  pv_playlist :: string
  pv_init :: string
  pv_segments :: "string list"
  pv_audio_track :: string

record transcode_result =
  tr_master :: string
  tr_audio :: "packaged_audio list"
  tr_video :: "packaged_video list"

text \<open>
  What the tools answer: the probed streams, whether the source has audio, the result of every tool
  run as a function of the argument list, the files of a glob. Scratch directories are
  \<open>mt_scratch\<close>, or an error.
\<close>

record media_tools =
  mt_parse_float :: "string \<Rightarrow> rat option"
  mt_title :: "string \<Rightarrow> string"
  mt_streams :: "(string, probe_stream list) result"
  mt_has_audio :: "(string, bool) result"
  mt_scratch :: "(string, string) result"
  mt_ffmpeg :: "string list \<Rightarrow> (string, unit) result"
  mt_packager :: "string list \<Rightarrow> (string, unit) result"
  mt_glob :: "string \<Rightarrow> string list"

fun encode_codecs ::
    "media_tools \<Rightarrow> string \<Rightarrow> string \<Rightarrow> variant list \<Rightarrow> codec list \<Rightarrow> (video_error, (string \<times> string) list) result" where
  "encode_codecs T input dir vs [] = Inr []"
| "encode_codecs T input dir vs (c # cs) =
     (let mine = variants_for_codec vs c in
      if mine = [] then encode_codecs T input dir vs cs
      else case mt_ffmpeg T (encode_video_args input dir mine) of
        Inl m \<Rightarrow> Inl (ToolFailed m)
      | Inr u \<Rightarrow>
          (case encode_codecs T input dir vs cs of
             Inl e \<Rightarrow> Inl e
           | Inr rest \<Rightarrow> Inr (map (\<lambda>v. (va_label v, path_join [dir, va_label v @ ''.mp4''])) mine @ rest)))"

definition package_result ::
    "media_tools \<Rightarrow> bool \<Rightarrow> string \<Rightarrow> audio_track \<Rightarrow> variant list \<Rightarrow> transcode_result" where
  "package_result T has_audio out_dir track vs =
     \<lparr>tr_master = ''master.m3u8'',
      tr_audio = (if has_audio
        then [\<lparr>pa_track = track, pa_bitrate = parse_bitrate (at_bitrate track), pa_playlist = audio_playlist_path track,
               pa_init = audio_init_path track,
               pa_segments = mt_glob T (path_join [out_dir, ''audio/'' @ at_id track @ ''/seg_*.m4s''])\<rparr>] else []),
      tr_video = map (\<lambda>v. \<lparr>pv_variant = v, pv_bitrate = estimate_bandwidth v, pv_playlist = video_playlist_path v,
        pv_init = video_init_path v,
        pv_segments = mt_glob T (path_join [out_dir, ''video/'' @ va_label v @ ''/seg_*.m4s'']),
        pv_audio_track = (if has_audio then at_id track else [])\<rparr>) vs\<rparr>"

text \<open>\<open>Transcode\<close> with the default variants, audio track and segment length, as the workers call it.\<close>

definition transcode ::
    "media_tools \<Rightarrow> string \<Rightarrow> string \<Rightarrow> encryption_config option \<Rightarrow> (video_error, transcode_result) result" where
  "transcode T input out_dir ec =
     bind_result (video_geometry (mt_parse_float T) (mt_streams T)) (\<lambda>(sw, sh).
     let vs = resolve_transcode_variants default_variants sw sh; track = default_audio_track in
     bind_result (map_err ToolFailed (mt_scratch T)) (\<lambda>dir.
     bind_result (map_err ToolFailed (mt_has_audio T)) (\<lambda>has_audio.
     let audio_path = (if has_audio then path_join [dir, at_id track @ ''.mp4''] else []) in
     bind_result (if has_audio then map_err ToolFailed (mt_ffmpeg T (encode_audio_args input audio_path track)) else Inr ()) (\<lambda>_.
     bind_result (encode_codecs T input dir vs [AV1, H264]) (\<lambda>encoded.
     bind_result (package_args (mt_title T) out_dir audio_path encoded vs track 6 ec) (\<lambda>args.
     bind_result (map_err ToolFailed (mt_packager T args)) (\<lambda>_.
       Inr (package_result T has_audio out_dir track vs))))))))"

section \<open>What transcoding guarantees\<close>

lemma encode_codecs_keys:
  "encode_codecs T input dir vs cs = Inr encoded \<Longrightarrow> v \<in> set vs \<Longrightarrow> va_codec v \<in> set cs \<Longrightarrow>
   map_of encoded (va_label v) \<noteq> None"
proof (induction cs arbitrary: encoded)
  case (Cons c cs)
  let ?mine = "variants_for_codec vs c"
  show ?case
  proof (cases "?mine = []")
    case True
    then have "va_codec v \<noteq> c" using Cons.prems(2) by (auto simp: variants_for_codec_def filter_empty_conv)
    with Cons True show ?thesis by simp
  next
    case False
    then obtain rest where rest: "encode_codecs T input dir vs cs = Inr rest"
      and enc: "encoded = map (\<lambda>v. (va_label v, path_join [dir, va_label v @ ''.mp4''])) ?mine @ rest"
      using Cons.prems(1) by (auto simp: Let_def split: sum.splits)
    have "va_label v \<in> fst ` set encoded"
    proof (cases "va_codec v = c")
      case True
      then have "v \<in> set ?mine" using Cons.prems(2) by (simp add: variants_for_codec_def)
      then show ?thesis by (force simp: enc)
    next
      case False
      then have "map_of rest (va_label v) \<noteq> None" using Cons.IH [OF rest] Cons.prems by simp
      then show ?thesis by (auto simp: enc map_of_eq_None_iff)
    qed
    then show ?thesis by (simp add: map_of_eq_None_iff)
  qed
qed simp

lemma video_descriptors_ok:
  "(\<And>v. v \<in> set vs \<Longrightarrow> map_of encoded (va_label v) \<noteq> None) \<Longrightarrow> \<exists>ds. video_descriptors out_dir encoded vs = Inr ds"
  by (induction vs) (fastforce split: option.splits sum.splits)+

lemma codec_all: "va_codec v \<in> {AV1, H264}"
  by (cases "va_codec v") simp_all

lemma encode_codecs_error: "encode_codecs T input dir vs cs = Inl e \<Longrightarrow> \<exists>m. e = ToolFailed m"
  by (induction cs) (auto simp: Let_def split: if_splits sum.splits)

lemma video_geometry_error: "video_geometry pf s \<noteq> Inl (MissingEncodedTrack l)"
  by (auto simp: video_geometry_def Let_def split: sum.splits list.splits)

lemma package_args_error:
  assumes "encode_codecs T input dir vs [AV1, H264] = Inr encoded"
  shows "package_args title out_dir ap encoded vs track sec ec \<noteq> Inl (MissingEncodedTrack l)"
proof -
  obtain ds where "video_descriptors out_dir encoded vs = Inr ds"
    using video_descriptors_ok encode_codecs_keys [OF assms] codec_all by (metis empty_set list.simps(15))
  then show ?thesis
    by (auto simp: package_args_def encryption_args_def split: option.splits if_splits)
qed

lemma bind_result_Inl_iff: "bind_result r f = Inl e \<longleftrightarrow> r = Inl e \<or> (\<exists>a. r = Inr a \<and> f a = Inl e)"
  by (cases r) auto

lemma map_err_Inl_iff: "map_err g r = Inl e \<longleftrightarrow> (\<exists>e'. r = Inl e' \<and> e = g e')"
  by (cases r) auto

text \<open>
  The packaging step never runs into a missing track: every resolved rendition was encoded,
  whatever the source and whatever the tools answer.
\<close>

theorem transcode_no_missing_track:
  "transcode T input out_dir ec \<noteq> Inl (MissingEncodedTrack l)"
proof
  assume "transcode T input out_dir ec = Inl (MissingEncodedTrack l)"
  then show False
    by (auto simp: transcode_def Let_def bind_result_Inl_iff map_err_Inl_iff video_geometry_error package_args_error
      split: if_splits dest: encode_codecs_error simp del: encode_codecs.simps)
qed

lemma video_geometry_pos: "video_geometry pf s = Inr (w, h) \<Longrightarrow> 0 < w \<and> 0 < h"
  by (auto simp: video_geometry_def Let_def split: sum.splits list.splits if_splits)

lemma default_codecs: "va_codec ` set default_variants = {AV1, H264}"
  by (auto simp: default_variants_def canonical_variant_specs_def spec_variants_def)

lemma encryption_args_ok:
  "encryption_args (Some c) = Inr args \<Longrightarrow>
   ec_key c \<noteq> [] \<and> ec_key_id c \<noteq> [] \<and> ''--enable_raw_key_encryption'' \<in> set args \<and>
   (''label=:key_id='' @ ec_key_id c @ '':key='' @ hex_encode (ec_key c)) \<in> set args"
  by (simp add: encryption_args_def split: if_splits)  auto

lemma package_args_encrypted:
  assumes "package_args title out_dir ap encoded vs track sec (Some c) = Inr args"
  shows "ec_key c \<noteq> [] \<and> ec_key_id c \<noteq> [] \<and> ''--enable_raw_key_encryption'' \<in> set args \<and>
    (''label=:key_id='' @ ec_key_id c @ '':key='' @ hex_encode (ec_key c)) \<in> set args"
proof -
  obtain eargs where e: "encryption_args (Some c) = Inr eargs"
    using assms by (auto simp: package_args_def bind_result_Inr_iff)
  with assms have "set eargs \<subseteq> set args"
    by (cases "video_descriptors out_dir encoded vs") (auto simp: package_args_def)
  with encryption_args_ok [OF e] show ?thesis by blast
qed

lemma transcode_steps:
  assumes "transcode T input out_dir ec = Inr r"
  obtains sw sh dir has_audio encoded args where
    "video_geometry (mt_parse_float T) (mt_streams T) = Inr (sw, sh)"
    "package_args (mt_title T) out_dir (if has_audio then path_join [dir, at_id default_audio_track @ ''.mp4''] else [])
       encoded (resolve_transcode_variants default_variants sw sh) default_audio_track 6 ec = Inr args"
    "mt_packager T args = Inr ()"
    "r = package_result T has_audio out_dir default_audio_track (resolve_transcode_variants default_variants sw sh)"
  using assms
  by (auto simp: transcode_def Let_def bind_result_Inr_iff simp del: encode_codecs.simps)

text \<open>
  C32. A finished transcode is complete and, when encryption was asked for, encrypted: its video
  tracks are exactly the resolved renditions, both codecs are present, and the packager run that
  produced it carried the raw-key arguments with the configured key, which is not empty.
\<close>

theorem transcode_result_complete:
  assumes "transcode T input out_dir ec = Inr r"
  shows "\<exists>sw sh args. video_geometry (mt_parse_float T) (mt_streams T) = Inr (sw, sh) \<and> mt_packager T args = Inr () \<and>
    map pv_variant (tr_video r) = resolve_transcode_variants default_variants sw sh \<and>
    va_codec ` set (map pv_variant (tr_video r)) = {AV1, H264} \<and>
    (case ec of
       None \<Rightarrow> True
     | Some c \<Rightarrow> ec_key c \<noteq> [] \<and> ''--enable_raw_key_encryption'' \<in> set args \<and>
         (''label=:key_id='' @ ec_key_id c @ '':key='' @ hex_encode (ec_key c)) \<in> set args)"
proof -
  obtain sw sh dir has_audio encoded args where
    geo: "video_geometry (mt_parse_float T) (mt_streams T) = Inr (sw, sh)"
    and args: "package_args (mt_title T) out_dir (if has_audio then path_join [dir, at_id default_audio_track @ ''.mp4''] else [])
       encoded (resolve_transcode_variants default_variants sw sh) default_audio_track 6 ec = Inr args"
    and ran: "mt_packager T args = Inr ()"
    and r: "r = package_result T has_audio out_dir default_audio_track (resolve_transcode_variants default_variants sw sh)"
    using assms by (rule transcode_steps)
  have vs: "map pv_variant (tr_video r) = resolve_transcode_variants default_variants sw sh"
    by (simp add: r package_result_def comp_def)
  have cs: "va_codec ` set (map pv_variant (tr_video r)) = {AV1, H264}"
    unfolding vs using resolved_codecs video_geometry_pos [OF geo] default_codecs by simp
  have "case ec of None \<Rightarrow> True
     | Some c \<Rightarrow> ec_key c \<noteq> [] \<and> ''--enable_raw_key_encryption'' \<in> set args \<and>
         (''label=:key_id='' @ ec_key_id c @ '':key='' @ hex_encode (ec_key c)) \<in> set args"
  proof (cases ec)
    case (Some c)
    show ?thesis using package_args_encrypted [OF args [unfolded Some]] by (simp add: Some)
  qed simp
  with geo ran vs cs show ?thesis by blast
qed

text \<open>Nothing but the tools and an incomplete key configuration can make a transcode fail.\<close>

lemma encode_codecs_total: "(\<And>a. mt_ffmpeg T a = Inr ()) \<Longrightarrow> \<exists>e. encode_codecs T input dir vs cs = Inr e"
  by (induction cs) (auto simp: Let_def)

lemma package_args_total:
  assumes "encode_codecs T input dir vs [AV1, H264] = Inr encoded" and "encryption_args ec = Inr eargs"
  shows "\<exists>args. package_args title out_dir ap encoded vs track sec ec = Inr args"
proof -
  obtain ds where "video_descriptors out_dir encoded vs = Inr ds"
    using video_descriptors_ok encode_codecs_keys [OF assms(1)] codec_all by (metis empty_set list.simps(15))
  with assms(2) show ?thesis by (simp add: package_args_def)
qed

lemma transcode_total:
  assumes geo: "video_geometry (mt_parse_float T) (mt_streams T) = Inr (sw, sh)"
    and tools: "mt_scratch T = Inr dir" "mt_has_audio T = Inr has_audio"
      "\<And>a. mt_ffmpeg T a = Inr ()" "\<And>a. mt_packager T a = Inr ()"
    and key: "encryption_args ec = Inr eargs"
  shows "\<exists>r. transcode T input out_dir ec = Inr r"
proof -
  obtain encoded where e: "encode_codecs T input dir (resolve_transcode_variants default_variants sw sh) [AV1, H264] = Inr encoded"
    using encode_codecs_total tools(3) by blast
  obtain args where a: "package_args (mt_title T) out_dir (if has_audio then path_join [dir, at_id default_audio_track @ ''.mp4''] else [])
      encoded (resolve_transcode_variants default_variants sw sh) default_audio_track 6 ec = Inr args"
    using package_args_total [OF e key] by blast
  show ?thesis
    using a by (auto simp: transcode_def Let_def geo tools e simp del: encode_codecs.simps)
qed

definition demo_tools :: media_tools where
  "demo_tools = \<lparr>mt_parse_float = (\<lambda>s. None), mt_title = (\<lambda>s. s),
     mt_streams = Inr [\<lparr>st_width = 640, st_height = 360, st_rotate_tag = None, st_side_rotations = []\<rparr>],
     mt_has_audio = Inr True, mt_scratch = Inr ''/tmp/e'', mt_ffmpeg = (\<lambda>a. Inr ()), mt_packager = (\<lambda>a. Inr ()),
     mt_glob = (\<lambda>p. [])\<rparr>"

definition demo_encryption :: encryption_config where
  "demo_encryption = \<lparr>ec_key_id = ''00ff'', ec_key = ''k'', ec_scheme = ''cbcs'', ec_key_uri = ''/api/key/h''\<rparr>"

theorem transcode_result_complete_witness:
  "\<exists>r. transcode demo_tools ''in.mp4'' ''/tmp/o'' (Some demo_encryption) = Inr r \<and>
     va_codec ` set (map pv_variant (tr_video r)) = {AV1, H264}"
proof -
  have "\<exists>r. transcode demo_tools ''in.mp4'' ''/tmp/o'' (Some demo_encryption) = Inr r"
    by (rule transcode_total [of _ 640 360 "''/tmp/e''" True _ "projr (encryption_args (Some demo_encryption))"])
      (simp_all add: demo_tools_def demo_encryption_def video_geometry_def stream_rotation_def encryption_args_def Let_def)
  then obtain r where "transcode demo_tools ''in.mp4'' ''/tmp/o'' (Some demo_encryption) = Inr r" by blast
  with transcode_result_complete [OF this] show ?thesis by blast
qed

end
