(* ===== verification/LruCache.thy ===== *)
theory LruCache
  imports Prelude
begin

text \<open>
  The in-memory image cache, \<open>internal/cache/lru.go\<close>. The model keeps the two data structures of
  the source apart: the map \<open>items\<close> from keys to list elements and the recency list \<open>order\<close> (front
  first) of those elements, whose entries live in \<open>heap\<close>. The invariant \<open>lru_wf\<close> says how they
  agree; \<open>lru_list\<close> abstracts a cache to the list of its entries in recency order, on which the
  specification \<open>spec_get\<close>, \<open>spec_set\<close>, \<open>spec_delete\<close> is stated. The locale \<open>byte_cache\<close> is
  the contract the handlers rely on, interpreted on the model as \<open>lru\<close>.
  The mutex makes every operation atomic, so a concurrent execution is a sequence of operations.
\<close>

record entry =
  e_key :: string
  e_data :: string

record lru =
  max_bytes :: int
  cur_bytes :: int
  items :: "string \<Rightarrow> nat option"
  order :: "nat list"
  heap :: "nat \<Rightarrow> entry"
  next_el :: nat

definition lru_new :: "int \<Rightarrow> lru" where
  "lru_new m = \<lparr>max_bytes = m, cur_bytes = 0, items = Map.empty, order = [],
     heap = (\<lambda>_. \<lparr>e_key = [], e_data = []\<rparr>), next_el = 0\<rparr>"

text \<open>\<open>list.MoveToFront\<close>, \<open>list.Remove\<close>: no effect on an element of another list.\<close>

definition move_to_front :: "nat \<Rightarrow> nat list \<Rightarrow> nat list" where
  "move_to_front el xs = (if el \<in> set xs then el # remove1 el xs else xs)"

definition lru_get :: "string \<Rightarrow> lru \<Rightarrow> lru \<times> string option" where
  "lru_get k c =
     (case items c k of
        None \<Rightarrow> (c, None)
      | Some el \<Rightarrow> (c\<lparr>order := move_to_front el (order c)\<rparr>, Some (e_data (heap c el))))"

definition remove_element :: "nat \<Rightarrow> lru \<Rightarrow> lru" where
  "remove_element el c =
     (let e = heap c el in
        c\<lparr>order := remove1 el (order c), items := (items c)(e_key e := None),
          cur_bytes := cur_bytes c - int (length (e_data e))\<rparr>)"

function evict :: "lru \<Rightarrow> lru" where
  "evict c =
     (if cur_bytes c > max_bytes c \<and> order c \<noteq> []
      then evict (remove_element (last (order c)) c) else c)"
  by pat_completeness auto
termination
  by (relation "measure (\<lambda>c. length (order c))")
    (auto simp: remove_element_def Let_def length_remove1)

declare evict.simps [simp del]

text \<open>The two branches of \<open>Set\<close> before eviction: replace the data in place, or push a new entry.\<close>

definition replace_data :: "nat \<Rightarrow> string \<Rightarrow> lru \<Rightarrow> lru" where
  "replace_data el data c =
     (let old = heap c el in
        c\<lparr>cur_bytes := cur_bytes c + (int (length data) - int (length (e_data old))),
          heap := (heap c)(el := old\<lparr>e_data := data\<rparr>),
          order := move_to_front el (order c)\<rparr>)"

definition push_entry :: "string \<Rightarrow> string \<Rightarrow> lru \<Rightarrow> lru" where
  "push_entry k data c =
     (let el = next_el c in
        c\<lparr>order := el # order c, heap := (heap c)(el := \<lparr>e_key = k, e_data = data\<rparr>),
          next_el := el + 1, items := (items c)(k \<mapsto> el),
          cur_bytes := cur_bytes c + int (length data)\<rparr>)"

definition lru_set :: "string \<Rightarrow> string \<Rightarrow> lru \<Rightarrow> lru" where
  "lru_set k data c =
     (if max_bytes c \<le> 0 then c
      else if int (length data) > max_bytes c then c
      else case items c k of
        Some el \<Rightarrow> evict (replace_data el data c)
      | None \<Rightarrow> evict (push_entry k data c))"

definition lru_delete :: "string \<Rightarrow> lru \<Rightarrow> lru \<times> bool" where
  "lru_delete k c =
     (case items c k of None \<Rightarrow> (c, False) | Some el \<Rightarrow> (remove_element el c, True))"

definition lru_len :: "lru \<Rightarrow> nat" where
  "lru_len c = length (order c)"

definition lru_size :: "lru \<Rightarrow> int" where
  "lru_size c = cur_bytes c"

section \<open>Specification: a recency list of key/data pairs\<close>

type_synonym contents = "(string \<times> string) list"

definition total :: "contents \<Rightarrow> int" where
  "total xs = (\<Sum>p\<leftarrow>xs. int (length (snd p)))"

definition del_key :: "string \<Rightarrow> contents \<Rightarrow> contents" where
  "del_key k xs = filter (\<lambda>p. fst p \<noteq> k) xs"

text \<open>The longest prefix whose data fits: what eviction from the tail leaves.\<close>

fun fit :: "int \<Rightarrow> contents \<Rightarrow> contents" where
  "fit m [] = []"
| "fit m (x # xs) =
     (if int (length (snd x)) \<le> m then x # fit (m - int (length (snd x))) xs else [])"

definition spec_get :: "string \<Rightarrow> contents \<Rightarrow> contents \<times> string option" where
  "spec_get k xs =
     (case map_of xs k of None \<Rightarrow> (xs, None) | Some v \<Rightarrow> ((k, v) # del_key k xs, Some v))"

definition spec_set :: "int \<Rightarrow> string \<Rightarrow> string \<Rightarrow> contents \<Rightarrow> contents" where
  "spec_set m k v xs =
     (if int (length v) > m \<or> m \<le> 0 then xs else fit m ((k, v) # del_key k xs))"

definition spec_delete :: "string \<Rightarrow> contents \<Rightarrow> contents \<times> bool" where
  "spec_delete k xs = (del_key k xs, map_of xs k \<noteq> None)"

lemma total_simps [simp]:
  "total [] = 0" "total (x # xs) = int (length (snd x)) + total xs"
  "total (xs @ ys) = total xs + total ys"
  by (simp_all add: total_def)

lemma total_nonneg [simp]: "0 \<le> total xs"
  by (induction xs) simp_all

lemma fit_all: "total xs \<le> m \<Longrightarrow> fit m xs = xs"
proof (induction m xs rule: fit.induct)
  case (2 m x xs)
  then show ?case using total_nonneg [of xs] by (auto simp del: total_nonneg)
qed simp

lemma fit_total: "0 \<le> m \<Longrightarrow> total (fit m xs) \<le> m"
  by (induction m xs rule: fit.induct) auto

lemma fit_snoc: "\<not> total (xs @ [x]) \<le> m \<Longrightarrow> fit m (xs @ [x]) = fit m xs"
  by (induction m xs rule: fit.induct) auto

lemma fit_prefix: "\<exists>ys. xs = fit m xs @ ys"
  by (induction m xs rule: fit.induct) auto

text \<open>\<open>fit\<close> keeps as much as possible: a longer prefix would not fit.\<close>

lemma fit_maximal: "xs = p @ q \<Longrightarrow> total p \<le> m \<Longrightarrow> length p \<le> length (fit m xs)"
proof (induction m xs arbitrary: p rule: fit.induct)
  case (2 m x xs)
  then show ?case
  proof (cases p)
    case (Cons y p')
    with 2(2,3) have "int (length (snd x)) \<le> m" "total p' \<le> m - int (length (snd x))" "xs = p' @ q"
      using total_nonneg [of p'] by (auto simp del: total_nonneg)
    with 2(1) [of p'] Cons show ?thesis by simp
  qed simp
qed simp

lemma del_key_notin [simp]: "k \<notin> fst ` set xs \<Longrightarrow> del_key k xs = xs"
  unfolding del_key_def by (rule filter_True) force

lemma map_of_del_key [simp]: "map_of (del_key k xs) j = (if j = k then None else map_of xs j)"
  unfolding del_key_def by (induction xs) auto

section \<open>How the map and the list agree\<close>

definition lru_list :: "lru \<Rightarrow> contents" where
  "lru_list c = map (\<lambda>el. (e_key (heap c el), e_data (heap c el))) (order c)"

definition lru_wf :: "lru \<Rightarrow> bool" where
  "lru_wf c \<longleftrightarrow>
     distinct (order c) \<and> (\<forall>el \<in> set (order c). el < next_el c) \<and>
     (\<forall>k el. items c k = Some el \<longleftrightarrow> el \<in> set (order c) \<and> e_key (heap c el) = k) \<and>
     cur_bytes c = total (lru_list c)"

text \<open>Between operations the cache also respects its bound.\<close>

definition lru_inv :: "lru \<Rightarrow> bool" where
  "lru_inv c \<longleftrightarrow> lru_wf c \<and> cur_bytes c \<le> max 0 (max_bytes c)"

lemma lru_wfD:
  assumes "lru_wf c"
  shows "distinct (order c)" "\<And>el. el \<in> set (order c) \<Longrightarrow> el < next_el c"
    "\<And>k el. items c k = Some el \<longleftrightarrow> el \<in> set (order c) \<and> e_key (heap c el) = k"
    "cur_bytes c = total (lru_list c)"
  using assms by (auto simp: lru_wf_def)

lemma lru_inv_new: "lru_inv (lru_new m)" and lru_list_new [simp]: "lru_list (lru_new m) = []"
  by (simp_all add: lru_inv_def lru_wf_def lru_new_def lru_list_def)

lemma lru_keys_inj:
  "lru_wf c \<Longrightarrow> a \<in> set (order c) \<Longrightarrow> b \<in> set (order c) \<Longrightarrow>
   e_key (heap c a) = e_key (heap c b) \<Longrightarrow> a = b"
  by (metis lru_wfD(3) option.inject)

lemma lru_list_distinct: "lru_wf c \<Longrightarrow> distinct (map fst (lru_list c))"
  by (auto simp: lru_list_def comp_def distinct_map lru_wfD inj_on_def dest: lru_keys_inj)

lemma lru_lookup:
  assumes "lru_wf c"
  shows "map_of (lru_list c) k = map_option (\<lambda>el. e_data (heap c el)) (items c k)"
proof (cases "items c k")
  case None
  with assms have "k \<notin> fst ` set (lru_list c)"
    by (auto simp: lru_list_def dest: lru_wfD(3) [THEN iffD2])
  with None show ?thesis by (simp add: map_of_eq_None_iff)
next
  case (Some el)
  with assms have "(k, e_data (heap c el)) \<in> set (lru_list c)"
    by (auto simp: lru_list_def lru_wfD)
  with Some lru_list_distinct [OF assms] show ?thesis by simp
qed

lemma lru_del_key:
  assumes wf: "lru_wf c" and el: "items c k = Some el"
  shows "map (\<lambda>el. (e_key (heap c el), e_data (heap c el))) (remove1 el (order c))
    = del_key k (lru_list c)"
proof -
  have *: "el \<in> set (order c)" "e_key (heap c el) = k"
    using wf el by (simp_all add: lru_wfD)
  have "remove1 el (order c) = filter (\<lambda>x. x \<noteq> el) (order c)"
    using wf by (simp add: lru_wfD distinct_remove1_removeAll removeAll_filter_not_eq eq_commute)
  also have "\<dots> = filter (\<lambda>x. e_key (heap c x) \<noteq> k) (order c)"
    by (rule filter_cong [OF refl]) (use * lru_keys_inj [OF wf] in blast)
  finally show ?thesis
    by (simp add: del_key_def lru_list_def filter_map comp_def)
qed

lemma total_del_key:
  "distinct (map fst xs) \<Longrightarrow> map_of xs k = Some v \<Longrightarrow>
   total (del_key k xs) = total xs - int (length v)"
proof (induction xs)
  case (Cons x xs)
  then show ?case
    by (cases "fst x = k") (auto simp: del_key_def, metis del_key_def del_key_notin)
qed simp

lemma remove_element_wf:
  assumes wf: "lru_wf c" and el: "items c k = Some el"
  shows "lru_wf (remove_element el c)" "lru_list (remove_element el c) = del_key k (lru_list c)"
proof -
  have *: "el \<in> set (order c)" "e_key (heap c el) = k"
    using wf el by (simp_all add: lru_wfD)
  show l: "lru_list (remove_element el c) = del_key k (lru_list c)"
    using lru_del_key [OF assms] by (simp add: lru_list_def remove_element_def Let_def)
  have "map_of (lru_list c) k = Some (e_data (heap c el))"
    by (simp add: lru_lookup [OF wf] el)
  then have t: "total (del_key k (lru_list c)) = cur_bytes c - int (length (e_data (heap c el)))"
    using total_del_key [OF lru_list_distinct [OF wf]] wf by (simp add: lru_wfD)
  let ?c = "remove_element el c"
  have fields: "order ?c = remove1 el (order c)" "items ?c = (items c)(k := None)"
    "heap ?c = heap c" "next_el ?c = next_el c"
    "cur_bytes ?c = cur_bytes c - int (length (e_data (heap c el)))"
    by (simp_all add: remove_element_def Let_def *)
  have "distinct (order ?c)" "\<forall>x \<in> set (order ?c). x < next_el ?c"
    using wf by (auto simp: fields lru_wfD)
  moreover have "items ?c j = Some x \<longleftrightarrow> x \<in> set (order ?c) \<and> e_key (heap ?c x) = j" for j x
    using * lru_keys_inj [OF wf, of x el] by (auto simp: fields lru_wfD [OF wf])
  moreover have "cur_bytes ?c = total (lru_list ?c)" by (simp add: fields l t)
  ultimately show "lru_wf ?c" by (simp add: lru_wf_def)
qed

lemma remove1_last: "distinct xs \<Longrightarrow> xs \<noteq> [] \<Longrightarrow> remove1 (last xs) xs = butlast xs"
  by (induction xs rule: rev_induct) (simp_all add: remove1_append)

lemma lru_list_snoc:
  "order c \<noteq> [] \<Longrightarrow> lru_list c =
     map (\<lambda>el. (e_key (heap c el), e_data (heap c el))) (butlast (order c)) @
     [(e_key (heap c (last (order c))), e_data (heap c (last (order c))))]"
  by (cases "order c" rule: rev_cases) (simp_all add: lru_list_def)

lemma evict_correct:
  "lru_wf c \<Longrightarrow>
   lru_wf (evict c) \<and> lru_list (evict c) = fit (max_bytes c) (lru_list c) \<and>
   max_bytes (evict c) = max_bytes c"
proof (induction c rule: evict.induct)
  case (1 c)
  show ?case
  proof (cases "cur_bytes c > max_bytes c \<and> order c \<noteq> []")
    case True
    let ?el = "last (order c)" and ?k = "e_key (heap c (last (order c)))"
    have it: "items c ?k = Some ?el" using 1(2) True by (simp add: lru_wfD)
    note snoc = lru_list_snoc [OF True [THEN conjunct2]]
    have b: "lru_list (remove_element ?el c) =
        map (\<lambda>el. (e_key (heap c el), e_data (heap c el))) (butlast (order c))"
      using True 1(2) by (simp add: lru_list_def remove_element_def Let_def remove1_last lru_wfD)
    have "fit (max_bytes c) (lru_list (remove_element ?el c)) = fit (max_bytes c) (lru_list c)"
      unfolding b snoc by (rule fit_snoc [symmetric]) (use True 1(2) snoc in \<open>simp add: lru_wfD(4)\<close>)
    moreover have "max_bytes (remove_element ?el c) = max_bytes c"
      by (simp add: remove_element_def Let_def)
    ultimately show ?thesis
      using 1(1) [OF True remove_element_wf(1) [OF 1(2) it]] True by (simp add: evict.simps [of c])
  next
    case False
    moreover have "order c = [] \<Longrightarrow> lru_list c = []" by (simp add: lru_list_def)
    ultimately have "fit (max_bytes c) (lru_list c) = lru_list c"
      using 1(2) by (auto simp: fit_all lru_wfD(4))
    moreover have "evict c = c"
      using False by (subst evict.simps) (simp only: if_False)
    ultimately show ?thesis using 1(2) by simp
  qed
qed

section \<open>The operations refine their specification\<close>

lemma evict_inv: "lru_wf c \<Longrightarrow> 0 \<le> max_bytes c \<Longrightarrow> lru_inv (evict c)"
  using evict_correct [of c] fit_total [of "max_bytes c" "lru_list c"]
  by (simp add: lru_inv_def lru_wfD(4))

lemma lru_get_correct:
  assumes inv: "lru_inv c"
  shows "lru_inv (fst (lru_get k c))"
    "(lru_list (fst (lru_get k c)), snd (lru_get k c)) = spec_get k (lru_list c)"
    "max_bytes (fst (lru_get k c)) = max_bytes c"
proof -
  have wf: "lru_wf c" using inv by (simp add: lru_inv_def)
  have *: "lru_inv (fst (lru_get k c)) \<and>
    (lru_list (fst (lru_get k c)), snd (lru_get k c)) = spec_get k (lru_list c)"
  proof (cases "items c k")
    case None
    with inv show ?thesis by (simp add: lru_get_def spec_get_def lru_lookup [OF wf])
  next
    case (Some el)
    let ?c = "c\<lparr>order := move_to_front el (order c)\<rparr>"
    have el: "el \<in> set (order c)" "e_key (heap c el) = k"
      using wf Some by (simp_all add: lru_wfD)
    have l: "lru_list ?c = (k, e_data (heap c el)) # del_key k (lru_list c)"
      using lru_del_key [OF wf Some] el by (simp add: lru_list_def move_to_front_def)
    have "total (lru_list ?c) = total (lru_list c)"
      using total_del_key [OF lru_list_distinct [OF wf], of k "e_data (heap c el)"]
      by (simp add: l lru_lookup [OF wf] Some)
    moreover have "set (order ?c) = set (order c)" "distinct (order ?c)"
      using el wf by (auto simp: move_to_front_def lru_wfD)
    ultimately have "lru_wf ?c" using wf by (simp add: lru_wf_def)
    with inv Some l show ?thesis
      by (simp add: lru_get_def spec_get_def lru_lookup [OF wf] lru_inv_def)
  qed
  then show "lru_inv (fst (lru_get k c))"
    "(lru_list (fst (lru_get k c)), snd (lru_get k c)) = spec_get k (lru_list c)" by auto
  show "max_bytes (fst (lru_get k c)) = max_bytes c"
    by (simp add: lru_get_def split: option.split)
qed

lemma replace_data_wf:
  assumes wf: "lru_wf c" and el: "items c k = Some el"
  shows "lru_wf (replace_data el v c)"
    "lru_list (replace_data el v c) = (k, v) # del_key k (lru_list c)"
proof -
  let ?c = "replace_data el v c"
  have *: "el \<in> set (order c)" "e_key (heap c el) = k" "distinct (order c)"
    using wf el by (simp_all add: lru_wfD)
  have f: "order ?c = el # remove1 el (order c)" "items ?c = items c" "next_el ?c = next_el c"
    "heap ?c = (heap c)(el := (heap c el)\<lparr>e_data := v\<rparr>)"
    "cur_bytes ?c = cur_bytes c + (int (length v) - int (length (e_data (heap c el))))"
    using * by (simp_all add: replace_data_def move_to_front_def Let_def)
  have "map (\<lambda>x. (e_key (heap ?c x), e_data (heap ?c x))) (remove1 el (order c)) =
      map (\<lambda>x. (e_key (heap c x), e_data (heap c x))) (remove1 el (order c))"
    by (rule map_cong [OF refl]) (use * in \<open>auto simp: f\<close>)
  then show l: "lru_list ?c = (k, v) # del_key k (lru_list c)"
    using * lru_del_key [OF wf el] by (simp add: lru_list_def f)
  have "map_of (lru_list c) k = Some (e_data (heap c el))" by (simp add: lru_lookup [OF wf] el)
  from total_del_key [OF lru_list_distinct [OF wf] this]
  have "cur_bytes ?c = total (lru_list ?c)" using wf by (simp add: l f lru_wfD(4))
  moreover have "set (order ?c) = set (order c)" "distinct (order ?c)"
    using * by (auto simp: f)
  moreover have "e_key (heap ?c x) = e_key (heap c x)" for x by (simp add: f)
  ultimately show "lru_wf ?c" using wf f(2,3) by (simp add: lru_wf_def)
qed

lemma push_entry_wf:
  assumes wf: "lru_wf c" and el: "items c k = None"
  shows "lru_wf (push_entry k v c)" "lru_list (push_entry k v c) = (k, v) # del_key k (lru_list c)"
proof -
  let ?c = "push_entry k v c"
  have f: "order ?c = next_el c # order c" "items ?c = (items c)(k \<mapsto> next_el c)"
    "heap ?c = (heap c)(next_el c := \<lparr>e_key = k, e_data = v\<rparr>)" "next_el ?c = next_el c + 1"
    "cur_bytes ?c = cur_bytes c + int (length v)"
    by (simp_all add: push_entry_def Let_def)
  have fresh: "next_el c \<notin> set (order c)" using wf lru_wfD(2) by blast
  have k: "e_key (heap c x) \<noteq> k" if "x \<in> set (order c)" for x
    using that el lru_wfD(3) [OF wf, of k x] by auto
  have nk: "k \<notin> fst ` set (lru_list c)" unfolding lru_list_def using k by fastforce
  have "map (\<lambda>x. (e_key (heap ?c x), e_data (heap ?c x))) (order c) = lru_list c"
    unfolding lru_list_def by (rule map_cong [OF refl]) (use fresh in \<open>auto simp: f\<close>)
  then show l: "lru_list ?c = (k, v) # del_key k (lru_list c)"
    using nk by (simp add: lru_list_def f(1)) (simp add: f)
  have "cur_bytes ?c = total (lru_list ?c)" using nk wf by (simp add: l f(5) lru_wfD(4))
  moreover have "items ?c j = Some x \<longleftrightarrow> x \<in> set (order ?c) \<and> e_key (heap ?c x) = j" for j x
    using fresh k [of x] lru_wfD(3) [OF wf, of j x] by (auto simp: f)
  moreover have "distinct (order ?c)" "\<forall>x \<in> set (order ?c). x < next_el ?c"
    using fresh wf by (auto simp: f lru_wfD less_SucI)
  ultimately show "lru_wf ?c" by (simp add: lru_wf_def)
qed

lemma lru_set_correct:
  assumes inv: "lru_inv c"
  shows "lru_inv (lru_set k v c)" "lru_list (lru_set k v c) = spec_set (max_bytes c) k v (lru_list c)"
    "max_bytes (lru_set k v c) = max_bytes c"
proof -
  have wf: "lru_wf c" using inv by (simp add: lru_inv_def)
  have "lru_inv (lru_set k v c) \<and> max_bytes (lru_set k v c) = max_bytes c \<and>
    lru_list (lru_set k v c) = spec_set (max_bytes c) k v (lru_list c)"
  proof (cases "max_bytes c \<le> 0 \<or> int (length v) > max_bytes c")
    case True
    with inv show ?thesis by (auto simp: lru_set_def spec_set_def)
  next
    case False
    define c' where "c' = (case items c k of Some el \<Rightarrow> replace_data el v c | None \<Rightarrow> push_entry k v c)"
    have "lru_set k v c = evict c'"
      using False by (simp add: lru_set_def c'_def split: option.split)
    moreover have "max_bytes c' = max_bytes c"
      by (simp add: c'_def replace_data_def push_entry_def Let_def split: option.split)
    moreover have "lru_wf c'" "lru_list c' = (k, v) # del_key k (lru_list c)"
      using replace_data_wf [OF wf] push_entry_wf [OF wf]
      by (simp_all add: c'_def split: option.split)
    ultimately show ?thesis
      using False evict_correct [of c'] evict_inv [of c'] by (simp add: spec_set_def)
  qed
  then show "lru_inv (lru_set k v c)" "lru_list (lru_set k v c) = spec_set (max_bytes c) k v (lru_list c)"
    "max_bytes (lru_set k v c) = max_bytes c" by auto
qed

lemma lru_delete_correct:
  assumes inv: "lru_inv c"
  shows "lru_inv (fst (lru_delete k c))"
    "(lru_list (fst (lru_delete k c)), snd (lru_delete k c)) = spec_delete k (lru_list c)"
    "max_bytes (fst (lru_delete k c)) = max_bytes c"
proof -
  have wf: "lru_wf c" using inv by (simp add: lru_inv_def)
  have "lru_inv (fst (lru_delete k c)) \<and>
    (lru_list (fst (lru_delete k c)), snd (lru_delete k c)) = spec_delete k (lru_list c)"
  proof (cases "items c k")
    case None
    then have "k \<notin> fst ` set (lru_list c)"
      using lru_lookup [OF wf, of k] by (simp add: map_of_eq_None_iff)
    with None inv show ?thesis by (simp add: lru_delete_def spec_delete_def lru_lookup [OF wf])
  next
    case (Some el)
    with inv remove_element_wf [OF wf Some] show ?thesis
      by (simp add: lru_delete_def spec_delete_def lru_lookup [OF wf] lru_inv_def remove_element_def
          Let_def)
  qed
  then show "lru_inv (fst (lru_delete k c))"
    "(lru_list (fst (lru_delete k c)), snd (lru_delete k c)) = spec_delete k (lru_list c)" by auto
  show "max_bytes (fst (lru_delete k c)) = max_bytes c"
    by (simp add: lru_delete_def remove_element_def Let_def split: option.split)
qed

section \<open>The contract of the cache\<close>

locale byte_cache =
  fixes get :: "string \<Rightarrow> 's \<Rightarrow> 's \<times> string option"
    and put :: "string \<Rightarrow> string \<Rightarrow> 's \<Rightarrow> 's"
    and del :: "string \<Rightarrow> 's \<Rightarrow> 's \<times> bool"
    and contents :: "'s \<Rightarrow> contents"
    and cap :: "'s \<Rightarrow> int"
    and inv :: "'s \<Rightarrow> bool"
  assumes get_spec: "inv s \<Longrightarrow> (contents (fst (get k s)), snd (get k s)) = spec_get k (contents s)"
    and put_spec: "inv s \<Longrightarrow> contents (put k v s) = spec_set (cap s) k v (contents s)"
    and del_spec: "inv s \<Longrightarrow> (contents (fst (del k s)), snd (del k s)) = spec_delete k (contents s)"
    and cap_kept: "inv s \<Longrightarrow> cap (fst (get k s)) = cap s" "inv s \<Longrightarrow> cap (put k v s) = cap s"
      "inv s \<Longrightarrow> cap (fst (del k s)) = cap s"
    and inv_kept: "inv s \<Longrightarrow> inv (fst (get k s))" "inv s \<Longrightarrow> inv (put k v s)"
      "inv s \<Longrightarrow> inv (fst (del k s))"
begin

lemma get_eq: "inv s \<Longrightarrow> snd (get k s) = map_of (contents s) k"
  using get_spec [of s k] by (auto simp: spec_get_def split: option.splits)

lemma get_contents: "inv s \<Longrightarrow> map_of (contents (fst (get k s))) j = map_of (contents s) j"
  using get_spec [of s k] by (auto simp: spec_get_def split: option.splits)

lemma put_get_same:
  assumes "inv s" "0 < cap s" "int (length v) \<le> cap s"
  shows "snd (get k (put k v s)) = Some v"
  using assms get_eq [OF inv_kept(2) [OF assms(1)], of k k v]
  by (simp add: put_spec spec_set_def)

lemma fit_lookup: "map_of (fit m xs) k = Some v \<Longrightarrow> distinct (map fst xs) \<Longrightarrow> map_of xs k = Some v"
  by (induction m xs rule: fit.induct) (auto split: if_splits)

text \<open>Writing one key never changes what another key reads: it still reads that, or misses.\<close>

lemma put_get_other:
  assumes "inv s" "distinct (map fst (contents s))" "j \<noteq> k"
    and "snd (get j (put k v s)) = Some w"
  shows "snd (get j s) = Some w"
proof -
  have "distinct (map fst ((k, v) # del_key k (contents s)))"
    using assms(2) by (auto simp: del_key_def distinct_map_filter)
  moreover have "map_of (contents (put k v s)) j = Some w"
    using assms get_eq inv_kept(2) by metis
  ultimately show ?thesis
    using assms(1,3) fit_lookup [of "cap s" "(k, v) # del_key k (contents s)" j w]
    by (auto simp: put_spec spec_set_def get_eq split: if_splits)
qed

text \<open>Every entry after an operation was there before or is the one just stored.\<close>

lemma get_hit: "inv s \<Longrightarrow> snd (get k s) = Some d \<Longrightarrow> (k, d) \<in> set (contents s)"
  by (simp add: get_eq map_of_SomeD)

lemma get_subset: "inv s \<Longrightarrow> set (contents (fst (get k s))) \<subseteq> set (contents s)"
  using get_spec [of s k] by (auto simp: spec_get_def del_key_def dest: map_of_SomeD split: option.splits)

lemma set_fit: "set (fit m xs) \<subseteq> set xs"
  using fit_prefix [of xs m] by (metis Un_upper1 set_append)

lemma put_subset: "inv s \<Longrightarrow> set (contents (put k v s)) \<subseteq> insert (k, v) (set (contents s))"
  using set_fit [of "cap s" "(k, v) # del_key k (contents s)"]
  by (auto simp: put_spec spec_set_def del_key_def simp del: fit.simps split: if_splits)

lemma del_subset: "inv s \<Longrightarrow> set (contents (fst (del k s))) \<subseteq> set (contents s)"
  using del_spec [of s k] by (auto simp: spec_delete_def del_key_def)

lemma del_gone: "inv s \<Longrightarrow> (k, v) \<notin> set (contents (fst (del k s)))"
  using del_spec [of s k] by (auto simp: spec_delete_def del_key_def)

lemma del_get:
  assumes "inv s"
  shows "snd (get j (fst (del k s))) = (if j = k then None else snd (get j s))"
  using assms del_spec [of s k] get_eq [OF inv_kept(3) [OF assms], of j k]
  by (simp add: spec_delete_def get_eq)

end

interpretation lru: byte_cache lru_get lru_set lru_delete lru_list max_bytes lru_inv
  by unfold_locales
    (simp_all only: lru_get_correct lru_set_correct lru_delete_correct)

section \<open>Whole runs\<close>

datatype cache_op = CGet string | CSet string string | CDelete string

datatype cache_out = GotData "string option" | Stored | Deleted bool

fun lru_step :: "cache_op \<Rightarrow> lru \<Rightarrow> lru \<times> cache_out" where
  "lru_step (CGet k) c = (fst (lru_get k c), GotData (snd (lru_get k c)))"
| "lru_step (CSet k v) c = (lru_set k v c, Stored)"
| "lru_step (CDelete k) c = (fst (lru_delete k c), Deleted (snd (lru_delete k c)))"

fun spec_step :: "int \<Rightarrow> cache_op \<Rightarrow> contents \<Rightarrow> contents \<times> cache_out" where
  "spec_step m (CGet k) xs = (fst (spec_get k xs), GotData (snd (spec_get k xs)))"
| "spec_step m (CSet k v) xs = (spec_set m k v xs, Stored)"
| "spec_step m (CDelete k) xs = (fst (spec_delete k xs), Deleted (snd (spec_delete k xs)))"

fun run_ops :: "('o \<Rightarrow> 's \<Rightarrow> 's \<times> 'r) \<Rightarrow> 'o list \<Rightarrow> 's \<Rightarrow> 's \<times> 'r list" where
  "run_ops f [] s = (s, [])"
| "run_ops f (x # xs) s = (let (s', r) = f x s; (s'', rs) = run_ops f xs s' in (s'', r # rs))"

lemma lru_step_refines:
  assumes "lru_inv c"
  shows "lru_inv (fst (lru_step x c))" "max_bytes (fst (lru_step x c)) = max_bytes c"
    "(lru_list (fst (lru_step x c)), snd (lru_step x c)) = spec_step (max_bytes c) x (lru_list c)"
proof -
  have g: "lru_list (fst (lru_get k c)) = fst (spec_get k (lru_list c)) \<and>
    snd (lru_get k c) = snd (spec_get k (lru_list c))" for k
    using lru_get_correct(2) [OF assms, of k] by (metis fst_conv snd_conv)
  have d: "lru_list (fst (lru_delete k c)) = fst (spec_delete k (lru_list c)) \<and>
    snd (lru_delete k c) = snd (spec_delete k (lru_list c))" for k
    using lru_delete_correct(2) [OF assms, of k] by (metis fst_conv snd_conv)
  show "lru_inv (fst (lru_step x c))" "max_bytes (fst (lru_step x c)) = max_bytes c"
    "(lru_list (fst (lru_step x c)), snd (lru_step x c)) = spec_step (max_bytes c) x (lru_list c)"
    by (cases x; simp add: assms lru_get_correct(1,3) lru_set_correct lru_delete_correct(1,3) g d)+
qed

lemma lru_run_refines_from:
  "lru_inv c \<Longrightarrow> run_ops lru_step xs c = (c', rs) \<Longrightarrow>
   lru_inv c' \<and> max_bytes c' = max_bytes c \<and>
   run_ops (spec_step (max_bytes c)) xs (lru_list c) = (lru_list c', rs)"
proof (induction xs arbitrary: c c' rs)
  case (Cons x xs)
  obtain c1 r where s: "lru_step x c = (c1, r)" by fastforce
  obtain c2 rs' where t: "run_ops lru_step xs c1 = (c2, rs')" by fastforce
  from lru_step_refines [OF Cons.prems(1), of x] s
  have "lru_inv c1" "max_bytes c1 = max_bytes c" "spec_step (max_bytes c) x (lru_list c) = (lru_list c1, r)"
    by simp_all
  with Cons.IH [OF _ t] Cons.prems(2) s t show ?case by auto
qed auto

text \<open>
  C31. The cache of map, list and byte counter behaves, over every sequence of operations from an
  empty cache, exactly like the recency list of the specification: the same answers, the same
  contents; and after every run the byte counter equals the stored bytes and is within the bound.
\<close>

theorem lru_run_refines:
  "(case run_ops lru_step ops (lru_new m) of (c, outs) \<Rightarrow>
      run_ops (spec_step m) ops [] = (lru_list c, outs) \<and>
      lru_size c = total (lru_list c) \<and> lru_size c \<le> max 0 m \<and>
      lru_len c = length (lru_list c) \<and> distinct (map fst (lru_list c)))"
proof (cases "run_ops lru_step ops (lru_new m)")
  case (Pair c outs)
  from lru_run_refines_from [OF lru_inv_new Pair]
  have "lru_inv c" "max_bytes c = m" "run_ops (spec_step m) ops [] = (lru_list c, outs)"
    by (simp_all add: lru_new_def lru_list_def)
  moreover from this have wf: "lru_wf c" and "lru_size c \<le> max 0 m"
    by (simp_all add: lru_inv_def lru_size_def)
  moreover have "lru_size c = total (lru_list c)" "distinct (map fst (lru_list c))"
    using wf by (simp_all add: lru_size_def lru_wfD(4) lru_list_distinct)
  moreover have "lru_len c = length (lru_list c)" by (simp add: lru_len_def lru_list_def)
  ultimately show ?thesis using Pair by simp
qed

section \<open>What a hit returns, what eviction drops\<close>

text \<open>The value of the last \<open>Set\<close> of a key that the cache accepted, unless deleted since.\<close>

fun last_set :: "int \<Rightarrow> string \<Rightarrow> cache_op list \<Rightarrow> string option \<Rightarrow> string option" where
  "last_set m k [] acc = acc"
| "last_set m k (CGet j # xs) acc = last_set m k xs acc"
| "last_set m k (CSet j v # xs) acc =
     last_set m k xs (if j = k \<and> 0 < m \<and> int (length v) \<le> m then Some v else acc)"
| "last_set m k (CDelete j # xs) acc = last_set m k xs (if j = k then None else acc)"

definition coherent :: "string option \<Rightarrow> string option \<Rightarrow> bool" where
  "coherent hit acc = (hit = None \<or> hit = acc)"

lemma lru_contents_distinct: "lru_inv c \<Longrightarrow> distinct (map fst (lru_list c))"
  by (simp add: lru_inv_def lru_list_distinct)

lemma lru_step_coherent:
  assumes inv: "lru_inv c" and coh: "coherent (map_of (lru_list c) k) acc"
  shows "coherent (map_of (lru_list (fst (lru_step x c))) k) (last_set (max_bytes c) k [x] acc)"
proof (cases x)
  case (CGet j)
  with inv coh show ?thesis by (simp add: lru.get_contents)
next
  case (CDelete j)
  with inv coh show ?thesis
    using lru.del_get [OF inv, of k j] lru.get_eq [OF lru_delete_correct(1) [OF inv], of k j]
    by (auto simp: lru.get_eq coherent_def)
next
  case (CSet j v)
  show ?thesis
  proof (cases "j = k")
    case True
    with CSet inv coh show ?thesis
      using lru.put_get_same [OF inv, of v k] lru.get_eq [OF lru_set_correct(1) [OF inv], of k k v]
      by (auto simp: lru_set_correct(2) spec_set_def coherent_def)
  next
    case False
    with CSet coh show ?thesis
      using lru.put_get_other [OF inv lru_contents_distinct [OF inv], of k j v]
        lru.get_eq [OF lru_set_correct(1) [OF inv], of k j v] lru.get_eq [OF inv, of k]
      by (cases "map_of (lru_list (lru_set j v c)) k") (auto simp: coherent_def)
  qed
qed

lemma last_set_append: "last_set m k (xs @ ys) acc = last_set m k ys (last_set m k xs acc)"
  by (induction m k xs acc rule: last_set.induct) simp_all

lemma lru_run_coherent:
  "lru_inv c \<Longrightarrow> coherent (map_of (lru_list c) k) acc \<Longrightarrow>
   coherent (map_of (lru_list (fst (run_ops lru_step xs c))) k) (last_set (max_bytes c) k xs acc)"
proof (induction xs arbitrary: c acc)
  case (Cons x xs)
  let ?c = "fst (lru_step x c)"
  have "coherent (map_of (lru_list (fst (run_ops lru_step xs ?c))) k)
      (last_set (max_bytes c) k xs (last_set (max_bytes c) k [x] acc))"
    using Cons.IH [OF lru_step_refines(1) lru_step_coherent] Cons.prems
    by (simp add: lru_step_refines(2))
  then show ?case
    using last_set_append [of "max_bytes c" k "[x]" xs acc] by (simp add: case_prod_beta)
qed simp

lemma lru_run_inv: "lru_inv c \<Longrightarrow> lru_inv (fst (run_ops lru_step xs c))"
  using lru_run_refines_from by (metis prod.collapse)

text \<open>
  Reads are coherent: after any sequence of operations a lookup either misses or returns the
  data of the last \<open>Set\<close> of that key that the cache accepted, with no \<open>Delete\<close> of it since.
\<close>

theorem lru_hit_is_last_set:
  "(let hit = snd (lru_get k (fst (run_ops lru_step ops (lru_new m))))
    in hit = None \<or> hit = last_set m k ops None)"
proof -
  have "coherent (map_of (lru_list (fst (run_ops lru_step ops (lru_new m)))) k)
      (last_set (max_bytes (lru_new m)) k ops None)"
    by (rule lru_run_coherent [OF lru_inv_new]) (simp add: coherent_def)
  then show ?thesis
    by (simp add: coherent_def lru_new_def Let_def lru.get_eq [OF lru_run_inv [OF lru_inv_new], unfolded lru_new_def])
qed

text \<open>
  An accepted \<open>Set\<close> makes its entry the most recent one and drops entries from the least
  recently used end only, and no more than needed: what stays is a prefix of the recency order that
  fits, and the first entry dropped would not have fitted.
\<close>

theorem lru_set_evicts_oldest:
  assumes "lru_inv c" and "0 < max_bytes c" and "int (length v) \<le> max_bytes c"
  shows "\<exists>dropped. (k, v) # del_key k (lru_list c) = lru_list (lru_set k v c) @ dropped \<and>
    total (lru_list (lru_set k v c)) \<le> max_bytes c \<and>
    (dropped = [] \<or> total (lru_list (lru_set k v c) @ [hd dropped]) > max_bytes c) \<and>
    hd (lru_list (lru_set k v c)) = (k, v)"
proof -
  let ?xs = "(k, v) # del_key k (lru_list c)" and ?m = "max_bytes c"
  have eq: "lru_list (lru_set k v c) = fit ?m ?xs"
    using assms by (simp add: lru_set_correct(2) spec_set_def)
  obtain q where q: "?xs = fit ?m ?xs @ q" using fit_prefix by blast
  have "total (fit ?m ?xs @ [y]) > ?m" if "q = y # r" for y r
  proof (rule ccontr)
    have "?xs = (fit ?m ?xs @ [y]) @ r" using q that by (metis append_Cons append_Nil append_assoc)
    moreover assume "\<not> ?thesis"
    ultimately have "length (fit ?m ?xs @ [y]) \<le> length (fit ?m ?xs)"
      by (intro fit_maximal) (assumption, simp only: not_less)
    then show False by (simp only: length_append) simp
  qed
  then have "q = [] \<or> total (fit ?m ?xs @ [hd q]) > ?m" by (metis list.collapse)
  moreover have "hd (fit ?m ?xs) = (k, v)" using assms(3) by simp
  moreover have "total (fit ?m ?xs) \<le> ?m" using assms(2) by (simp only: fit_total)
  ultimately show ?thesis unfolding eq using q by blast
qed

theorem lru_set_evicts_oldest_witness:
  "\<exists>dropped. (''c'', ''123'') # del_key ''c'' (lru_list (lru_set ''b'' ''12'' (lru_set ''a'' ''1'' (lru_new 5)))) =
      lru_list (lru_set ''c'' ''123'' (lru_set ''b'' ''12'' (lru_set ''a'' ''1'' (lru_new 5)))) @ dropped \<and>
    dropped \<noteq> []"
proof -
  let ?c = "lru_set ''b'' ''12'' (lru_set ''a'' ''1'' (lru_new 5))"
  have inv: "lru_inv ?c" by (intro lru_set_correct(1) lru_inv_new)
  have m: "max_bytes ?c = 5"
    by (simp add: lru_set_correct(3) lru_set_correct(1) lru_inv_new) (simp add: lru_new_def)
  have l: "lru_list ?c = [(''b'', ''12''), (''a'', ''1'')]"
    by (simp add: lru_set_correct lru_inv_new spec_set_def del_key_def) (simp add: lru_new_def)
  from lru_set_evicts_oldest [OF inv, of "''123''" "''c''"] m
  obtain d where d: "(''c'', ''123'') # del_key ''c'' (lru_list ?c) = lru_list (lru_set ''c'' ''123'' ?c) @ d"
    and t: "total (lru_list (lru_set ''c'' ''123'' ?c)) \<le> 5" by auto
  have "d \<noteq> []"
  proof
    assume "d = []"
    with d have "lru_list (lru_set ''c'' ''123'' ?c) = (''c'', ''123'') # del_key ''c'' (lru_list ?c)" by simp
    with t show False by (simp add: l del_key_def)
  qed
  with d show ?thesis by blast
qed

text \<open>
  Storing a value larger than the whole cache under a key that is present leaves the old value
  readable: the entry is neither replaced nor dropped.
\<close>

theorem lru_oversized_set_keeps_old:
  assumes "lru_inv c" and "snd (lru_get k c) = Some old" and "int (length v) > max_bytes c"
  shows "snd (lru_get k (lru_set k v c)) = Some old"
  using assms by (simp add: lru_set_def)

theorem lru_oversized_set_keeps_old_witness:
  "snd (lru_get ''a'' (lru_set ''a'' ''123456'' (lru_set ''a'' ''1'' (lru_new 5)))) = Some ''1''"
proof -
  let ?c = "lru_set ''a'' ''1'' (lru_new 5)"
  have "snd (lru_get ''a'' ?c) = Some ''1''"
    by (rule lru.put_get_same [OF lru_inv_new]) (simp_all add: lru_new_def)
  moreover have "max_bytes ?c = 5"
    by (simp add: lru_set_correct(3) lru_inv_new) (simp add: lru_new_def)
  ultimately show ?thesis
    using lru_oversized_set_keeps_old [OF lru_set_correct(1) [OF lru_inv_new], of "''a''" "''a''" "''1''" 5]
    by simp
qed

end
