(* ===== verification/ImageProcess.thy ===== *)
theory ImageProcess
  imports ImageOptions
begin

text \<open>
  Image processing, \<open>internal/image/processor.go\<close>. The pixel work is libvips, a third-party library:
  its calls are the fields of the parameter record \<open>vips\<close> over a type of loaded images. What is
  modelled is everything the source decides: which loader runs and with which arguments, the cover
  scale of animated images, the frame limits, and the encoder with its quality. Sizes computed in
  float64 by the source are computed exactly here.
\<close>

section \<open>libvips as a parameter\<close>

text \<open>
  \<open>v_thumbnail src width height all_frames centre_crop\<close> is \<open>NewThumbnailBuffer\<close>,
  \<open>v_load src all_frames\<close> is \<open>NewImageFromBuffer\<close>, \<open>v_extract img left top w h\<close> is
  \<open>ExtractAreaMultiPage\<close>, the last five are the encoders; an encoder of an animated image is given
  the page height.
\<close>

record 'i vips =
  v_thumbnail :: "string \<Rightarrow> int \<Rightarrow> int \<Rightarrow> bool \<Rightarrow> bool \<Rightarrow> (string, 'i) result"
  v_load :: "string \<Rightarrow> bool \<Rightarrow> (string, 'i) result"
  v_width :: "'i \<Rightarrow> int"
  v_page_height :: "'i \<Rightarrow> int"
  v_pages :: "'i \<Rightarrow> int"
  v_extract :: "'i \<Rightarrow> int \<Rightarrow> int \<Rightarrow> int \<Rightarrow> int \<Rightarrow> (string, 'i) result"
  v_webp :: "'i \<Rightarrow> int \<Rightarrow> int option \<Rightarrow> (string, string) result"
  v_avif :: "'i \<Rightarrow> int \<Rightarrow> (string, string) result"
  v_jpeg :: "'i \<Rightarrow> int \<Rightarrow> (string, string) result"
  v_png :: "'i \<Rightarrow> (string, string) result"
  v_gif :: "'i \<Rightarrow> int option \<Rightarrow> (string, string) result"

datatype process_error =
    InvalidLimits
  | DecodeImage string
  | FrameLimit int int
  | AnimatedToStatic
  | EncodeImage string

text \<open>\<open>errors.Is (err, ErrDecodeImage)\<close>.\<close>

definition is_decode_error :: "process_error \<Rightarrow> bool" where
  "is_decode_error e = (case e of DecodeImage m \<Rightarrow> True | FrameLimit a b \<Rightarrow> True | _ \<Rightarrow> False)"

section \<open>Loading\<close>

definition input_supports_animation :: "string \<Rightarrow> bool" where
  "input_supports_animation src =
     (if has_prefix src ''GIF'' then True
      else length src \<ge> 12 \<and> take 4 src = ''RIFF'' \<and> take 4 (drop 8 src) = ''WEBP'')"

definition cover_scale :: "int \<Rightarrow> int \<Rightarrow> int \<Rightarrow> int \<Rightarrow> rat" where
  "cover_scale want_w want_h orig_w orig_h =
     max (of_int want_w / of_int orig_w) (of_int want_h / of_int orig_h)"

definition cover_size :: "int \<Rightarrow> int \<Rightarrow> int \<Rightarrow> int \<Rightarrow> int \<times> int" where
  "cover_size want_w want_h orig_w orig_h =
     (let s = cover_scale want_w want_h orig_w orig_h
      in (\<lfloor>of_int orig_w * s + 1 / 2\<rfloor>, \<lfloor>of_int orig_h * s + 1 / 2\<rfloor>))"

text \<open>Go's integer division truncates; a negative offset is set to 0 afterwards either way.\<close>

definition crop_offset :: "int \<Rightarrow> int \<Rightarrow> int" where
  "crop_offset have_len want = max 0 ((have_len - want) div 2)"

definition animated_cover_crop :: "'i vips \<Rightarrow> string \<Rightarrow> int \<Rightarrow> int \<Rightarrow> (string, 'i) result" where
  "animated_cover_crop V src want_w want_h =
     bind_result (v_load V src True) (\<lambda>probe.
       case cover_size want_w want_h (v_width V probe) (v_page_height V probe) of
         (cover_w, cover_h) \<Rightarrow>
           bind_result (v_thumbnail V src cover_w cover_h True False) (\<lambda>img.
             v_extract V img (crop_offset (v_width V img) want_w)
               (crop_offset (v_page_height V img) want_h) want_w want_h))"

section \<open>Export and Process\<close>

definition export_image :: "'i vips \<Rightarrow> 'i \<Rightarrow> options \<Rightarrow> (string, string) result" where
  "export_image V img opts =
     (let q = effective_quality opts;
          page = (if v_pages V img > 1 then Some (v_page_height V img) else None)
      in case opt_format opts of
           FormatWebP \<Rightarrow> v_webp V img q page
         | FormatAVIF \<Rightarrow> v_avif V img q
         | FormatJPEG \<Rightarrow> v_jpeg V img q
         | FormatPNG \<Rightarrow> v_png V img
         | FormatGIF \<Rightarrow> v_gif V img page
         | FormatOriginal \<Rightarrow> v_webp V img 80 None)"

definition load_image :: "'i vips \<Rightarrow> string \<Rightarrow> options \<Rightarrow> (string, 'i) result" where
  "load_image V src opts =
     (let load_all = supports_animation (opt_format opts) \<and> input_supports_animation src;
          need_resize = (opt_width opts > 0 \<or> opt_height opts > 0);
          need_crop = (opt_width opts > 0 \<and> opt_height opts > 0)
      in if load_all \<and> need_crop then animated_cover_crop V src (opt_width opts) (opt_height opts)
         else if need_resize then
           v_thumbnail V src (opt_width opts) (opt_height opts) load_all (\<not> load_all)
         else v_load V src load_all)"

definition process_image :: "'i vips \<Rightarrow> int \<Rightarrow> string \<Rightarrow> options \<Rightarrow> (process_error, string) result" where
  "process_image V max_frames src opts =
     (if max_frames < 1 then Inl InvalidLimits
      else case load_image V src opts of
        Inl m \<Rightarrow> Inl (DecodeImage m)
      | Inr img \<Rightarrow>
          if \<not> supports_animation (opt_format opts) \<and> v_pages V img > 1 then Inl AnimatedToStatic
          else if v_pages V img > max_frames then Inl (FrameLimit (v_pages V img) max_frames)
          else (case export_image V img opts of
            Inl m \<Rightarrow> Inl (EncodeImage m)
          | Inr out \<Rightarrow> Inr out))"

text \<open>Options that share a cache key have the same output.\<close>

definition same_variant :: "options \<Rightarrow> options \<Rightarrow> bool" where
  "same_variant a b \<longleftrightarrow>
     opt_width a = opt_width b \<and> opt_height a = opt_height b \<and>
     effective_quality a = effective_quality b \<and> opt_format a = opt_format b"

lemma process_image_same_variant:
  "same_variant a b \<Longrightarrow> process_image V n src a = process_image V n src b"
proof -
  assume v: "same_variant a b"
  then have "load_image V src a = load_image V src b" "export_image V img a = export_image V img b" for img
    by (simp_all add: same_variant_def load_image_def export_image_def Let_def cong: if_cong)
  with v show ?thesis
    by (cases "load_image V src b") (simp_all add: same_variant_def process_image_def)
qed

text \<open>
  C40. Two requests with the same textual cache key are the same computation: processing the source
  of one with its options gives what processing the source of the other gives.
\<close>

theorem cache_key_determines_output:
  "cache_key s a = cache_key t b \<Longrightarrow>
   s = t \<and> process_image V n (read1 s) a = process_image V n (read1 t) b"
proof -
  assume "cache_key s a = cache_key t b"
  then have "s = t" "same_variant a b"
    by (simp_all add: cache_key_iff same_variant_def)
  then show ?thesis using process_image_same_variant by blast
qed

theorem cache_key_determines_output_witness:
  "\<forall>(V :: unit vips) n src. process_image V n src (zero_options\<lparr>opt_format := FormatAVIF\<rparr>) =
     process_image V n src (zero_options\<lparr>opt_format := FormatAVIF, opt_quality := 50\<rparr>)"
proof (intro allI)
  fix V :: "unit vips" and n src
  show "process_image V n src (zero_options\<lparr>opt_format := FormatAVIF\<rparr>) =
     process_image V n src (zero_options\<lparr>opt_format := FormatAVIF, opt_quality := 50\<rparr>)"
    using cache_key_determines_output [of "''k''" "zero_options\<lparr>opt_format := FormatAVIF\<rparr>" "''k''"
        "zero_options\<lparr>opt_format := FormatAVIF, opt_quality := 50\<rparr>" V n "\<lambda>k. src"]
    by (simp add: cache_key_def variant_suffix_def zero_options_def effective_quality_def default_quality_def)
qed

text \<open>
  An animated image never leaves through a static format and never exceeds the frame limit:
  whenever processing succeeds, the loaded image has at most the allowed number of frames, and more
  than one frame only for WebP or GIF output.
\<close>

theorem processed_frames_bounded:
  "(case process_image V max_frames src opts of
      Inl e \<Rightarrow> True
    | Inr out \<Rightarrow> \<exists>img. load_image V src opts = Inr img \<and> export_image V img opts = Inr out \<and>
        v_pages V img \<le> max_frames \<and>
        (v_pages V img \<le> 1 \<or> opt_format opts = FormatWebP \<or> opt_format opts = FormatGIF))"
  by (auto simp: process_image_def supports_animation_def split: sum.splits)

section \<open>Cover scaling\<close>

lemma floor_half_ge: "of_int n \<le> (x::rat) \<Longrightarrow> n \<le> \<lfloor>x + 1 / 2\<rfloor>"
  by (simp add: le_floor_iff)

lemma floor_half_int: "\<lfloor>of_int n + (1::rat) / 2\<rfloor> = n"
  by (simp add: floor_eq_iff)

text \<open>
  The cover size of an animated image is never smaller than the requested size in either
  direction, and exact in at least one, so the centre crop stays inside the scaled frame and only one
  direction is cut.
\<close>

theorem cover_size_covers:
  assumes "0 < orig_w" "0 < orig_h" and "cover_size want_w want_h orig_w orig_h = (w, h)"
  shows "want_w \<le> w \<and> want_h \<le> h \<and> (w = want_w \<or> h = want_h) \<and>
    crop_offset w want_w + want_w \<le> w \<and> crop_offset h want_h + want_h \<le> h"
proof -
  let ?s = "cover_scale want_w want_h orig_w orig_h"
  have wh: "w = \<lfloor>of_int orig_w * ?s + 1 / 2\<rfloor>" "h = \<lfloor>of_int orig_h * ?s + 1 / 2\<rfloor>"
    using assms(3) by (simp_all add: cover_size_def Let_def)
  have "of_int want_w \<le> of_int orig_w * ?s" "of_int want_h \<le> of_int orig_h * ?s"
    using assms(1,2) by (simp_all add: cover_scale_def max_def field_simps)
  then have le: "want_w \<le> w" "want_h \<le> h" unfolding wh by (simp_all only: floor_half_ge)
  have "?s = of_int want_w / of_int orig_w \<or> ?s = of_int want_h / of_int orig_h"
    by (simp add: cover_scale_def max_def)
  then have "w = want_w \<or> h = want_h"
  proof
    assume "?s = of_int want_w / of_int orig_w"
    then have "of_int orig_w * ?s = of_int want_w" using assms(1) by simp
    then show ?thesis unfolding wh by (simp only: floor_half_int) simp
  next
    assume "?s = of_int want_h / of_int orig_h"
    then have "of_int orig_h * ?s = of_int want_h" using assms(2) by simp
    then show ?thesis unfolding wh by (simp only: floor_half_int) simp
  qed
  then show ?thesis using le by (auto simp: crop_offset_def)
qed

theorem cover_size_covers_witness:
  "100 \<le> (100::int) \<and> (crop_offset 150 100 + 100 \<le> 150) \<and> cover_size 100 100 300 200 = (150, 100)"
proof -
  have *: "cover_size 100 100 300 200 = (150, 100)"
    by (simp add: cover_size_def cover_scale_def Let_def floor_eq_iff)
  from cover_size_covers [OF _ _ this] * show ?thesis by simp
qed

end
