(* ===== verification/Delivery.thy ===== *)
theory Delivery
  imports LruCache ImageProcess Encryption
begin

text \<open>
  The read side of the service: image, original, thumbnail and stream endpoints of
  \<open>internal/handler/\<close>, the middleware around them and the readiness probe. A request is modelled by
  the route parameters as Echo presents them; a response by status, body and the cache headers.
  Object stores are functions from keys to the object or an error. Requests are handled one at a
  time: the two singleflight groups, which merge concurrent calls of the same function on the same
  key, and the goroutine that writes a processed image back are taken as run to completion in order.
\<close>

section \<open>Object storage\<close>

text \<open>
  What \<open>IsNotFound\<close> inspects of an error: whether it wraps \<open>fs.ErrNotExist\<close>, one of the two S3
  error types, or a coded API error.
\<close>

record storage_error =
  se_not_exist :: bool
  se_no_such_key :: bool
  se_not_found :: bool
  se_code :: "string option"

definition storage_is_not_found :: "storage_error option \<Rightarrow> bool" where
  "storage_is_not_found e =
     (case e of None \<Rightarrow> False
      | Some err \<Rightarrow>
          if se_not_exist err then True
          else if se_no_such_key err then True
          else if se_not_found err then True
          else (case se_code err of None \<Rightarrow> False
                | Some code \<Rightarrow> code = ''NoSuchKey'' \<or> code = ''NotFound''))"

type_synonym store = "string \<Rightarrow> (storage_error, string) result"

definition no_such_key :: storage_error where
  "no_such_key = \<lparr>se_not_exist = False, se_no_such_key = True, se_not_found = False, se_code = None\<rparr>"

lemma no_such_key_not_found [simp]: "storage_is_not_found (Some no_such_key)"
  by (simp add: storage_is_not_found_def no_such_key_def)

section \<open>Responses\<close>

record response =
  rs_status :: nat
  rs_body :: string
  rs_type :: string
  rs_cache :: "string option"
  rs_etag :: "string option"

definition http_error :: "nat \<Rightarrow> string \<Rightarrow> response" where
  "http_error status message =
     \<lparr>rs_status = status, rs_body = message, rs_type = ''application/json'', rs_cache = None, rs_etag = None\<rparr>"

definition immutable_cache :: string where
  "immutable_cache = ''public, max-age=31536000, immutable''"

lemma http_error_simps [simp]:
  "rs_status (http_error n m) = n" "rs_cache (http_error n m) = None"
  by (simp_all add: http_error_def)

section \<open>Image endpoint: from the request to source key and options\<close>

record image_env =
  ie_mac :: mac
  ie_secret :: string
  ie_cipher :: image_source_cipher
  ie_sha :: "string \<Rightarrow> string"

record image_request =
  ir_sig :: string
  ir_opts :: string
  ir_wildcard :: string
  ir_source :: string
  ir_if_none_match :: string

definition resolve_image :: "image_env \<Rightarrow> image_request \<Rightarrow> (nat, string \<times> options) result" where
  "resolve_image E r =
     (let source_path = (if enabled (ie_cipher E) then ir_source r else trim_prefix (ir_wildcard r) ''/'')
      in if source_path = [] then Inl 400
      else let ext = path_ext source_path; format = parse_format ext
      in if format = FormatOriginal then Inl 400
      else let encoded_source = trim_suffix source_path ext
      in case parse_options (ir_opts r) of
           Inl e \<Rightarrow> Inl 400
         | Inr opts0 \<Rightarrow>
             let opts = opts0\<lparr>opt_format := format\<rparr>
             in (case (if enabled (ie_cipher E)
                       then verify_encrypted_image (ie_mac E) (ie_secret E) (ir_sig r) (ir_opts r) source_path
                       else verify_image (ie_mac E) (ie_secret E) (ir_sig r) (ir_opts r) source_path) of
                   Inl e \<Rightarrow> Inl 400
                 | Inr ok \<Rightarrow>
                     if \<not> ok then Inl 403
                     else if enabled (ie_cipher E) then
                       (case decrypt_source (ie_cipher E) encoded_source of
                          Inl e \<Rightarrow> Inl 403 | Inr key \<Rightarrow> Inr (key, opts))
                     else
                       (case path_unescape encoded_source of
                          None \<Rightarrow> Inl 400 | Some key \<Rightarrow> Inr (key, opts))))"

text \<open>\<open>HMACSignature\<close>, the stand-alone verification middleware.\<close>

definition hmac_middleware :: "mac \<Rightarrow> string \<Rightarrow> image_request \<Rightarrow> nat option" where
  "hmac_middleware mc secret r =
     (let source = trim_prefix (ir_wildcard r) ''/'' in
      if ir_sig r = [] \<or> source = [] then Some 400
      else case verify_image mc secret (ir_sig r) (ir_opts r) source of
        Inl e \<Rightarrow> Some 400
      | Inr ok \<Rightarrow> if ok then None else Some 403)"

text \<open>The path does not start with a slash once the route's own slash is removed.\<close>

definition plain_path :: "image_request \<Rightarrow> bool" where
  "plain_path r \<longleftrightarrow> \<not> has_prefix (trim_prefix (ir_wildcard r) ''/'') ''/''"

lemma trim_prefix_plain: "plain_path r \<Longrightarrow> trim_prefix (trim_prefix (ir_wildcard r) ''/'') ''/'' = trim_prefix (ir_wildcard r) ''/''"
  by (simp add: plain_path_def trim_prefix_def [of "trim_prefix (ir_wildcard r) ''/''"])

lemma resolve_plain:
  assumes "resolve_image E r = Inr (key, opts)" and "\<not> enabled (ie_cipher E)"
  defines "p \<equiv> trim_prefix (ir_wildcard r) ''/''"
  obtains opts0 m where "parse_options (ir_opts r) = Inr opts0" "opts = opts0\<lparr>opt_format := parse_format (path_ext p)\<rparr>"
    "path_unescape (trim_suffix p (path_ext p)) = Some key"
    "url_message (UImage (ir_opts r) p) = Inr m" "ir_sig r = hex_encode (ie_mac E (ie_secret E) m)"
  using assms sign_url_message [of "ie_mac E" "ie_secret E" "UImage (ir_opts r) p"]
  by (auto simp: resolve_image_def Let_def verify_image_def map_ok_Inr_iff
      split: if_splits sum.splits option.splits simp del: url_message.simps)


text \<open>A concrete accepted request, for the witnesses: the digest is the message itself.\<close>

definition demo_env :: image_env where
  "demo_env = \<lparr>ie_mac = (\<lambda>k m. m), ie_secret = ''s'', ie_cipher = \<lparr>isc_aead = None\<rparr>, ie_sha = (\<lambda>m. m)\<rparr>"

definition demo_request :: "string \<Rightarrow> string \<Rightarrow> image_request" where
  "demo_request opts path =
     \<lparr>ir_sig = (case url_message (UImage opts (trim_prefix path ''/'')) of Inl e \<Rightarrow> [] | Inr m \<Rightarrow> hex_encode m),
      ir_opts = opts, ir_wildcard = path, ir_source = [], ir_if_none_match = []\<rparr>"

lemma demo_resolved:
  "resolve_image demo_env (demo_request ''h2_w1'' ''/a.b.JPEG'') =
     Inr (''a.b'', \<lparr>opt_width = 1, opt_height = 2, opt_quality = 0, opt_format = FormatJPEG\<rparr>)"
  "resolve_image demo_env (demo_request ''w1_h2'' ''a%2eb.jpg'') =
     Inr (''a.b'', \<lparr>opt_width = 1, opt_height = 2, opt_quality = 0, opt_format = FormatJPEG\<rparr>)"
  "url_message (UImage ''h2_w1'' ''a.b.JPEG'') = Inr ''w1_h2/a.b.jpg''"
  "url_message (UImage ''w1_h2'' ''a%2eb.jpg'') = Inr ''w1_h2/a.b.jpg''"
proof -
  have o: "canonicalize_image_options ''h2_w1'' = Inr ''w1_h2''" "canonicalize_image_options ''w1_h2'' = Inr ''w1_h2''"
    "parse_options ''h2_w1'' = Inr \<lparr>opt_width = 1, opt_height = 2, opt_quality = 0, opt_format = FormatOriginal\<rparr>"
    "parse_options ''w1_h2'' = Inr \<lparr>opt_width = 1, opt_height = 2, opt_quality = 0, opt_format = FormatOriginal\<rparr>"
    by (simp_all add: options_eval)
  have p: "canonicalize_image_source_path ''a.b.JPEG'' = Inr ''a.b.jpg''"
    "canonicalize_image_source_path ''a%2eb.jpg'' = Inr ''a.b.jpg''"
    "path_ext ''a.b.JPEG'' = ''.JPEG''" "path_ext ''a%2eb.jpg'' = ''.jpg''"
    "trim_suffix ''a.b.JPEG'' ''.JPEG'' = ''a.b''" "trim_suffix ''a%2eb.jpg'' ''.jpg'' = ''a%2eb''"
    "path_unescape ''a.b'' = Some ''a.b''" "path_unescape ''a%2eb'' = Some ''a.b''"
    "parse_format ''.JPEG'' = FormatJPEG" "parse_format ''.jpg'' = FormatJPEG"
    "trim_prefix ''/a.b.JPEG'' ''/'' = ''a.b.JPEG''" "trim_prefix ''a%2eb.jpg'' ''/'' = ''a%2eb.jpg''"
    by code_simp+
  show m: "url_message (UImage ''h2_w1'' ''a.b.JPEG'') = Inr ''w1_h2/a.b.jpg''"
    "url_message (UImage ''w1_h2'' ''a%2eb.jpg'') = Inr ''w1_h2/a.b.jpg''"
    by (simp_all add: o p sign_message_def)
  show "resolve_image demo_env (demo_request ''h2_w1'' ''/a.b.JPEG'') =
     Inr (''a.b'', \<lparr>opt_width = 1, opt_height = 2, opt_quality = 0, opt_format = FormatJPEG\<rparr>)"
    "resolve_image demo_env (demo_request ''w1_h2'' ''a%2eb.jpg'') =
     Inr (''a.b'', \<lparr>opt_width = 1, opt_height = 2, opt_quality = 0, opt_format = FormatJPEG\<rparr>)"
    by (simp_all add: resolve_image_def demo_env_def demo_request_def enabled_def o p verify_image_def
      sign_image_def sign_def sign_message_def del: path_unescape.simps)
qed


lemma path_ext_slash: "path_ext (CHR ''/'' # w) = path_ext w"
proof -
  let ?P = "\<lambda>c. c \<noteq> CHR ''/'' \<and> c \<noteq> CHR ''.''"
  show ?thesis
  proof (cases "\<exists>c \<in> set (rev w). \<not> ?P c")
    case True
    then obtain c where "c \<in> set (rev w)" "\<not> ?P c" by blast
    then have t: "takeWhile ?P (rev w @ ''/'') = takeWhile ?P (rev w)"
      by (rule takeWhile_append1)
    from True have "dropWhile ?P (rev w) \<noteq> []" by (simp add: dropWhile_eq_Nil_conv)
    then have "drop (length (takeWhile ?P (rev w))) (rev w) \<noteq> []"
      by (simp add: dropWhile_eq_drop)
    with t show ?thesis by (simp add: path_ext_def Let_def hd_append)
  next
    case False
    then have "takeWhile ?P (rev w) = rev w" "takeWhile ?P (rev w @ ''/'') = rev w"
      using takeWhile_append2 [of "rev w" ?P "''/''"] by (simp_all add: takeWhile_eq_all_conv)
    then show ?thesis by (simp add: path_ext_def Let_def del: takeWhile_eq_all_conv)
  qed
qed

lemma trim_suffix_slash:
  "trim_suffix (CHR ''/'' # w) (path_ext w) = CHR ''/'' # trim_suffix w (path_ext w)"
  using trim_suffix_append [of "CHR ''/'' # trim_suffix w (path_ext w)" "path_ext w"] trim_path_ext [of w]
  by simp

text \<open>
  The exception: the handler removes one leading slash and the signature check another. The
  signature of a path is also valid for the path with two slashes in front, and that request reads a
  different source object, the one whose key starts with a slash.
\<close>

theorem signature_shared_with_double_slash:
  assumes "resolve_image E r = Inr (key, opts)" and "\<not> enabled (ie_cipher E)"
    and "ir_wildcard r = w" and "\<not> has_prefix w ''/''"
  shows "resolve_image E (r\<lparr>ir_wildcard := ''//'' @ w\<rparr>) = Inr (CHR ''/'' # key, opts)"
proof -
  have w: "trim_prefix w ''/'' = w" using assms(4) by (simp add: trim_prefix_def)
  have "canonicalize_image_source_path (CHR ''/'' # w) = canonicalize_image_source_path w"
    unfolding canonicalize_image_source_path_def trim_prefix_slash_Cons w ..
  then have v: "verify_image m k sg o1 (CHR ''/'' # w) = verify_image m k sg o1 w" for m k sg o1
    unfolding verify_image_def sign_image_def by (simp only:)
  show ?thesis
    using assms(1-3)
    by (auto simp: resolve_image_def w v path_ext_slash trim_suffix_slash Let_def
        split: if_splits sum.splits option.splits)
qed

theorem signature_shared_with_double_slash_witness:
  "\<exists>opts. resolve_image demo_env (demo_request ''w1_h2'' ''a%2eb.jpg'') = Inr (''a.b'', opts) \<and>
    resolve_image demo_env ((demo_request ''w1_h2'' ''a%2eb.jpg'')\<lparr>ir_wildcard := ''//'' @ ''a%2eb.jpg''\<rparr>) =
      Inr (''/a.b'', opts)"
proof -
  have "resolve_image demo_env ((demo_request ''w1_h2'' ''a%2eb.jpg'')\<lparr>ir_wildcard := ''//'' @ ''a%2eb.jpg''\<rparr>) =
      Inr (''/a.b'', \<lparr>opt_width = 1, opt_height = 2, opt_quality = 0, opt_format = FormatJPEG\<rparr>)"
    by (rule signature_shared_with_double_slash [OF demo_resolved(2)])
      (simp_all add: demo_env_def enabled_def demo_request_def has_prefix_def)
  then show ?thesis using demo_resolved(2) by blast
qed

section \<open>Image endpoint: caches and processing\<close>

definition processing_hash :: "(string \<Rightarrow> string) \<Rightarrow> string \<Rightarrow> options \<Rightarrow> string" where
  "processing_hash sha source opts = hex_encode (sha (cache_key source opts))"

definition s3_cache_key :: "format \<Rightarrow> string \<Rightarrow> string" where
  "s3_cache_key format ck = ''cache/'' @ ck @ ''.'' @ format_ext format"

definition short_hash :: "(string \<Rightarrow> string) \<Rightarrow> string \<Rightarrow> string" where
  "short_hash sha d = hex_encode (take 8 (sha d))"

definition source_fingerprint :: "(string \<Rightarrow> string) \<Rightarrow> string \<Rightarrow> string" where
  "source_fingerprint sha key = hex_encode (take 8 (sha key))"

text \<open>The first path segment that is a SHA-256 in hex, with or without the prefix, in lower case.\<close>

definition match_content_hash :: "string \<Rightarrow> string option" where
  "match_content_hash seg =
     (let digits = (if to_lower (take 7 seg) = ''sha256:'' then drop 7 seg else seg)
      in if length digits = 64 \<and> list_all (\<lambda>c. hex_val c \<noteq> None) digits then Some (to_lower digits) else None)"

fun first_match :: "string list \<Rightarrow> string" where
  "first_match [] = []"
| "first_match (seg # segs) =
     (case match_content_hash seg of Some h \<Rightarrow> h | None \<Rightarrow> first_match segs)"

definition extract_content_hash :: "string \<Rightarrow> string" where
  "extract_content_hash source = first_match (split_on (CHR ''/'') source)"

text \<open>A row of \<open>image_cache_entries\<close>; \<open>UpsertImageCacheEntry\<close> replaces the row of the same hash and
  storage key.\<close>

record cache_row =
  cr_hash :: string
  cr_cache_key :: string
  cr_storage_key :: string

definition upsert_cache_entry :: "cache_row \<Rightarrow> cache_row list \<Rightarrow> cache_row list" where
  "upsert_cache_entry r rows =
     (if \<exists>x \<in> set rows. cr_hash x = cr_hash r \<and> cr_storage_key x = cr_storage_key r
      then map (\<lambda>x. if cr_hash x = cr_hash r \<and> cr_storage_key x = cr_storage_key r then r else x) rows
      else rows @ [r])"

record image_state =
  is_lru :: lru
  is_media :: "string \<Rightarrow> string option"
  is_rows :: "cache_row list"

text \<open>What may fail while one request is served: the media store on read and on write-back, the
  database.\<close>

record image_faults =
  media_read_ok :: bool
  media_write_ok :: bool
  db_ok :: bool

definition track_cache_entry :: "bool \<Rightarrow> string \<Rightarrow> string \<Rightarrow> string \<Rightarrow> image_state \<Rightarrow> image_state" where
  "track_cache_entry ok source_key ck storage_key st =
     (let h = extract_content_hash source_key
      in if h = [] \<or> \<not> ok then st
         else st\<lparr>is_rows := upsert_cache_entry \<lparr>cr_hash = h, cr_cache_key = ck, cr_storage_key = storage_key\<rparr> (is_rows st)\<rparr>)"

definition send_image :: "(string \<Rightarrow> string) \<Rightarrow> string \<Rightarrow> string \<Rightarrow> format \<Rightarrow> response" where
  "send_image sha if_none_match d f =
     (let etag = [CHR 0x22] @ short_hash sha d @ [CHR 0x22]
      in if if_none_match = etag
         then \<lparr>rs_status = 304, rs_body = [], rs_type = [], rs_cache = Some immutable_cache, rs_etag = Some etag\<rparr>
         else \<lparr>rs_status = 200, rs_body = d, rs_type = format_mime f, rs_cache = Some immutable_cache, rs_etag = Some etag\<rparr>)"

definition source_fetch_status :: "storage_error \<Rightarrow> nat" where
  "source_fetch_status e = (if storage_is_not_found (Some e) then 404 else 502)"

definition process_status :: "process_error \<Rightarrow> nat" where
  "process_status e = (if is_decode_error e then 422 else if e = AnimatedToStatic then 422 else 500)"

definition image_handle ::
    "image_env \<Rightarrow> 'i vips \<Rightarrow> int \<Rightarrow> store \<Rightarrow> image_faults \<Rightarrow> image_request \<Rightarrow> image_state \<Rightarrow>
     response \<times> image_state" where
  "image_handle E V max_frames source F r st =
     (case resolve_image E r of
        Inl status \<Rightarrow> (http_error status [], st)
      | Inr (source_key, opts) \<Rightarrow>
          let ck = processing_hash (ie_sha E) source_key opts;
              storage_key = s3_cache_key (opt_format opts) ck
          in (case lru_get ck (is_lru st) of
                (c1, Some d) \<Rightarrow>
                  (send_image (ie_sha E) (ir_if_none_match r) d (opt_format opts),
                   track_cache_entry (db_ok F) source_key ck storage_key (st\<lparr>is_lru := c1\<rparr>))
              | (c1, None) \<Rightarrow>
                  (case (if media_read_ok F then is_media st storage_key else None) of
                     Some d \<Rightarrow>
                       (send_image (ie_sha E) (ir_if_none_match r) d (opt_format opts),
                        track_cache_entry (db_ok F) source_key ck storage_key (st\<lparr>is_lru := lru_set ck d c1\<rparr>))
                   | None \<Rightarrow>
                       (case source source_key of
                          Inl e \<Rightarrow> (http_error (source_fetch_status e) [], st\<lparr>is_lru := c1\<rparr>)
                        | Inr raw \<Rightarrow>
                            (case process_image V max_frames raw opts of
                               Inl e \<Rightarrow> (http_error (process_status e) [], st\<lparr>is_lru := c1\<rparr>)
                             | Inr d \<Rightarrow>
                                 (send_image (ie_sha E) (ir_if_none_match r) d (opt_format opts),
                                  (track_cache_entry (db_ok F) source_key ck storage_key (st\<lparr>is_lru := lru_set ck d c1\<rparr>))
                                    \<lparr>is_media := (if media_write_ok F then (is_media st)(storage_key \<mapsto> d) else is_media st)\<rparr>))))))"

text \<open>
  The invariant: whatever the memory cache or the media bucket holds under a cache key is the result
  of processing some source with some options whose key digests to that name.
\<close>

definition rendered :: "image_env \<Rightarrow> 'i vips \<Rightarrow> int \<Rightarrow> store \<Rightarrow> string \<Rightarrow> options \<Rightarrow> string \<Rightarrow> bool" where
  "rendered E V n source s opts d \<longleftrightarrow>
     (\<exists>raw. source s = Inr raw \<and> process_image V n raw opts = Inr d)"

definition image_inv :: "image_env \<Rightarrow> 'i vips \<Rightarrow> int \<Rightarrow> store \<Rightarrow> image_state \<Rightarrow> bool" where
  "image_inv E V n source st \<longleftrightarrow>
     lru_inv (is_lru st) \<and>
     (\<forall>k d. (k, d) \<in> set (lru_list (is_lru st)) \<longrightarrow>
        (\<exists>s opts. k = processing_hash (ie_sha E) s opts \<and> rendered E V n source s opts d)) \<and>
     (\<forall>f h d. is_media st (s3_cache_key f h) = Some d \<longrightarrow>
        (\<exists>s opts. h = processing_hash (ie_sha E) s opts \<and> rendered E V n source s opts d))"

lemma s3_cache_key_inj: "s3_cache_key f h = s3_cache_key g k \<longleftrightarrow> f = g \<and> h = k"
proof -
  have "CHR ''.'' \<notin> set (format_ext f)" "CHR ''.'' \<notin> set (format_ext g)"
    using format_ext_chars by blast+
  then show ?thesis
    using last_sep_inj [of "CHR ''.''" "format_ext f" "format_ext g" h k]
    by (auto simp: s3_cache_key_def)
qed

lemma track_cache_entry_simps [simp]:
  "is_lru (track_cache_entry ok s ck sk st) = is_lru st"
  "is_media (track_cache_entry ok s ck sk st) = is_media st"
  by (simp_all add: track_cache_entry_def Let_def)

lemma image_inv_lru:
  assumes "image_inv E V n source st" and "lru_inv c"
    and "\<And>k d. (k, d) \<in> set (lru_list c) \<Longrightarrow>
      (k, d) \<in> set (lru_list (is_lru st)) \<or>
      (\<exists>s opts. k = processing_hash (ie_sha E) s opts \<and> rendered E V n source s opts d)"
    and "is_lru st' = c" and "is_media st' = is_media st"
  shows "image_inv E V n source st'"
  using assms unfolding image_inv_def by metis

lemma image_inv_media:
  assumes "image_inv E V n source st" and "rendered E V n source s opts d"
  shows "image_inv E V n source (st\<lparr>is_media := (is_media st)(s3_cache_key f (processing_hash (ie_sha E) s opts) \<mapsto> d)\<rparr>)"
  using assms unfolding image_inv_def by (auto simp: s3_cache_key_inj)

text \<open>One request: what a 200 carries, and that the invariant stays.\<close>

definition answers :: "image_env \<Rightarrow> 'i vips \<Rightarrow> int \<Rightarrow> store \<Rightarrow> image_request \<Rightarrow> response \<Rightarrow> bool" where
  "answers E V n source r rs \<longleftrightarrow>
     (rs_status rs = 200 \<longrightarrow>
       (\<exists>key opts. resolve_image E r = Inr (key, opts) \<and> rs_type rs = format_mime (opt_format opts) \<and>
         (\<exists>s opts'. ie_sha E (cache_key s opts') = ie_sha E (cache_key key opts) \<and>
           rendered E V n source s opts' (rs_body rs))))"

lemma send_image_status: "rs_status (send_image sha m d f) = 200 \<Longrightarrow>
    rs_body (send_image sha m d f) = d \<and> rs_type (send_image sha m d f) = format_mime f"
  by (simp add: send_image_def Let_def split: if_splits)

lemma resolve_image_status: "resolve_image E r = Inl status \<Longrightarrow> status = 400 \<or> status = 403"
  by (auto simp: resolve_image_def Let_def split: if_splits sum.splits option.splits)

lemma answers_send:
  assumes "resolve_image E r = Inr (key, opts)"
    and "processing_hash (ie_sha E) key opts = processing_hash (ie_sha E) s opts'"
    and "rendered E V n source s opts' d"
  shows "answers E V n source r (send_image (ie_sha E) m d (opt_format opts))"
  using assms unfolding answers_def processing_hash_def hex_encode_inj
  by (metis send_image_status)

lemma answers_error: "n' \<noteq> 200 \<Longrightarrow> answers E V n source r (http_error n' m)"
  by (simp add: answers_def)

lemma image_handle_step:
  assumes inv: "image_inv E V n source st"
    and step: "image_handle E V n source F r st = (rs, st')"
  shows "image_inv E V n source st' \<and> answers E V n source r rs"
proof (cases "resolve_image E r")
  case (Inl status)
  then have "st' = st" "rs = http_error status []" "status \<noteq> 200"
    using step resolve_image_status [OF Inl] by (auto simp: image_handle_def)
  then show ?thesis using inv answers_error by blast
next
  case (Inr ko)
  obtain key opts where ko: "ko = (key, opts)" by (cases ko)
  note res = Inr [unfolded ko]
  define ck where "ck = processing_hash (ie_sha E) key opts"
  define sk where "sk = s3_cache_key (opt_format opts) ck"
  obtain c1 hit where get: "lru_get ck (is_lru st) = (c1, hit)" by (cases "lru_get ck (is_lru st)")
  have linv: "lru_inv (is_lru st)" using inv by (simp add: image_inv_def)
  have c1: "lru_inv c1" "set (lru_list c1) \<subseteq> set (lru_list (is_lru st))"
    using lru.inv_kept(1) [OF linv, of ck] lru.get_subset [OF linv, of ck] get by simp_all
  have keep: "image_inv E V n source st1" if "is_lru st1 = c1" "is_media st1 = is_media st" for st1
    by (rule image_inv_lru [OF inv c1(1) _ that]) (use c1(2) in blast)
  have store: "image_inv E V n source st1" if "is_lru st1 = lru_set ck d c1" "is_media st1 = is_media st"
    "ck = processing_hash (ie_sha E) s o1" "rendered E V n source s o1 d" for st1 d s o1
  proof (rule image_inv_lru [OF inv lru.inv_kept(2) [OF c1(1)] _ that(1,2)])
    fix k d' assume "(k, d') \<in> set (lru_list (lru_set ck d c1))"
    then have "(k, d') = (ck, d) \<or> (k, d') \<in> set (lru_list (is_lru st))"
      using lru.put_subset [OF c1(1), of ck d] c1(2) by blast
    with that(3,4) show "(k, d') \<in> set (lru_list (is_lru st)) \<or>
      (\<exists>s opts. k = processing_hash (ie_sha E) s opts \<and> rendered E V n source s opts d')" by blast
  qed
  let ?send = "\<lambda>d. send_image (ie_sha E) (ir_if_none_match r) d (opt_format opts)"
    and ?track = "\<lambda>c. track_cache_entry (db_ok F) key ck sk (st\<lparr>is_lru := c\<rparr>)"
  have step': "(rs, st') = (case hit of
      Some d \<Rightarrow> (?send d, ?track c1)
    | None \<Rightarrow>
        (case (if media_read_ok F then is_media st sk else None) of
           Some d \<Rightarrow> (?send d, ?track (lru_set ck d c1))
         | None \<Rightarrow>
            (case source key of
               Inl e \<Rightarrow> (http_error (source_fetch_status e) [], st\<lparr>is_lru := c1\<rparr>)
             | Inr raw \<Rightarrow>
                (case process_image V n raw opts of
                   Inl e \<Rightarrow> (http_error (process_status e) [], st\<lparr>is_lru := c1\<rparr>)
                 | Inr d \<Rightarrow>
                     (?send d, (?track (lru_set ck d c1))
                       \<lparr>is_media := (if media_write_ok F then (is_media st)(sk \<mapsto> d) else is_media st)\<rparr>)))))"
    using step get unfolding image_handle_def res ck_def sk_def by (cases hit) (simp_all add: Let_def)
  have err: "image_inv E V n source st' \<and> answers E V n source r rs"
    if "(rs, st') = (http_error k [], st\<lparr>is_lru := c1\<rparr>)" "k \<noteq> 200" for k
    using that keep [of st'] answers_error by simp
  show ?thesis
  proof (cases hit)
    case (Some d)
    have "(ck, d) \<in> set (lru_list (is_lru st))" using lru.get_hit [OF linv] get Some by simp
    then obtain s o1 where so: "ck = processing_hash (ie_sha E) s o1" "rendered E V n source s o1 d"
      using inv unfolding image_inv_def by blast
    have "rs = ?send d" "st' = ?track c1" using step' Some by simp_all
    then show ?thesis using keep [of st'] answers_send [OF res so [unfolded ck_def]] by simp
  next
    case None
    show ?thesis
    proof (cases "if media_read_ok F then is_media st sk else None")
      case (Some d)
      then have "is_media st (s3_cache_key (opt_format opts) ck) = Some d"
        by (simp add: sk_def split: if_splits)
      then obtain s o1 where so: "ck = processing_hash (ie_sha E) s o1" "rendered E V n source s o1 d"
        using inv unfolding image_inv_def by blast
      have "rs = ?send d" "st' = ?track (lru_set ck d c1)" using step' None Some by simp_all
      then show ?thesis using store [OF _ _ so, of st'] answers_send [OF res so [unfolded ck_def]] by simp
    next
      case media: None
      show ?thesis
      proof (cases "source key")
        case (Inl e)
        then show ?thesis
          using err [of "source_fetch_status e"] step' None media by (simp add: source_fetch_status_def)
      next
        case raw: (Inr raw)
        show ?thesis
        proof (cases "process_image V n raw opts")
          case (Inl e)
          then show ?thesis
            using err [of "process_status e"] step' None media raw by (simp add: process_status_def)
        next
          case (Inr d)
          have d: "rendered E V n source key opts d" using raw Inr by (simp add: rendered_def)
          define st1 where "st1 = ?track (lru_set ck d c1)"
          have st1: "image_inv E V n source st1"
            by (rule store [OF _ _ ck_def d]) (simp_all add: st1_def)
          have "st' = (st1\<lparr>is_media := (if media_write_ok F then (is_media st1)(sk \<mapsto> d) else is_media st1)\<rparr>)"
            and rs: "rs = ?send d"
            using step' None media raw Inr by (simp_all add: st1_def)
          then have "image_inv E V n source st'"
            using image_inv_media [OF st1 d, of "opt_format opts"] st1 by (simp add: sk_def ck_def)
          then show ?thesis using answers_send [OF res refl d] rs by simp
        qed
      qed
    qed
  qed
qed

text \<open>A sequence of requests, each with its own faults, from an empty cache and an empty bucket.\<close>

definition image_init :: "int \<Rightarrow> image_state" where
  "image_init max1 = \<lparr>is_lru = lru_new max1, is_media = (\<lambda>k. None), is_rows = []\<rparr>"

fun serve_images ::
    "image_env \<Rightarrow> 'i vips \<Rightarrow> int \<Rightarrow> store \<Rightarrow> (image_faults \<times> image_request) list \<Rightarrow> image_state \<Rightarrow>
     response list \<times> image_state" where
  "serve_images E V n source [] st = ([], st)"
| "serve_images E V n source ((F, r) # rs) st =
     (case image_handle E V n source F r st of
        (resp, st1) \<Rightarrow> (case serve_images E V n source rs st1 of (resps, st2) \<Rightarrow> (resp # resps, st2)))"

lemma image_inv_init: "image_inv E V n source (image_init m)"
  using lru_inv_new [of m] by (simp add: image_inv_def image_init_def lru_list_def lru_new_def)

lemma serve_images_ok:
  "image_inv E V n source st \<Longrightarrow>
   list_all2 (\<lambda>(F, r) rs. answers E V n source r rs) reqs (fst (serve_images E V n source reqs st))"
proof (induction reqs arbitrary: st)
  case (Cons x reqs)
  obtain F r where x: "x = (F, r)" by (cases x)
  obtain rs st1 where h: "image_handle E V n source F r st = (rs, st1)" by (cases "image_handle E V n source F r st")
  obtain resps st2 where "serve_images E V n source reqs st1 = (resps, st2)"
    by (cases "serve_images E V n source reqs st1")
  with image_handle_step [OF Cons.prems h] Cons.IH [of st1] show ?case by (simp add: x h)
qed simp

text \<open>
  C27. Caching is transparent. Over any sequence of requests, with the media store and the database
  failing at any point, every 200 response of the image endpoint is for a request that passed
  verification and carries, with the content type of its format, the processed image of a source and
  options whose cache text has the same SHA-256 as the requested one.
\<close>

theorem image_cache_transparent:
  "list_all2 (\<lambda>(F, r) rs. answers E V n source r rs)
     reqs (fst (serve_images E V n source reqs (image_init max1)))"
  by (rule serve_images_ok [OF image_inv_init])

end
