(* ===== verification/Endpoints.thy ===== *)
theory Endpoints
  imports Delivery
begin

text \<open>
  The remaining read endpoints of \<open>internal/handler/\<close> (original, thumb, stream, readiness), the
  middleware of \<open>internal/server/middleware/\<close> (API key, cache headers, fixed-window rate limit)
  and the error responses of \<open>internal/server/error_handler.go\<close>. MIME tables and content sniffing
  are standard library code that depends on the host: the record \<open>mime_env\<close>.
\<close>

section \<open>Originals and thumbnails\<close>

record mime_env =
  mime_by_ext :: "string \<Rightarrow> string"
  mime_detect :: "string \<Rightarrow> string"

text \<open>The sniffer sees the first 512 bytes; \<open>Peek\<close> fails without bytes on an empty object only.\<close>

definition content_type_for_object :: "mime_env \<Rightarrow> string \<Rightarrow> string \<Rightarrow> string" where
  "content_type_for_object M key body =
     (let ext = to_lower (path_ext key)
      in if ext \<noteq> [] \<and> mime_by_ext M ext \<noteq> [] then mime_by_ext M ext
         else if body \<noteq> [] then mime_detect M (take 512 body)
         else ''application/octet-stream'')"

definition thumb_content_type :: "mime_env \<Rightarrow> string \<Rightarrow> string" where
  "thumb_content_type M key =
     (let ext = to_lower (path_ext key)
      in if ext \<noteq> [] \<and> mime_by_ext M ext \<noteq> [] then mime_by_ext M ext else ''application/octet-stream'')"

definition object_response :: "string \<Rightarrow> string \<Rightarrow> response" where
  "object_response ct body =
     \<lparr>rs_status = 200, rs_body = body, rs_type = ct, rs_cache = None, rs_etag = None\<rparr>"

definition original_handle :: "image_env \<Rightarrow> mime_env \<Rightarrow> store \<Rightarrow> string \<Rightarrow> string \<Rightarrow> string \<Rightarrow> response" where
  "original_handle E M store sg wildcard source_param =
     (let raw_key = (if enabled (ie_cipher E) then source_param else wildcard)
      in if sg = [] \<or> raw_key = [] then http_error 400 ''missing signature or object key''
      else case (if enabled (ie_cipher E) then verify_encrypted_original (ie_mac E) (ie_secret E) sg raw_key
                 else verify_original (ie_mac E) (ie_secret E) sg raw_key) of
        Inl e \<Rightarrow> http_error 400 []
      | Inr ok \<Rightarrow>
          if \<not> ok then http_error 403 ''invalid signature''
          else (case (if enabled (ie_cipher E)
                      then map_err (\<lambda>e. 403) (decrypt_source (ie_cipher E) raw_key)
                      else map_err (\<lambda>e. 400) (canonicalize_object_key raw_key)) of
            Inl status \<Rightarrow> http_error status []
          | Inr object_key \<Rightarrow>
              (case store object_key of
                 Inl e \<Rightarrow> http_error 404 ''not found''
               | Inr body \<Rightarrow> object_response (content_type_for_object M object_key body) body)))"

definition thumb_handle :: "image_env \<Rightarrow> mime_env \<Rightarrow> store \<Rightarrow> string \<Rightarrow> string \<Rightarrow> response" where
  "thumb_handle E M store sg wildcard =
     (let raw_key = trim_prefix wildcard ''/''
      in if sg = [] \<or> raw_key = [] then http_error 400 ''missing signature or object key''
      else case verify_thumb (ie_mac E) (ie_secret E) sg raw_key of
        Inl e \<Rightarrow> http_error 400 []
      | Inr ok \<Rightarrow>
          if \<not> ok then http_error 403 ''invalid signature''
          else (case canonicalize_object_key raw_key of
            Inl e \<Rightarrow> http_error 400 []
          | Inr object_key \<Rightarrow>
              (case store object_key of
                 Inl e \<Rightarrow> http_error 404 ''not found''
               | Inr body \<Rightarrow> object_response (thumb_content_type M object_key) body)))"

definition original_key :: "image_env \<Rightarrow> string \<Rightarrow> string \<Rightarrow> string \<Rightarrow> string \<Rightarrow> bool" where
  "original_key E sg w t key \<longleftrightarrow>
     (if enabled (ie_cipher E)
      then sign_encrypted_original (ie_mac E) (ie_secret E) t = Inr sg \<and> decrypt_source (ie_cipher E) t = Inr key
      else sign_original (ie_mac E) (ie_secret E) w = Inr sg \<and> canonicalize_object_key w = Inr key)"

lemma original_shape:
  assumes "rs_status (original_handle E M store sg w t) = 200"
  shows "\<exists>key. store key = Inr (rs_body (original_handle E M store sg w t)) \<and> original_key E sg w t key"
proof -
  have "\<exists>key body. original_key E sg w t key \<and> store key = Inr body \<and>
      original_handle E M store sg w t = object_response (content_type_for_object M key body) body"
    using assms
    by (cases "enabled (ie_cipher E)")
      (auto simp: original_key_def original_handle_def Let_def verify_encrypted_original_def verify_original_def
        map_err_def split: if_splits sum.splits)
  then show ?thesis by (auto simp: object_response_def)
qed

text \<open>
  C37. The original endpoint serves only what was signed: a 200 carries the object whose key the
  signature covers; with encrypted sources the signature covers the token and the object is the one
  the token decrypts to.
\<close>

theorem signed_original_delivery:
  assumes "rs_status (original_handle E M store sg w t) = 200"
  shows "\<exists>key. store key = Inr (rs_body (original_handle E M store sg w t)) \<and>
    (if enabled (ie_cipher E)
     then sg = sign_domain (ie_mac E) (ie_secret E) ''vylux/original-url/v1'' [t] \<and>
       decrypt_source (ie_cipher E) t = Inr key
     else sg = hex_encode (ie_mac E (ie_secret E) (CHR ''/'' # key)))"
  using original_shape [OF assms]
  by (auto simp: original_key_def sign_encrypted_original_def sign_original_def sign_def sign_message_def
      split: if_splits)

definition demo_mime :: mime_env where
  "demo_mime = \<lparr>mime_by_ext = (\<lambda>e. []), mime_detect = (\<lambda>b. ''text/plain'')\<rparr>"

theorem signed_original_delivery_witness:
  "rs_body (original_handle demo_env demo_mime (\<lambda>k. if k = ''a b'' then Inr ''data'' else Inl no_such_key)
     (hex_encode ''/a b'') ''/a%20b'' []) = ''data''"
proof -
  let ?st = "\<lambda>k. if k = ''a b'' then Inr ''data'' else Inl no_such_key"
  let ?r = "original_handle demo_env demo_mime ?st (hex_encode ''/a b'') ''/a%20b'' []"
  have c: "canonicalize_object_key ''/a%20b'' = Inr ''a b''" by code_simp
  have "rs_status ?r = 200"
    by (simp add: original_handle_def demo_env_def enabled_def verify_original_def sign_original_def c sign_def
      sign_message_def object_response_def Let_def)
  from signed_original_delivery [OF this]
  obtain key where "?st key = Inr (rs_body ?r)" by blast
  then show ?thesis by (cases "key = ''a b''") simp_all
qed

text \<open>
  The thumbnail endpoint serves only what was signed in its own domain: a 200 carries the object
  whose key the signature covers after the prefix \<open>thumb/\<close>.
\<close>

theorem signed_thumb_delivery:
  assumes "rs_status (thumb_handle E M store sg w) = 200"
  shows "\<exists>key. store key = Inr (rs_body (thumb_handle E M store sg w)) \<and>
    sg = hex_encode (ie_mac E (ie_secret E) (''thumb/'' @ key))"
  using assms
  by (auto simp: thumb_handle_def Let_def object_response_def verify_thumb_def sign_thumb_def sign_def
      sign_message_def split: if_splits sum.splits)

theorem signed_thumb_delivery_witness:
  "\<exists>key. (if key = ''k'' then Inr ''data'' else Inl no_such_key) =
      Inr (rs_body (thumb_handle demo_env demo_mime (\<lambda>k. if k = ''k'' then Inr ''data'' else Inl no_such_key)
        (hex_encode ''thumb/k'') ''//k''))"
proof -
  have t: "trim_prefix ''//k'' ''/'' = ''/k''" "canonicalize_object_key ''/k'' = Inr ''k''" by code_simp+
  have "rs_status (thumb_handle demo_env demo_mime (\<lambda>k. if k = ''k'' then Inr ''data'' else Inl no_such_key)
        (hex_encode ''thumb/k'') ''//k'') = 200"
    by (simp add: thumb_handle_def t verify_thumb_def sign_thumb_def sign_def sign_message_def demo_env_def
      object_response_def Let_def)
  from signed_thumb_delivery [OF this] show ?thesis by blast
qed

section \<open>HLS streams\<close>

definition hash_shard :: "string \<Rightarrow> string" where
  "hash_shard h = (if length h \<ge> 2 then take 2 h else h)"

definition video_s3_key :: "string \<Rightarrow> string \<Rightarrow> string" where
  "video_s3_key h file_path = ''videos/'' @ hash_shard h @ ''/'' @ h @ ''/'' @ file_path"

definition audio_s3_key :: "string \<Rightarrow> string \<Rightarrow> string" where
  "audio_s3_key h file_path = ''audio/'' @ hash_shard h @ ''/'' @ h @ ''/'' @ file_path"

definition hls_content_type :: "string \<Rightarrow> string" where
  "hls_content_type file_path =
     (let ext = to_lower (path_ext file_path)
      in if ext = ''.m3u8'' then ''application/vnd.apple.mpegurl''
         else if ext = ''.m4s'' then ''video/iso.segment''
         else if ext = ''.mp4'' then ''video/mp4''
         else if ext = ''.jpg'' \<or> ext = ''.jpeg'' then ''image/jpeg''
         else if ext = ''.webp'' then ''image/webp''
         else [])"

text \<open>The first candidate that exists; any other error than a missing object stops the search.\<close>

fun first_object :: "store \<Rightarrow> string list \<Rightarrow> string option" where
  "first_object store [] = None"
| "first_object store (k # ks) =
     (case store k of
        Inr body \<Rightarrow> Some body
      | Inl e \<Rightarrow> if storage_is_not_found (Some e) then first_object store ks else None)"

definition stream_handle :: "store \<Rightarrow> string \<Rightarrow> string \<Rightarrow> response" where
  "stream_handle store h wildcard =
     (let file_path = trim_prefix wildcard ''/''
      in if h = [] \<or> file_path = [] then http_error 400 ''missing hash or file path''
      else if contains_str file_path ''..'' then http_error 400 ''invalid path''
      else let ct = hls_content_type file_path
      in if ct = [] then http_error 400 ''unsupported file type''
      else (case first_object store [video_s3_key h file_path, audio_s3_key h file_path] of
          None \<Rightarrow> http_error 404 ''not found''
        | Some body \<Rightarrow>
            \<lparr>rs_status = 200, rs_body = body, rs_type = ct, rs_cache = Some immutable_cache, rs_etag = None\<rparr>))"

lemma first_object_Some:
  "first_object store ks = Some body \<Longrightarrow> \<exists>k \<in> set ks. store k = Inr body"
  by (induction ks) (auto split: sum.splits if_splits)

text \<open>
  C38. The stream endpoint stays inside the directories of the hash it is asked for: a 200 is an
  object under \<open>videos/\<close> or \<open>audio/\<close>, shard, hash, with a relative path without \<open>..\<close>, and its
  content type is one of the six HLS types.
\<close>

theorem stream_stays_in_hash_directory:
  assumes "rs_status (stream_handle store h w) = 200"
  shows "\<exists>file_path key. store key = Inr (rs_body (stream_handle store h w)) \<and>
    file_path \<noteq> [] \<and> \<not> contains_str file_path ''..'' \<and>
    (key = ''videos/'' @ hash_shard h @ ''/'' @ h @ ''/'' @ file_path \<or>
     key = ''audio/'' @ hash_shard h @ ''/'' @ h @ ''/'' @ file_path) \<and>
    rs_type (stream_handle store h w) = hls_content_type file_path \<and> hls_content_type file_path \<noteq> []"
proof -
  let ?p = "trim_prefix w ''/''"
  obtain body where b: "first_object store [video_s3_key h ?p, audio_s3_key h ?p] = Some body"
    and p: "?p \<noteq> []" "\<not> contains_str ?p ''..''" "hls_content_type ?p \<noteq> []"
    and r: "stream_handle store h w =
      \<lparr>rs_status = 200, rs_body = body, rs_type = hls_content_type ?p, rs_cache = Some immutable_cache, rs_etag = None\<rparr>"
    using assms by (auto simp: stream_handle_def Let_def split: if_splits option.splits)
  from first_object_Some [OF b] p r show ?thesis
    by (auto simp: video_s3_key_def audio_s3_key_def)
qed

theorem stream_stays_in_hash_directory_witness:
  "\<exists>file_path. rs_type (stream_handle (\<lambda>k. if k = ''audio/ab/abc/master.m3u8'' then Inr ''#EXTM3U'' else Inl no_such_key)
      ''abc'' ''/master.m3u8'') = hls_content_type file_path \<and> hls_content_type file_path \<noteq> []"
proof -
  have t: "trim_prefix ''/master.m3u8'' ''/'' = ''master.m3u8''" "contains_str ''master.m3u8'' ''..'' = False"
    "hls_content_type ''master.m3u8'' = ''application/vnd.apple.mpegurl''" by code_simp+
  have "rs_status (stream_handle (\<lambda>k. if k = ''audio/ab/abc/master.m3u8'' then Inr ''#EXTM3U'' else Inl no_such_key)
      ''abc'' ''/master.m3u8'') = 200"
    by (simp add: stream_handle_def t video_s3_key_def audio_s3_key_def hash_shard_def Let_def del: contains_str.simps)
  from stream_stays_in_hash_directory [OF this] show ?thesis by blast
qed

section \<open>Readiness\<close>

text \<open>A probe is absent, succeeds or fails with a message.\<close>

datatype probe = ProbeMissing | ProbeOk | ProbeFailed string

record check_result =
  ck_name :: string
  ck_ok :: bool
  ck_error :: string

definition run_check :: "string \<times> probe \<Rightarrow> check_result" where
  "run_check c =
     (case snd c of
        ProbeMissing \<Rightarrow> \<lparr>ck_name = fst c, ck_ok = False, ck_error = ''probe unavailable''\<rparr>
      | ProbeFailed m \<Rightarrow> \<lparr>ck_name = fst c, ck_ok = False, ck_error = m\<rparr>
      | ProbeOk \<Rightarrow> \<lparr>ck_name = fst c, ck_ok = True, ck_error = []\<rparr>)"

definition readyz :: "probe \<Rightarrow> probe \<Rightarrow> probe \<Rightarrow> probe \<Rightarrow> nat \<times> check_result list" where
  "readyz db redis source_bucket media_bucket =
     (let results = map run_check
            [(''postgres'', db), (''redis'', redis),
             (''source bucket'', if source_bucket = ProbeMissing then ProbeFailed ''source storage is not configured'' else source_bucket),
             (''media bucket'', if media_bucket = ProbeMissing then ProbeFailed ''media storage is not configured'' else media_bucket)]
      in if list_all ck_ok results then (200, []) else (503, results))"

lemma readyz_ready_iff:
  "fst (readyz a b c d) = 200 \<longleftrightarrow> a = ProbeOk \<and> b = ProbeOk \<and> c = ProbeOk \<and> d = ProbeOk"
  by (cases a; cases b; cases c; cases d) (simp_all add: readyz_def run_check_def)

section \<open>Middleware\<close>

definition api_key_auth :: "string \<Rightarrow> string \<Rightarrow> nat option" where
  "api_key_auth api_key header =
     (if header = [] then Some 401 else if header \<noteq> api_key then Some 401 else None)"

text \<open>Response headers, and a handler that may set headers and may return an error.\<close>

type_synonym headers = "string \<Rightarrow> string option"

definition cache_headers :: "bool \<Rightarrow> (headers \<Rightarrow> bool \<times> headers) \<Rightarrow> headers \<Rightarrow> bool \<times> headers" where
  "cache_headers immutable nxt h0 =
     (let cc = (if immutable then ''public, max-age=31536000, immutable'' else ''public, max-age=86400'')
      in case nxt (h0(''Cache-Control'' \<mapsto> cc, ''Vary'' \<mapsto> ''Accept'')) of
           (failed, h1) \<Rightarrow>
             if failed then (True, h1(''Cache-Control'' := None, ''Vary'' := None)) else (False, h1))"

lemma cache_headers_error:
  "fst (cache_headers im nxt h) \<Longrightarrow> snd (cache_headers im nxt h) ''Cache-Control'' = None"
  by (auto simp: cache_headers_def Let_def split: prod.splits if_splits)

definition hash_rate_limit_key :: "(string \<Rightarrow> string) \<Rightarrow> string \<Rightarrow> string" where
  "hash_rate_limit_key sha raw = (if raw = [] then [] else hex_encode (take 8 (sha raw)))"

text \<open>Redis counters: value and expiry second of a key; an expired key counts as absent.\<close>

type_synonym counters = "string \<Rightarrow> (int \<times> int) option"

definition redis_incr :: "int \<Rightarrow> int \<Rightarrow> string \<Rightarrow> counters \<Rightarrow> counters \<times> int" where
  "redis_incr now ttl k st =
     (let v = (case st k of Some (n, e) \<Rightarrow> if now < e then n + 1 else 1 | None \<Rightarrow> 1)
      in (st(k \<mapsto> (v, now + ttl)), v))"

definition rate_limit_bucket_key :: "string \<Rightarrow> string \<Rightarrow> int \<Rightarrow> string" where
  "rate_limit_bucket_key prefix key bucket =
     ''ratelimit:'' @ prefix @ '':'' @ key @ '':'' @ show_int bucket"

text \<open>
  \<open>redis_up\<close> is false when there is no client or the transaction fails: the request passes. The
  window is in whole seconds. The result says whether the request goes on to the handler.
\<close>

definition rate_limit ::
    "string \<Rightarrow> int \<Rightarrow> int \<Rightarrow> bool \<Rightarrow> string \<Rightarrow> int \<Rightarrow> counters \<Rightarrow> counters \<times> bool" where
  "rate_limit prefix limit window redis_up key now st =
     (if \<not> redis_up \<or> key = [] then (st, True)
      else let window_seconds = (if window \<le> 0 then 60 else window);
               k = rate_limit_bucket_key prefix key (now div window_seconds)
           in case redis_incr now (window + 5) k st of
                (st', n) \<Rightarrow> (st', \<not> n > limit))"

fun rate_limit_run :: "string \<Rightarrow> int \<Rightarrow> int \<Rightarrow> (string \<times> int) list \<Rightarrow> counters \<Rightarrow> bool list" where
  "rate_limit_run prefix limit window [] st = []"
| "rate_limit_run prefix limit window ((key, now) # rs) st =
     (case rate_limit prefix limit window True key now st of
        (st', ok) \<Rightarrow> ok # rate_limit_run prefix limit window rs st')"

lemma rate_limit_bucket_key_inj:
  "rate_limit_bucket_key p k b = rate_limit_bucket_key p k' b' \<longleftrightarrow> k = k' \<and> b = b'"
proof -
  have "CHR '':'' \<notin> set (show_int i)" for i by (simp add: show_int_free is_digit_def)
  then show ?thesis
    using last_sep_inj [of "CHR '':''" "show_int b" "show_int b'" k k']
    by (auto simp: rate_limit_bucket_key_def show_int_inj)
qed

text \<open>The counter of a bucket does not expire while the bucket lasts.\<close>

definition counter_live :: "int \<Rightarrow> int \<Rightarrow> (int \<times> int) option \<Rightarrow> bool" where
  "counter_live window b c = (case c of None \<Rightarrow> True | Some (n, e) \<Rightarrow> 0 \<le> n \<and> (b + 1) * window \<le> e)"

definition counter_value :: "(int \<times> int) option \<Rightarrow> int" where
  "counter_value c = (case c of None \<Rightarrow> 0 | Some (n, e) \<Rightarrow> n)"

definition allowed :: "string \<Rightarrow> int \<Rightarrow> int \<Rightarrow> ((string \<times> int) \<times> bool) list \<Rightarrow> nat" where
  "allowed key window b xs = length (filter (\<lambda>((k, t), ok). ok \<and> k = key \<and> t div window = b) xs)"

lemma bucket_bounds:
  fixes window :: int
  assumes "0 < window"
  shows "(t div window) * window \<le> t"
  using assms by (simp add: div_mult_mod_eq minus_mod_eq_div_mult [symmetric])

lemma bucket_end:
  fixes window :: int
  assumes "0 < window"
  shows "t < (t div window + 1) * window"
proof -
  have "t = t div window * window + t mod window" by simp
  moreover have "t mod window < window" using assms by simp
  ultimately show ?thesis unfolding distrib_right by linarith
qed

lemma rate_limit_run_bound:
  assumes w: "0 < window" and k: "key \<noteq> []"
    and "counter_live window b (st (rate_limit_bucket_key prefix key b))"
  shows "int (allowed key window b (zip reqs (rate_limit_run prefix limit window reqs st)))
    \<le> max 0 (limit - counter_value (st (rate_limit_bucket_key prefix key b)))"
  using assms(3)
proof (induction reqs arbitrary: st)
  case Nil
  then show ?case by (simp add: allowed_def)
next
  case (Cons r reqs)
  obtain key1 t where r: "r = (key1, t)" by (cases r)
  let ?K = "rate_limit_bucket_key prefix key b"
  let ?K1 = "rate_limit_bucket_key prefix key1 (t div window)"
  obtain st' ok where step: "rate_limit prefix limit window True key1 t st = (st', ok)"
    by (cases "rate_limit prefix limit window True key1 t st")
  show ?case
  proof (cases "key1 = key \<and> t div window = b")
    case False
    have "st' ?K = st ?K"
      using step False w rate_limit_bucket_key_inj [of prefix key1 "t div window" key b]
      by (auto simp: rate_limit_def redis_incr_def Let_def split: if_splits)
    moreover have "allowed key window b (zip (r # reqs) (rate_limit_run prefix limit window (r # reqs) st)) =
        allowed key window b (zip reqs (rate_limit_run prefix limit window reqs st'))"
      using False by (simp add: r step allowed_def)
    ultimately show ?thesis using Cons.IH [of st'] Cons.prems by simp
  next
    case True
    have t: "b * window \<le> t" using bucket_bounds [OF w, of t] True by simp
    have live: "t < e" if "st ?K = Some (n, e)" for n e
      using Cons.prems that w True by (simp add: counter_live_def) (smt (verit) bucket_end)
    define n where "n = counter_value (st ?K) + 1"
    have "0 \<le> counter_value (st ?K)"
      using Cons.prems by (auto simp: counter_live_def counter_value_def split: option.splits)
    then have n: "1 \<le> n" by (simp add: n_def)
    have st': "st' = st(?K \<mapsto> (n, t + (window + 5)))" "ok = (n \<le> limit)"
      using step True w k live
      by (auto simp: rate_limit_def redis_incr_def Let_def n_def counter_value_def split: option.splits if_splits)
    have "counter_live window b (st' ?K)"
      using n t by (simp add: st' counter_live_def algebra_simps)
    note IH = Cons.IH [of st', OF this]
    have "counter_value (st' ?K) = n" by (simp add: st' counter_value_def)
    then have "int (allowed key window b (zip reqs (rate_limit_run prefix limit window reqs st'))) \<le> max 0 (limit - n)"
      using IH by (simp only:)
    moreover have "int (allowed key window b (zip (r # reqs) (rate_limit_run prefix limit window (r # reqs) st))) =
        (if ok then 1 else 0) + int (allowed key window b (zip reqs (rate_limit_run prefix limit window reqs st')))"
      using True step by (auto simp: r allowed_def)
    ultimately show ?thesis using st'(2) n by (simp add: n_def split: if_splits)
  qed
qed

text \<open>
  With Redis up, the limiter lets at most \<open>limit\<close> requests of one caller through in one window,
  whatever requests of other callers and other windows are interleaved: the five seconds added to the
  expiry keep the counter alive until its window is over.
\<close>

theorem rate_limit_bound:
  assumes "0 < window" and "key \<noteq> []"
  shows "int (allowed key window b (zip reqs (rate_limit_run prefix limit window reqs (\<lambda>k. None)))) \<le> max 0 limit"
  using rate_limit_run_bound [OF assms, of b "\<lambda>k. None" prefix reqs limit]
  by (simp add: counter_live_def counter_value_def)

theorem rate_limit_bound_witness:
  "int (allowed ''a'' 60 1 (zip [(''a'', 60), (''b'', 61), (''a'', 119)]
     (rate_limit_run ''jobs'' 1 60 [(''a'', 60), (''b'', 61), (''a'', 119)] (\<lambda>k. None)))) \<le> 1"
  using rate_limit_bound [of 60 "''a''" 1 "[(''a'', 60), (''b'', 61), (''a'', 119)]" "''jobs''" 1] by simp

section \<open>Error responses\<close>

datatype message = MString string | MError string | MStringer string | MOther

definition http_error_message :: "(nat \<Rightarrow> string) \<Rightarrow> message \<Rightarrow> nat \<Rightarrow> string" where
  "http_error_message status_text m status =
     (let fallback = (if status_text status \<noteq> [] then status_text status else status_text 500)
      in case m of
           MString s \<Rightarrow> if s \<noteq> [] then s else fallback
         | MError s \<Rightarrow> if s \<noteq> [] then s else fallback
         | MStringer s \<Rightarrow> if s \<noteq> [] then s else fallback
         | MOther \<Rightarrow> fallback)"

end
