(* ===== verification/JobFlow.thy ===== *)
theory JobFlow
  imports QueueTasks VideoProcessor Endpoints
begin

text \<open>
  The state of a \<open>video:full\<close> workflow, \<open>internal/jobflow/video_full.go\<close>, and the helpers of
  \<open>internal/queue/handlers/full.go\<close> that read and write it: stage states, the retry plan and the
  failure text. The status constants of the source are the constructors of \<open>stage_status\<close>.
\<close>

section \<open>Stage states and artifacts\<close>

datatype stage_status = StatusPending | StatusReady | StatusFailed | StatusSkipped

record stage_state =
  sg_status :: stage_status
  sg_error_code :: string
  sg_error :: string
  sg_reason :: string
  sg_retryable :: bool

record cover_artifact =
  ca_key :: string
  ca_format :: string
  ca_size :: nat

record preview_artifact =
  pw_key :: string
  pw_format :: string
  pw_size :: nat

record streaming_artifact =
  sa_protocol :: string
  sa_container :: string
  sa_encrypted :: bool
  sa_master :: string
  sa_default_audio :: string

record audio_track_artifact =
  aa_id :: string
  aa_role :: string
  aa_language :: string
  aa_codec :: string
  aa_channels :: int
  aa_bitrate :: int
  aa_playlist :: string
  aa_init :: string
  aa_segments :: nat

record video_track_artifact =
  vt_id :: string
  vt_codec :: string
  vt_width :: int
  vt_height :: int
  vt_bitrate :: int
  vt_playlist :: string
  vt_init :: string
  vt_segments :: nat
  vt_audio_ids :: "string list"

record encryption_artifact =
  ea_scheme :: string
  ea_kid :: string
  ea_endpoint :: string

record transcode_artifact =
  ta_streaming :: streaming_artifact
  ta_audio :: "audio_track_artifact list"
  ta_video :: "video_track_artifact list"
  ta_encryption :: "encryption_artifact option"
  ta_uploaded :: "string list"

record full_artifacts =
  fa_cover :: "cover_artifact option"
  fa_preview :: "preview_artifact option"
  fa_transcode :: "transcode_artifact option"

record full_stages =
  fs_source :: stage_state
  fs_cover :: stage_state
  fs_preview :: stage_state
  fs_transcode :: stage_state

datatype retry_strategy = RetryNone | RetryJob | RetryTasks

record retry_plan =
  rp_allowed :: bool
  rp_strategy :: retry_strategy
  rp_job_types :: "string list"
  rp_stages :: "string list"
  rp_reason :: string

record full_result =
  fr_stages :: full_stages
  fr_artifacts :: full_artifacts
  fr_plan :: retry_plan

definition stage_of_status :: "stage_status \<Rightarrow> stage_state" where
  "stage_of_status s = \<lparr>sg_status = s, sg_error_code = [], sg_error = [], sg_reason = [], sg_retryable = False\<rparr>"

definition new_full_result :: full_result where
  "new_full_result =
     (let pending = stage_of_status StatusPending in
      \<lparr>fr_stages = \<lparr>fs_source = pending, fs_cover = pending, fs_preview = pending, fs_transcode = pending\<rparr>,
       fr_artifacts = \<lparr>fa_cover = None, fa_preview = None, fa_transcode = None\<rparr>,
       fr_plan = \<lparr>rp_allowed = False, rp_strategy = RetryNone, rp_job_types = [], rp_stages = [], rp_reason = []\<rparr>\<rparr>)"

definition ready_stage :: stage_state where
  "ready_stage = stage_of_status StatusReady"

definition failed_stage :: "string \<Rightarrow> string \<Rightarrow> stage_state" where
  "failed_stage code message =
     \<lparr>sg_status = StatusFailed, sg_error_code = code, sg_error = message, sg_reason = [], sg_retryable = True\<rparr>"

definition skipped_stage :: "string \<Rightarrow> stage_state" where
  "skipped_stage reason =
     \<lparr>sg_status = StatusSkipped, sg_error_code = [], sg_error = [], sg_reason = reason, sg_retryable = False\<rparr>"

lemma stage_status_simps [simp]:
  "sg_status ready_stage = StatusReady" "sg_status (failed_stage c m) = StatusFailed"
  "sg_status (skipped_stage r) = StatusSkipped" "sg_status (stage_of_status s) = s"
  by (simp_all add: ready_stage_def failed_stage_def skipped_stage_def stage_of_status_def)

section \<open>Retry plans\<close>

text \<open>\<open>dedupeStrings\<close> keeps the first occurrence of every string that is not empty.\<close>

fun dedupe_from :: "string list \<Rightarrow> string list \<Rightarrow> string list" where
  "dedupe_from seen [] = []"
| "dedupe_from seen (x # xs) =
     (if x = [] \<or> x \<in> set seen then dedupe_from seen xs else x # dedupe_from (x # seen) xs)"

definition dedupe_strings :: "string list \<Rightarrow> string list" where
  "dedupe_strings xs = dedupe_from [] xs"

lemma set_dedupe_from: "set (dedupe_from seen xs) = set xs - set seen - {[]}"
  by (induction xs arbitrary: seen) auto

lemma dedupe_from_distinct: "distinct (dedupe_from seen xs)"
  by (induction xs arbitrary: seen) (auto simp: set_dedupe_from)

lemma dedupe_from_id: "distinct xs \<Longrightarrow> [] \<notin> set xs \<Longrightarrow> set xs \<inter> set seen = {} \<Longrightarrow> dedupe_from seen xs = xs"
  by (induction xs arbitrary: seen) auto

lemma set_dedupe [simp]: "set (dedupe_strings xs) = set xs - {[]}"
  by (simp add: dedupe_strings_def set_dedupe_from)

lemma dedupe_distinct [simp]: "distinct (dedupe_strings xs)"
  by (simp add: dedupe_strings_def dedupe_from_distinct)

lemma dedupe_id [simp]: "distinct xs \<Longrightarrow> [] \<notin> set xs \<Longrightarrow> dedupe_strings xs = xs"
  by (simp add: dedupe_strings_def dedupe_from_id)

definition set_retry_plan ::
    "retry_strategy \<Rightarrow> string list \<Rightarrow> string list \<Rightarrow> string \<Rightarrow> full_result \<Rightarrow> full_result" where
  "set_retry_plan strategy job_types stages reason r =
     r\<lparr>fr_plan := \<lparr>rp_allowed = (job_types \<noteq> []), rp_strategy = strategy, rp_job_types = dedupe_strings job_types,
                  rp_stages = dedupe_strings stages, rp_reason = reason\<rparr>\<rparr>"

abbreviation stage_failed :: "stage_state \<Rightarrow> bool" where
  "stage_failed s \<equiv> sg_status s = StatusFailed"

definition retry_tasks_cover_preview :: "full_result \<Rightarrow> string list" where
  "retry_tasks_cover_preview r =
     (if stage_failed (fs_cover (fr_stages r)) then [type_video_cover] else []) @
     (if stage_failed (fs_preview (fr_stages r)) then [type_video_preview] else []) @ [type_video_transcode]"

definition retry_stages_cover_preview :: "full_result \<Rightarrow> string list" where
  "retry_stages_cover_preview r =
     (if stage_failed (fs_cover (fr_stages r)) then [''cover''] else []) @
     (if stage_failed (fs_preview (fr_stages r)) then [''preview''] else []) @ [''transcode'']"

text \<open>
  \<open>videoFullFailureError\<close>: the failed stages in alphabetical order, printed as Go prints a slice.
\<close>

definition failed_stage_names :: "full_result \<Rightarrow> string list" where
  "failed_stage_names r =
     (let s = fr_stages r in
      (if stage_failed (fs_cover s) then [''cover''] else []) @ (if stage_failed (fs_preview s) then [''preview''] else []) @
      (if stage_failed (fs_source s) then [''source''] else []) @ (if stage_failed (fs_transcode s) then [''transcode''] else []))"

definition full_failure_error :: "full_result \<Rightarrow> string" where
  "full_failure_error r =
     (if failed_stage_names r = [] then ''video:full failed''
      else ''video:full failed: ['' @ join_with '' '' (failed_stage_names r) @ '']'')"

section \<open>Transcode result\<close>

definition audio_artifact :: "string \<Rightarrow> packaged_audio \<Rightarrow> audio_track_artifact" where
  "audio_artifact h t =
     \<lparr>aa_id = at_id (pa_track t), aa_role = at_role (pa_track t), aa_language = at_language (pa_track t),
      aa_codec = at_codec (pa_track t), aa_channels = at_channels (pa_track t), aa_bitrate = pa_bitrate t,
      aa_playlist = video_s3_key h (pa_playlist t), aa_init = video_s3_key h (pa_init t),
      aa_segments = length (pa_segments t)\<rparr>"

definition video_artifact :: "string \<Rightarrow> packaged_video \<Rightarrow> video_track_artifact" where
  "video_artifact h t =
     \<lparr>vt_id = va_label (pv_variant t), vt_codec = codec_name (va_codec (pv_variant t)),
      vt_width = va_width (pv_variant t), vt_height = va_height (pv_variant t), vt_bitrate = pv_bitrate t,
      vt_playlist = video_s3_key h (pv_playlist t), vt_init = video_s3_key h (pv_init t),
      vt_segments = length (pv_segments t),
      vt_audio_ids = (if pv_audio_track t \<noteq> [] then [pv_audio_track t] else [])\<rparr>"

definition build_transcode_result ::
    "string \<Rightarrow> transcode_result \<Rightarrow> string list \<Rightarrow> material option \<Rightarrow> transcode_artifact" where
  "build_transcode_result h r uploaded m =
     \<lparr>ta_streaming = \<lparr>sa_protocol = ''hls'', sa_container = ''cmaf'', sa_encrypted = (m \<noteq> None),
        sa_master = video_s3_key h (tr_master r),
        sa_default_audio = (case tr_audio r of [] \<Rightarrow> [] | t # ts \<Rightarrow> at_id (pa_track t))\<rparr>,
      ta_audio = map (audio_artifact h) (tr_audio r),
      ta_video = map (video_artifact h) (tr_video r),
      ta_encryption = map_option (\<lambda>k. \<lparr>ea_scheme = m_scheme k, ea_kid = hex_encode (m_key_id k), ea_endpoint = m_key_uri k\<rparr>) m,
      ta_uploaded = uploaded\<rparr>"

end
