(* ===== verification/AudioFlow.thy ===== *)
theory AudioFlow
  imports AudioProbe Waveform JobFlow
begin

text \<open>
  Audio processing: the result envelope of \<open>internal/audio/result.go\<close> and the packaging of
  \<open>internal/audio/transcode.go\<close>. FFmpeg and the packager are the \<open>media_tools\<close> of the video
  theory; the track struct has the fields of the video package's audio track.
\<close>

section \<open>Result envelope\<close>

record audio_stage =
  as_status :: stage_status
  as_code :: string
  as_error :: string
  as_reason :: string

record audio_stages =
  au_source :: audio_stage
  au_probe :: audio_stage
  au_package :: audio_stage
  au_downloads :: audio_stage
  au_waveform :: audio_stage

record failure_context =
  fc_stage :: string
  fc_code :: string
  fc_message :: string

record download_artifact =
  da_format :: string
  da_bitrate :: int
  da_key :: string
  da_size :: nat

record waveform_artifact =
  wa_key :: string
  wa_bins :: nat

record hls_artifact =
  ha_protocol :: string
  ha_container :: string
  ha_encrypted :: bool
  ha_master :: string
  ha_default :: string
  ha_renditions :: "audio_track_artifact list"

record audio_result =
  ar_analysis :: "probe_result option"
  ar_stages :: audio_stages
  ar_failure :: "failure_context option"
  ar_streaming :: "hls_artifact option"
  ar_encryption :: "encryption_artifact option"
  ar_downloads :: "download_artifact list"
  ar_waveform :: "waveform_artifact option"

definition audio_pending :: audio_stage where
  "audio_pending = \<lparr>as_status = StatusPending, as_code = [], as_error = [], as_reason = []\<rparr>"

definition audio_ready :: audio_stage where
  "audio_ready = \<lparr>as_status = StatusReady, as_code = [], as_error = [], as_reason = []\<rparr>"

definition audio_failed :: "string \<Rightarrow> string \<Rightarrow> audio_stage" where
  "audio_failed code message = \<lparr>as_status = StatusFailed, as_code = code, as_error = message, as_reason = []\<rparr>"

definition audio_skipped :: "string \<Rightarrow> audio_stage" where
  "audio_skipped reason = \<lparr>as_status = StatusSkipped, as_code = [], as_error = [], as_reason = reason\<rparr>"

definition stage_for_enabled :: "bool \<Rightarrow> audio_stage" where
  "stage_for_enabled on = (if on then audio_pending else audio_skipped ''disabled'')"

text \<open>The zero analysis of the source is \<open>None\<close>.\<close>

definition new_audio_result :: "bool \<Rightarrow> bool \<Rightarrow> bool \<Rightarrow> audio_result" where
  "new_audio_result package downloads waveform =
     \<lparr>ar_analysis = None,
      ar_stages = \<lparr>au_source = audio_pending, au_probe = audio_pending, au_package = stage_for_enabled package,
        au_downloads = stage_for_enabled downloads, au_waveform = stage_for_enabled waveform\<rparr>,
      ar_failure = None, ar_streaming = None, ar_encryption = None, ar_downloads = [], ar_waveform = None\<rparr>"

definition mark_failure :: "string \<Rightarrow> string \<Rightarrow> string \<Rightarrow> audio_result \<Rightarrow> audio_result" where
  "mark_failure stage code message r =
     r\<lparr>ar_failure := Some \<lparr>fc_stage = stage, fc_code = code, fc_message = message\<rparr>\<rparr>"

lemma audio_status_simps [simp]:
  "as_status audio_pending = StatusPending" "as_status audio_ready = StatusReady"
  "as_status (audio_failed c m) = StatusFailed" "as_status (audio_skipped r) = StatusSkipped"
  "as_status (stage_for_enabled on) = (if on then StatusPending else StatusSkipped)"
  by (simp_all add: audio_pending_def audio_ready_def audio_failed_def audio_skipped_def stage_for_enabled_def)

section \<open>Audio-only HLS\<close>

definition default_hls_track :: audio_track where
  "default_hls_track =
     \<lparr>at_id = ''aac_128'', at_role = ''main'', at_language = ''und'', at_codec = ''aac'', at_channels = 2,
      at_bitrate = ''128k''\<rparr>"

definition hls_init_path :: "audio_track \<Rightarrow> string" where
  "hls_init_path t = filepath_join [''hls'', at_id t, ''init.mp4'']"

definition hls_playlist_path :: "audio_track \<Rightarrow> string" where
  "hls_playlist_path t = filepath_join [''hls'', at_id t, ''playlist.m3u8'']"

definition hls_segment_pattern :: "audio_track \<Rightarrow> string" where
  "hls_segment_pattern t = filepath_join [''hls'', at_id t, ''seg_$Number$.m4s'']"

definition hls_segment_glob :: "audio_track \<Rightarrow> string" where
  "hls_segment_glob t = filepath_join [''hls'', at_id t, ''seg_*.m4s'']"

definition hls_audio_name :: "audio_track \<Rightarrow> string" where
  "hls_audio_name t = (if at_role t \<noteq> [] then to_upper (take 1 (at_role t)) @ drop 1 (at_role t) else ''Audio'')"

definition hls_audio_descriptor :: "string \<Rightarrow> string \<Rightarrow> audio_track \<Rightarrow> string" where
  "hls_audio_descriptor input out_dir t =
     join_with '',''
       ([''in='' @ input, ''stream=audio'',
         ''init_segment='' @ path_join [out_dir, hls_init_path t],
         ''segment_template='' @ path_join [out_dir, hls_segment_pattern t],
         ''playlist_name='' @ path_join [out_dir, hls_playlist_path t],
         ''hls_group_id=audio'', ''hls_name='' @ hls_audio_name t] @
        (if has_packager_language (at_language t) then [''lang='' @ at_language t] else []))"

definition hls_package_args ::
    "string \<Rightarrow> string \<Rightarrow> audio_track \<Rightarrow> int \<Rightarrow> encryption_config option \<Rightarrow> (video_error, string list) result" where
  "hls_package_args out_dir encoded track segment_sec ec =
     bind_result (encryption_args ec) (\<lambda>eargs.
       Inr ([hls_audio_descriptor (path_clean encoded) out_dir track,
             ''--hls_master_playlist_output'', path_join [out_dir, filepath_join [''hls'', ''master.m3u8'']],
             ''--hls_playlist_type'', ''VOD'', ''--segment_duration'', show_int segment_sec,
             ''--fragment_duration'', show_int segment_sec] @
            (if has_packager_language (at_language track) then [''--default_language'', at_language track] else []) @
            eargs))"

definition hls_encode_args :: "string \<Rightarrow> string \<Rightarrow> audio_track \<Rightarrow> string list" where
  "hls_encode_args input output t =
     [''-y'', ''-i'', input, ''-map'', ''0:a:0'', ''-vn'', ''-c:a'', ''aac'', ''-b:a'', at_bitrate t,
      ''-movflags'', ''+faststart'', output]"

definition mp3_args :: "string \<Rightarrow> string \<Rightarrow> string \<Rightarrow> string list" where
  "mp3_args input output bitrate =
     [''-y'', ''-i'', input, ''-map'', ''0:a:0'', ''-vn'', ''-c:a'', ''libmp3lame'',
      ''-b:a'', (if bitrate = [] then ''320k'' else bitrate), output]"

definition flac_args :: "string \<Rightarrow> string \<Rightarrow> string list" where
  "flac_args input output = [''-y'', ''-i'', input, ''-map'', ''0:a:0'', ''-vn'', ''-c:a'', ''flac'', output]"

record hls_result =
  hr_master :: string
  hr_renditions :: "packaged_audio list"

text \<open>\<open>PackageHLS\<close> with the default track and segment length, as the worker calls it.\<close>

definition package_hls ::
    "media_tools \<Rightarrow> string \<Rightarrow> string \<Rightarrow> encryption_config option \<Rightarrow> (video_error, hls_result) result" where
  "package_hls T input out_dir ec =
     (let track = default_hls_track in
      bind_result (map_err ToolFailed (mt_scratch T)) (\<lambda>dir.
      let encoded = path_join [dir, at_id track @ ''.mp4''] in
      bind_result (map_err ToolFailed (mt_ffmpeg T (hls_encode_args input encoded track))) (\<lambda>_.
      bind_result (hls_package_args out_dir encoded track 6 ec) (\<lambda>args.
      bind_result (map_err ToolFailed (mt_packager T args)) (\<lambda>_.
        Inr \<lparr>hr_master = filepath_join [''hls'', ''master.m3u8''],
             hr_renditions = [\<lparr>pa_track = track, pa_bitrate = parse_bitrate (at_bitrate track),
               pa_playlist = hls_playlist_path track, pa_init = hls_init_path track,
               pa_segments = mt_glob T (path_join [out_dir, hls_segment_glob track])\<rparr>]\<rparr>)))))"

text \<open>\<open>buildAudioStreamingResult\<close> of \<open>internal/queue/handlers/audio.go\<close>.\<close>

definition rendition_artifact :: "string \<Rightarrow> packaged_audio \<Rightarrow> audio_track_artifact" where
  "rendition_artifact h t =
     \<lparr>aa_id = at_id (pa_track t), aa_role = at_role (pa_track t), aa_language = at_language (pa_track t),
      aa_codec = at_codec (pa_track t), aa_channels = at_channels (pa_track t), aa_bitrate = pa_bitrate t,
      aa_playlist = audio_s3_key h (pa_playlist t), aa_init = audio_s3_key h (pa_init t),
      aa_segments = length (pa_segments t)\<rparr>"

definition build_audio_streaming :: "string \<Rightarrow> hls_result \<Rightarrow> bool \<Rightarrow> hls_artifact" where
  "build_audio_streaming h r encrypted =
     \<lparr>ha_protocol = ''hls'', ha_container = ''cmaf'', ha_encrypted = encrypted,
      ha_master = audio_s3_key h (hr_master r),
      ha_default = (case hr_renditions r of [] \<Rightarrow> [] | t # ts \<Rightarrow> at_id (pa_track t)),
      ha_renditions = map (rendition_artifact h) (hr_renditions r)\<rparr>"

text \<open>
  \<open>parseAudioBitrate\<close> of the worker: the error of \<open>Atoi\<close> is ignored, so a value out of range is the
  clamped bound, and the product is taken in 64 bits.
\<close>

definition parse_audio_bitrate :: "string \<Rightarrow> int" where
  "parse_audio_bitrate value =
     (let v = trim_space (to_lower value) in
      if v = [] then 0
      else let n = atoi_value (trim_suffix v ''k'') in
        if has_suffix v ''k'' then wrap_int64 (n * 1000) else n)"

lemma package_hls_steps:
  assumes "package_hls T input out_dir ec = Inr r"
  obtains dir args where
    "hls_package_args out_dir (path_join [dir, at_id default_hls_track @ ''.mp4'']) default_hls_track 6 ec = Inr args"
    "mt_packager T args = Inr ()" "hr_master r = ''hls/master.m3u8''"
    "map pa_track (hr_renditions r) = [default_hls_track]"
  using assms by (auto simp: package_hls_def Let_def bind_result_Inr_iff filepath_join_def)

lemma hls_package_encrypted:
  assumes "hls_package_args out_dir encoded track sec (Some c) = Inr args"
  shows "ec_key c \<noteq> [] \<and> ''--enable_raw_key_encryption'' \<in> set args"
proof -
  obtain eargs where e: "encryption_args (Some c) = Inr eargs"
    using assms by (cases "encryption_args (Some c)") (simp_all add: hls_package_args_def)
  with assms have "set eargs \<subseteq> set args" by (auto simp: hls_package_args_def)
  with encryption_args_ok [OF e] show ?thesis by blast
qed

end
