(* ===== verification/JobStore.thy ===== *)
theory JobStore
  imports JobRequest AudioFlow
begin

text \<open>
  The job table, \<open>internal/db/dbq/jobs.sql.go\<close> with the schema of \<open>migrations/001_initial.sql\<close>, and
  the task payloads of \<open>internal/queue/tasks.go\<close>. The table is the list of its rows in the order of
  \<open>created_at\<close>; time stamps are left out. A failing statement is an argument of the operations that
  use the table. JSON columns hold the value that was marshalled.
\<close>

section \<open>Results, rows\<close>

record thumbnail_result =
  tn_variant :: string
  tn_key :: string
  tn_format :: string
  tn_size :: nat

datatype job_results =
    ResFull full_result
  | ResCover cover_artifact
  | ResPreview preview_artifact
  | ResTranscode transcode_artifact
  | ResThumbnails "thumbnail_result list"
  | ResAudio audio_result

record job_row =
  j_id :: string
  j_type :: string
  j_hash :: string
  j_source :: string
  j_options :: optmap
  j_fingerprint :: string
  j_status :: string
  j_progress :: int
  j_callback_url :: string
  j_callback_status :: string
  j_retry_of :: "string option"
  j_error :: "string option"
  j_results :: "job_results option"

type_synonym jobs = "job_row list"

record create_job_params =
  cj_id :: string
  cj_type :: string
  cj_hash :: string
  cj_source :: string
  cj_options :: optmap
  cj_fingerprint :: string
  cj_status :: string
  cj_callback_url :: string
  cj_retry_of :: "string option"

section \<open>Statements\<close>

definition row_of_params :: "create_job_params \<Rightarrow> job_row" where
  "row_of_params p =
     \<lparr>j_id = cj_id p, j_type = cj_type p, j_hash = cj_hash p, j_source = cj_source p, j_options = cj_options p,
      j_fingerprint = cj_fingerprint p, j_status = cj_status p, j_progress = 0, j_callback_url = cj_callback_url p,
      j_callback_status = ''pending'', j_retry_of = cj_retry_of p, j_error = None, j_results = None\<rparr>"

text \<open>\<open>None\<close> when the primary key or the reference to the retried job is violated.\<close>

definition create_job :: "create_job_params \<Rightarrow> jobs \<Rightarrow> jobs option" where
  "create_job p rows =
     (if cj_id p \<in> j_id ` set rows then None
      else if (case cj_retry_of p of None \<Rightarrow> False | Some i \<Rightarrow> i \<notin> j_id ` set rows) then None
      else Some (rows @ [row_of_params p]))"

definition get_job :: "string \<Rightarrow> jobs \<Rightarrow> job_row option" where
  "get_job i rows = find (\<lambda>r. j_id r = i) rows"

definition is_active :: "job_row \<Rightarrow> bool" where
  "is_active r \<longleftrightarrow> j_status r \<notin> {''failed'', ''canceled''}"

text \<open>The newest row of the fingerprint that has not failed and is not canceled.\<close>

definition get_active_job :: "string \<Rightarrow> jobs \<Rightarrow> job_row option" where
  "get_active_job fp rows = find (\<lambda>r. j_fingerprint r = fp \<and> is_active r) (rev rows)"

definition update_job :: "string \<Rightarrow> (job_row \<Rightarrow> job_row) \<Rightarrow> jobs \<Rightarrow> jobs" where
  "update_job i f rows = map (\<lambda>r. if j_id r = i then f r else r) rows"

definition update_job_status :: "string \<Rightarrow> string \<Rightarrow> string option \<Rightarrow> jobs \<Rightarrow> jobs" where
  "update_job_status i s e = update_job i (\<lambda>r. r\<lparr>j_status := s, j_error := e\<rparr>)"

definition update_job_failure :: "string \<Rightarrow> string \<Rightarrow> job_results option \<Rightarrow> jobs \<Rightarrow> jobs" where
  "update_job_failure i e res = update_job i (\<lambda>r. r\<lparr>j_status := ''failed'', j_error := Some e, j_results := res\<rparr>)"

definition update_job_completion :: "string \<Rightarrow> job_results \<Rightarrow> jobs \<Rightarrow> jobs" where
  "update_job_completion i res =
     update_job i (\<lambda>r. r\<lparr>j_status := ''completed'', j_progress := 100, j_error := None, j_results := Some res\<rparr>)"

definition update_job_progress :: "string \<Rightarrow> int \<Rightarrow> jobs \<Rightarrow> jobs" where
  "update_job_progress i pct = update_job i (\<lambda>r. r\<lparr>j_progress := pct\<rparr>)"

definition update_job_results :: "string \<Rightarrow> job_results \<Rightarrow> jobs \<Rightarrow> jobs" where
  "update_job_results i res = update_job i (\<lambda>r. r\<lparr>j_results := Some res\<rparr>)"

definition update_callback_status :: "string \<Rightarrow> string \<Rightarrow> jobs \<Rightarrow> jobs" where
  "update_callback_status i s = update_job i (\<lambda>r. r\<lparr>j_callback_status := s\<rparr>)"

definition list_jobs_by_hash :: "string \<Rightarrow> jobs \<Rightarrow> jobs" where
  "list_jobs_by_hash h rows = filter (\<lambda>r. j_hash r = h) rows"

definition list_retry_jobs :: "string \<Rightarrow> jobs \<Rightarrow> jobs" where
  "list_retry_jobs i rows = filter (\<lambda>r. j_retry_of r = Some i) rows"

text \<open>\<open>ON DELETE SET NULL\<close>: rows that referenced a deleted row lose the reference.\<close>

definition delete_jobs_by_hash :: "string \<Rightarrow> jobs \<Rightarrow> jobs" where
  "delete_jobs_by_hash h rows =
     (let gone = j_id ` set (list_jobs_by_hash h rows) in
      map (\<lambda>r. if (case j_retry_of r of None \<Rightarrow> False | Some i \<Rightarrow> i \<in> gone) then r\<lparr>j_retry_of := None\<rparr> else r)
        (filter (\<lambda>r. j_hash r \<noteq> h) rows))"

section \<open>The interface the job endpoints rely on\<close>

text \<open>
  What makes the idempotency check work: looking up a fingerprint finds a live row exactly when there
  is one, and inserting adds one row and keeps the others.
\<close>

locale job_index =
  fixes rows_of :: "'db \<Rightarrow> 'row set"
    and key :: "'row \<Rightarrow> 'k"
    and live :: "'row \<Rightarrow> bool"
    and lookup :: "'k \<Rightarrow> 'db \<Rightarrow> 'row option"
    and insert_row :: "'row \<Rightarrow> 'db \<Rightarrow> 'db option"
  assumes lookup_Some: "lookup k db = Some r \<Longrightarrow> r \<in> rows_of db \<and> key r = k \<and> live r"
    and lookup_None: "lookup k db = None \<Longrightarrow> r \<in> rows_of db \<Longrightarrow> key r = k \<Longrightarrow> \<not> live r"
    and insert_rows: "insert_row r db = Some db' \<Longrightarrow> rows_of db' = rows_of db \<union> {r}"
begin

lemma lookup_iff: "(\<exists>r. lookup k db = Some r) \<longleftrightarrow> (\<exists>r \<in> rows_of db. key r = k \<and> live r)"
  using lookup_Some lookup_None by (metis option.exhaust)

text \<open>Checking before inserting keeps at most one live row per key.\<close>

lemma insert_keeps_unique:
  assumes "lookup (key r) db = None" and "insert_row r db = Some db'"
    and "\<And>a b. a \<in> rows_of db \<Longrightarrow> b \<in> rows_of db \<Longrightarrow> live a \<Longrightarrow> live b \<Longrightarrow> key a = key b \<Longrightarrow> a = b"
    and "a \<in> rows_of db'" "b \<in> rows_of db'" "live a" "live b" "key a = key b"
  shows "a = b"
  using assms lookup_None [OF assms(1)] insert_rows [OF assms(2)] by (metis Un_iff singletonD)

lemma insert_then_found:
  "insert_row r db = Some db' \<Longrightarrow> live r \<Longrightarrow> \<exists>r'. lookup (key r) db' = Some r'"
  using lookup_iff insert_rows by blast

end

definition insert_job :: "job_row \<Rightarrow> jobs \<Rightarrow> jobs option" where
  "insert_job r rows = (if j_id r \<in> j_id ` set rows then None else Some (rows @ [r]))"

lemma get_active_Some:
  "get_active_job fp rows = Some r \<Longrightarrow> r \<in> set rows \<and> j_fingerprint r = fp \<and> is_active r"
  by (auto simp: get_active_job_def find_Some_iff rev_nth)

lemma get_active_None:
  "get_active_job fp rows = None \<longleftrightarrow> (\<forall>r \<in> set rows. j_fingerprint r = fp \<longrightarrow> \<not> is_active r)"
  by (auto simp: get_active_job_def find_None_iff)

interpretation job_ix: job_index set j_fingerprint is_active get_active_job insert_job
  by unfold_locales (auto simp: insert_job_def get_active_None dest: get_active_Some split: if_splits)

lemma create_job_insert: "create_job p rows = Some rows' \<Longrightarrow> insert_job (row_of_params p) rows = Some rows'"
  by (auto simp: create_job_def insert_job_def row_of_params_def split: if_splits)

text \<open>At most one live job per fingerprint; row ids are unique.\<close>

definition jobs_ok :: "jobs \<Rightarrow> bool" where
  "jobs_ok rows \<longleftrightarrow> distinct (map j_id rows) \<and>
     (\<forall>a \<in> set rows. \<forall>b \<in> set rows. is_active a \<longrightarrow> is_active b \<longrightarrow> j_fingerprint a = j_fingerprint b \<longrightarrow> a = b)"

lemma create_job_ok:
  assumes "jobs_ok rows" "get_active_job (cj_fingerprint p) rows = None" "create_job p rows = Some rows'"
  shows "jobs_ok rows'"
proof -
  let ?r = "row_of_params p"
  have ins: "insert_job ?r rows = Some rows'" by (rule create_job_insert [OF assms(3)])
  then have rows': "rows' = rows @ [?r]" "j_id ?r \<notin> j_id ` set rows" by (auto simp: insert_job_def split: if_splits)
  have fp: "j_fingerprint ?r = cj_fingerprint p" by (simp add: row_of_params_def)
  have "a = b" if "a \<in> set rows'" "b \<in> set rows'" "is_active a" "is_active b" "j_fingerprint a = j_fingerprint b" for a b
  proof (rule job_ix.insert_keeps_unique [of ?r rows rows'])
    show "get_active_job (j_fingerprint ?r) rows = None" using assms(2) by (simp add: fp)
  qed (use ins assms(1) that in \<open>auto simp: jobs_ok_def\<close>)
  moreover have "distinct (map j_id rows')" using assms(1) rows' by (simp add: jobs_ok_def)
  ultimately show ?thesis by (simp add: jobs_ok_def)
qed

lemma update_job_ids [simp]:
  "(\<And>r. j_id (f r) = j_id r) \<Longrightarrow> map j_id (update_job i f rows) = map j_id rows"
  by (simp add: update_job_def comp_def if_distrib cong: if_cong)

lemma get_job_Some: "get_job i rows = Some r \<Longrightarrow> r \<in> set rows \<and> j_id r = i"
  by (auto simp: get_job_def find_Some_iff)

lemma get_job_unique: "distinct (map j_id rows) \<Longrightarrow> r \<in> set rows \<Longrightarrow> get_job (j_id r) rows = Some r"
proof (induction rows)
  case (Cons x rows)
  then show ?case by (cases "x = r") (auto simp: get_job_def rev_image_eqI)
qed simp

lemma get_job_update:
  assumes "\<And>r. j_id (f r) = j_id r"
  shows "get_job k (update_job i f rows) = (if k = i then map_option f (get_job i rows) else get_job k rows)"
  using assms by (induction rows) (auto simp: get_job_def update_job_def)

lemma find_append: "find P (xs @ ys) = (case find P xs of Some x \<Rightarrow> Some x | None \<Rightarrow> find P ys)"
  by (induction xs) auto

lemma get_job_create:
  assumes "create_job p rows = Some rows'"
  shows "get_job (cj_id p) rows' = Some (row_of_params p)" "k \<noteq> cj_id p \<Longrightarrow> get_job k rows' = get_job k rows"
proof -
  have r: "rows' = rows @ [row_of_params p]" "cj_id p \<notin> j_id ` set rows"
    using assms by (auto simp: create_job_def split: if_splits)
  then have "find (\<lambda>r. j_id r = cj_id p) rows = None" by (force simp: find_None_iff)
  then show "get_job (cj_id p) rows' = Some (row_of_params p)"
    by (simp add: get_job_def r(1) find_append row_of_params_def)
  show "get_job k rows' = get_job k rows" if "k \<noteq> cj_id p"
    using that by (simp add: get_job_def r(1) find_append row_of_params_def split: option.split)
qed

text \<open>A status change that leaves the live states keeps the table in order, and so does one that stays in them.\<close>

lemma update_job_ok:
  assumes "jobs_ok rows" "\<And>r. j_id (f r) = j_id r" "\<And>r. j_fingerprint (f r) = j_fingerprint r"
    and "\<And>r. r \<in> set rows \<Longrightarrow> j_id r = i \<Longrightarrow> is_active (f r) \<Longrightarrow> is_active r"
  shows "jobs_ok (update_job i f rows)"
proof -
  have ids: "map j_id (update_job i f rows) = map j_id rows" using assms(2) by simp
  have "a = b" if ab: "a \<in> set (update_job i f rows)" "b \<in> set (update_job i f rows)"
    "is_active a" "is_active b" "j_fingerprint a = j_fingerprint b" for a b
  proof -
    have "\<exists>r \<in> set rows. j_id r = j_id x \<and> j_fingerprint r = j_fingerprint x \<and> is_active r"
      if "x \<in> set (update_job i f rows)" "is_active x" for x
      using that assms(2-4) by (auto simp: update_job_def split: if_splits)
    from this [OF ab(1,3)] this [OF ab(2,4)] obtain r s where
      "r \<in> set rows" "j_id r = j_id a" "j_fingerprint r = j_fingerprint a" "is_active r"
      "s \<in> set rows" "j_id s = j_id b" "j_fingerprint s = j_fingerprint b" "is_active s" by blast
    with ab(5) assms(1) have "j_id a = j_id b" unfolding jobs_ok_def by metis
    with ab(1,2) ids assms(1) show "a = b" by (metis distinct_map inj_onD jobs_ok_def)
  qed
  with ids assms(1) show ?thesis by (simp add: jobs_ok_def)
qed

section \<open>Payloads\<close>

datatype payload =
    PThumbnail string string "thumbnail_output list" string
  | PAudio string string audio_options string
  | PCover string string rat string
  | PPreview string string preview_options string
  | PTranscode string string bool string
  | PFull string string full_options string

fun payload_type :: "payload \<Rightarrow> string" where
  "payload_type (PThumbnail h s os c) = type_image_thumbnail"
| "payload_type (PAudio h s a c) = type_audio_transcode"
| "payload_type (PCover h s t c) = type_video_cover"
| "payload_type (PPreview h s p c) = type_video_preview"
| "payload_type (PTranscode h s e c) = type_video_transcode"
| "payload_type (PFull h s f c) = type_video_full"

record task =
  tk_id :: string
  tk_queue :: string
  tk_max_retry :: nat
  tk_payload :: payload

text \<open>The typed enqueue functions of \<open>internal/queue/client.go\<close>: queue and retries per task type.\<close>

fun enqueue :: "string \<Rightarrow> int \<Rightarrow> int \<Rightarrow> payload \<Rightarrow> task" where
  "enqueue i sz large (PThumbnail h s os c) =
     \<lparr>tk_id = i, tk_queue = queue_critical, tk_max_retry = 3, tk_payload = PThumbnail h s os c\<rparr>"
| "enqueue i sz large (PAudio h s a c) =
     (case media_queue_options sz large of (q, n) \<Rightarrow>
       \<lparr>tk_id = i, tk_queue = q, tk_max_retry = n, tk_payload = PAudio h s a c\<rparr>)"
| "enqueue i sz large (PCover h s t c) =
     \<lparr>tk_id = i, tk_queue = queue_default, tk_max_retry = 3, tk_payload = PCover h s t c\<rparr>"
| "enqueue i sz large (PPreview h s p c) =
     \<lparr>tk_id = i, tk_queue = queue_default, tk_max_retry = 3, tk_payload = PPreview h s p c\<rparr>"
| "enqueue i sz large (PTranscode h s e c) =
     (case video_queue_options sz large of (q, n) \<Rightarrow>
       \<lparr>tk_id = i, tk_queue = q, tk_max_retry = n, tk_payload = PTranscode h s e c\<rparr>)"
| "enqueue i sz large (PFull h s f c) =
     (case video_queue_options sz large of (q, n) \<Rightarrow>
       \<lparr>tk_id = i, tk_queue = q, tk_max_retry = n, tk_payload = PFull h s f c\<rparr>)"

lemma enqueue_simps [simp]:
  "tk_id (enqueue i sz large p) = i" "tk_payload (enqueue i sz large p) = p"
  by (cases p; simp add: media_queue_options_def video_queue_options_def)+

end
