(* ===== verification/JobHandler.thy ===== *)
theory JobHandler
  imports JobStore
begin

text \<open>
  The job endpoints, \<open>internal/handler/job.go\<close>: creation with the idempotency check, status, retry.
  The state is the job table and the tasks that were put on the queues. The fingerprint, SHA-256 of the
  JSON of type, hash, source and options, is a function of these four; the JSON of a map does not depend
  on the order of its keys. The ids asynq draws are arguments. Texts of error messages that only quote
  a decoding error are left empty.
\<close>

section \<open>State and environment\<close>

record job_env =
  je_size :: "string \<Rightarrow> (storage_error, int) result"
  je_large :: int
  je_max :: int
  je_fingerprint :: "string \<times> string \<times> string \<times> (string \<Rightarrow> gval option) \<Rightarrow> string"
  je_parse_url :: url_parser

record job_state =
  js_rows :: jobs
  js_tasks :: "task list"

text \<open>What works while one request is served: the two look-ups, the queue, the insert.\<close>

record job_faults =
  jf_check_ok :: bool
  jf_recheck_ok :: bool
  jf_queue_ok :: bool
  jf_insert_ok :: bool

definition no_faults :: job_faults where
  "no_faults = \<lparr>jf_check_ok = True, jf_recheck_ok = True, jf_queue_ok = True, jf_insert_ok = True\<rparr>"

type_synonym http_failure = "nat \<times> string"

section \<open>Options in JSON columns\<close>

text \<open>What a value is after it was written as JSON and read into an \<open>any\<close>.\<close>

primrec json_value :: "gval \<Rightarrow> gval" where
  "json_value GNull = GNull"
| "json_value (GBool b) = GBool b"
| "json_value (GInt n) = GFloat (f64_of_int n)"
| "json_value (GFloat q) = GFloat q"
| "json_value (GStr s) = GStr s"
| "json_value (GArr vs) = GArr (map json_value vs)"
| "json_value (GObj m) = GObj (map (map_prod id json_value) m)"
| "json_value (GObjs ms) = GArr (map (\<lambda>m. GObj m) (map (map (map_prod id json_value)) ms))"

definition options_json :: "optmap \<Rightarrow> optmap" where
  "options_json opts = map (map_prod id json_value) opts"

definition request_fingerprint :: "job_env \<Rightarrow> normalized \<Rightarrow> string" where
  "request_fingerprint E r = je_fingerprint E (nr_type r, nr_hash r, nr_source r, map_of (nr_options r))"

text \<open>\<open>int (v)\<close> of a float64: truncated; out of range it is the least integer.\<close>

definition int_of_float :: "rat \<Rightarrow> int" where
  "int_of_float q =
     (let n = (if q \<ge> 0 then \<lfloor>q\<rfloor> else \<lceil>q\<rceil>) in if int64_range n then n else min_int64)"

definition thumbnail_entry :: "gval \<Rightarrow> thumbnail_output list" where
  "thumbnail_entry v =
     (case v of
        GObj m \<Rightarrow>
          [\<lparr>th_variant = (case map_of m ''variant'' of Some (GStr s) \<Rightarrow> s | _ \<Rightarrow> []),
            th_width = (case map_of m ''width'' of Some (GFloat q) \<Rightarrow> int_of_float q | _ \<Rightarrow> 0),
            th_height = (case map_of m ''height'' of Some (GFloat q) \<Rightarrow> int_of_float q | _ \<Rightarrow> 0),
            th_format = (case map_of m ''format'' of Some (GStr s) \<Rightarrow> s | _ \<Rightarrow> [])\<rparr>]
      | _ \<Rightarrow> [])"

definition parse_thumbnail_outputs :: "optmap \<Rightarrow> thumbnail_output list" where
  "parse_thumbnail_outputs opts =
     (case map_of opts ''outputs'' of Some (GArr vs) \<Rightarrow> concat (map thumbnail_entry vs) | _ \<Rightarrow> [])"

section \<open>Enqueueing\<close>

definition source_size_for_request :: "job_env \<Rightarrow> normalized \<Rightarrow> (http_failure, int) result" where
  "source_size_for_request E r =
     (if nr_type r \<notin> {type_audio_transcode, type_video_transcode, type_video_full} then Inr 0
      else case je_size E (nr_source r) of
        Inl e \<Rightarrow>
          if storage_is_not_found (Some e) then Inl (400, ''source object not found'')
          else Inl (500, ''failed to enqueue task'')
      | Inr n \<Rightarrow>
          if je_max E > 0 \<and> n > je_max E
          then Inl (413, ''source file exceeds MAX_FILE_SIZE ('' @ show_int (je_max E) @ '' bytes)'')
          else Inr n)"

definition enqueue_failed :: "(decode_error, 'a) result \<Rightarrow> (http_failure, 'a) result" where
  "enqueue_failed r = map_err (\<lambda>e. (500, ''failed to enqueue task'')) r"

definition build_payload :: "normalized \<Rightarrow> (http_failure, payload) result" where
  "build_payload r =
     (let h = nr_hash r; s = nr_source r; c = nr_callback r; opts = nr_options r; t = nr_type r in
      if t = type_image_thumbnail then Inr (PThumbnail h s (parse_thumbnail_outputs opts) c)
      else if t = type_audio_transcode then
        bind_result (enqueue_failed (decode_audio opts)) (\<lambda>a. Inr (PAudio h s (handler_canonicalize_audio a) c))
      else if t = type_video_cover then
        bind_result (enqueue_failed (decode_cover opts)) (\<lambda>a. Inr (PCover h s (co_timestamp a) c))
      else if t = type_video_preview then
        bind_result (enqueue_failed (decode_preview opts)) (\<lambda>a. Inr (PPreview h s a c))
      else if t = type_video_transcode then
        bind_result (enqueue_failed (decode_transcode opts)) (\<lambda>a. Inr (PTranscode h s (to_encrypt a) c))
      else if t = type_video_full then
        bind_result (enqueue_failed (decode_full opts)) (\<lambda>a. Inr (PFull h s (canonicalize_full a) c))
      else Inl (500, ''failed to enqueue task''))"

definition enqueue_task :: "job_env \<Rightarrow> bool \<Rightarrow> string \<Rightarrow> normalized \<Rightarrow> (http_failure, task) result" where
  "enqueue_task E queue_ok i r =
     bind_result (source_size_for_request E r) (\<lambda>n.
     bind_result (build_payload r) (\<lambda>p.
       if queue_ok then Inr (enqueue i n (je_large E) p) else Inl (500, ''failed to enqueue task'')))"

record job_info =
  ji_id :: string
  ji_type :: string
  ji_status :: string
  ji_retry_of :: string

definition job_params :: "string \<Rightarrow> normalized \<Rightarrow> string \<Rightarrow> string \<Rightarrow> create_job_params" where
  "job_params i r fp retry_of =
     \<lparr>cj_id = i, cj_type = nr_type r, cj_hash = nr_hash r, cj_source = nr_source r,
      cj_options = options_json (nr_options r), cj_fingerprint = fp, cj_status = ''queued'',
      cj_callback_url = nr_callback r, cj_retry_of = (if retry_of \<noteq> [] then Some retry_of else None)\<rparr>"

text \<open>
  The task is queued before the row is written, and a failing insert is only logged. \<open>enqueue_new\<close> is
  the part of \<open>createOrReuseJob\<close> after the look-up.
\<close>

definition enqueue_new ::
    "job_env \<Rightarrow> job_faults \<Rightarrow> string \<Rightarrow> normalized \<Rightarrow> string \<Rightarrow> string \<Rightarrow> job_state \<Rightarrow>
     (http_failure, job_info) result \<times> job_state" where
  "enqueue_new E F i r fp retry_of st =
     (case enqueue_task E (jf_queue_ok F) i r of
        Inl e \<Rightarrow> (Inl e, st)
      | Inr t \<Rightarrow>
          (Inr \<lparr>ji_id = i, ji_type = nr_type r, ji_status = ''queued'', ji_retry_of = retry_of\<rparr>,
           \<lparr>js_rows = (case (if jf_insert_ok F then create_job (job_params i r fp retry_of) (js_rows st) else None) of
                         Some rows' \<Rightarrow> rows' | None \<Rightarrow> js_rows st),
            js_tasks = js_tasks st @ [t]\<rparr>))"

definition create_or_reuse_job ::
    "job_env \<Rightarrow> job_faults \<Rightarrow> string \<Rightarrow> normalized \<Rightarrow> string \<Rightarrow> string \<Rightarrow> job_state \<Rightarrow>
     (http_failure, job_info) result \<times> job_state" where
  "create_or_reuse_job E F i r fp retry_of st =
     (if \<not> jf_recheck_ok F then (Inl (500, ''database error''), st)
      else case get_active_job fp (js_rows st) of
        Some x \<Rightarrow> (Inr \<lparr>ji_id = j_id x, ji_type = j_type x, ji_status = j_status x, ji_retry_of = []\<rparr>, st)
      | None \<Rightarrow> enqueue_new E F i r fp retry_of st)"

section \<open>Creation and status\<close>

record job_response =
  jr_id :: "string option"
  jr_hash :: string
  jr_status :: string
  jr_results :: "job_results option"

definition existing_response :: "job_row \<Rightarrow> job_response" where
  "existing_response x =
     (if j_status x = ''completed''
      then \<lparr>jr_id = None, jr_hash = j_hash x, jr_status = j_status x, jr_results = j_results x\<rparr>
      else \<lparr>jr_id = Some (j_id x), jr_hash = j_hash x, jr_status = j_status x, jr_results = None\<rparr>)"

definition create_request ::
    "job_env \<Rightarrow> job_faults \<Rightarrow> string \<Rightarrow> normalized \<Rightarrow> job_state \<Rightarrow>
     (http_failure, nat \<times> job_response) result \<times> job_state" where
  "create_request E F i r0 st =
     (case validate_request (je_parse_url E) r0 of
        Inl e \<Rightarrow> (Inl (400, []), st)
      | Inr u \<Rightarrow>
         (case canonicalize_request r0 of
            Inl e \<Rightarrow> (Inl (400, []), st)
          | Inr r \<Rightarrow>
             let fp = request_fingerprint E r in
             if \<not> jf_check_ok F then (Inl (500, ''database error''), st)
             else (case get_active_job fp (js_rows st) of
               Some x \<Rightarrow> (Inr (200, existing_response x), st)
             | None \<Rightarrow>
                (case create_or_reuse_job E F i r fp [] st of
                   (Inl e, st') \<Rightarrow> (Inl e, st')
                 | (Inr info, st') \<Rightarrow>
                     (Inr (202, \<lparr>jr_id = Some (ji_id info), jr_hash = nr_hash r, jr_status = ji_status info,
                                 jr_results = None\<rparr>), st')))))"

definition create_audio ::
    "job_env \<Rightarrow> job_faults \<Rightarrow> string \<Rightarrow> raw_job_request \<Rightarrow> job_state \<Rightarrow>
     (http_failure, nat \<times> job_response) result \<times> job_state" where
  "create_audio E F i raw st =
     (case decode_audio_create raw of Inl e \<Rightarrow> (Inl (400, []), st) | Inr r \<Rightarrow> create_request E F i r st)"

definition create_video ::
    "job_env \<Rightarrow> job_faults \<Rightarrow> string \<Rightarrow> raw_job_request \<Rightarrow> job_state \<Rightarrow>
     (http_failure, nat \<times> job_response) result \<times> job_state" where
  "create_video E F i raw st =
     (case decode_video_create raw of Inl e \<Rightarrow> (Inl (400, []), st) | Inr r \<Rightarrow> create_request E F i r st)"

record status_response =
  sr_id :: string
  sr_type :: string
  sr_hash :: string
  sr_status :: string
  sr_callback_status :: string
  sr_progress :: int
  sr_retry_of :: string
  sr_error :: string
  sr_results :: "job_results option"

definition or_empty :: "string option \<Rightarrow> string" where
  "or_empty x = (case x of None \<Rightarrow> [] | Some s \<Rightarrow> s)"

definition get_status :: "bool \<Rightarrow> string \<Rightarrow> job_state \<Rightarrow> (http_failure, status_response) result" where
  "get_status read_ok i st =
     (if i = [] then Inl (400, ''missing job id'')
      else if \<not> read_ok then Inl (500, ''database error'')
      else case get_job i (js_rows st) of
        None \<Rightarrow> Inl (404, ''job not found'')
      | Some x \<Rightarrow> Inr
          \<lparr>sr_id = j_id x, sr_type = j_type x, sr_hash = j_hash x, sr_status = j_status x,
           sr_callback_status = j_callback_status x, sr_progress = j_progress x, sr_retry_of = or_empty (j_retry_of x),
           sr_error = or_empty (j_error x), sr_results = j_results x\<rparr>)"

section \<open>Retry\<close>

definition job_request_from_stored :: "string \<Rightarrow> job_row \<Rightarrow> optmap \<Rightarrow> normalized" where
  "job_request_from_stored t x opts =
     \<lparr>nr_type = t, nr_hash = j_hash x, nr_source = j_source x, nr_options = opts, nr_callback = j_callback_url x\<rparr>"

definition stage_options :: "string \<Rightarrow> full_options \<Rightarrow> optmap" where
  "stage_options t f =
     (if t = type_video_cover then (case fo_cover f of None \<Rightarrow> [] | Some c \<Rightarrow> encode_cover c)
      else if t = type_video_preview then (case fo_preview f of None \<Rightarrow> [] | Some p \<Rightarrow> encode_preview p)
      else if t = type_video_transcode then (case fo_transcode f of None \<Rightarrow> [] | Some x \<Rightarrow> encode_transcode x)
      else encode_full f)"

definition retry_request_for_full :: "string \<Rightarrow> job_row \<Rightarrow> full_options \<Rightarrow> normalized" where
  "retry_request_for_full t x f = job_request_from_stored t x (stage_options t f)"

definition build_retry_requests :: "job_row \<Rightarrow> (string, normalized list \<times> retry_strategy) result" where
  "build_retry_requests x =
     (if j_type x = type_video_full then
        (case decode_full (j_options x) of
           Inl e \<Rightarrow> Inl ''stored job options are invalid''
         | Inr f0 \<Rightarrow>
             let f = canonicalize_full f0 in
             (case j_results x of
                None \<Rightarrow> Inr ([job_request_from_stored (j_type x) x (j_options x)], RetryJob)
              | Some (ResThumbnails ts) \<Rightarrow> Inl ''stored workflow state is invalid''
              | Some (ResFull r) \<Rightarrow>
                  if \<not> rp_allowed (fr_plan r) \<or> rp_job_types (fr_plan r) = [] then Inl ''job has no retry plan''
                  else Inr (map (\<lambda>t. retry_request_for_full t x f) (rp_job_types (fr_plan r)), rp_strategy (fr_plan r))
              | Some _ \<Rightarrow> Inl ''job has no retry plan''))
      else Inr ([job_request_from_stored (j_type x) x (j_options x)], RetryJob))"

text \<open>
  The jobs of a retry are created one after the other; the first failure ends the request. \<open>draws\<close> has the
  id asynq draws for each of them and what works meanwhile.
\<close>

fun retry_create ::
    "job_env \<Rightarrow> (nat \<Rightarrow> string \<times> job_faults) \<Rightarrow> string \<Rightarrow> normalized list \<Rightarrow> job_state \<Rightarrow>
     (http_failure, job_info list) result \<times> job_state" where
  "retry_create E draws source_id [] st = (Inr [], st)"
| "retry_create E draws source_id (r0 # rs) st =
     (case canonicalize_request r0 of
        Inl e \<Rightarrow> (Inl (409, []), st)
      | Inr r \<Rightarrow>
          (case create_or_reuse_job E (snd (draws 0)) (fst (draws 0)) r (request_fingerprint E r) source_id st of
             (Inl e, st1) \<Rightarrow> (Inl e, st1)
           | (Inr info, st1) \<Rightarrow>
               (case retry_create E (\<lambda>n. draws (Suc n)) source_id rs st1 of
                  (Inl e, st2) \<Rightarrow> (Inl e, st2)
                | (Inr infos, st2) \<Rightarrow>
                    (Inr (\<lparr>ji_id = ji_id info, ji_type = nr_type r, ji_status = ji_status info, ji_retry_of = source_id\<rparr>
                          # infos), st2))))"

definition retry_job ::
    "job_env \<Rightarrow> (nat \<Rightarrow> string \<times> job_faults) \<Rightarrow> bool \<Rightarrow> string \<Rightarrow> job_state \<Rightarrow>
     (http_failure, string \<times> retry_strategy \<times> job_info list) result \<times> job_state" where
  "retry_job E draws read_ok i st =
     (if i = [] then (Inl (400, ''missing job id''), st)
      else if \<not> read_ok then (Inl (500, ''database error''), st)
      else case get_job i (js_rows st) of
        None \<Rightarrow> (Inl (404, ''job not found''), st)
      | Some x \<Rightarrow>
          if j_status x \<noteq> ''failed'' then (Inl (409, ''only failed jobs can be retried''), st)
          else (case build_retry_requests x of
            Inl m \<Rightarrow> (Inl (409, m), st)
          | Inr (rs, strategy) \<Rightarrow>
              (case retry_create E draws (j_id x) rs st of
                 (Inl e, st') \<Rightarrow> (Inl e, st')
               | (Inr infos, st') \<Rightarrow> (Inr (j_id x, strategy, infos), st'))))"

section \<open>What a created job leaves behind\<close>

lemma enqueue_new_Inr:
  assumes "enqueue_new E F i r fp retry_of st = (Inr info, st')"
  obtains n p where "source_size_for_request E r = Inr n" "build_payload r = Inr p"
    "info = \<lparr>ji_id = i, ji_type = nr_type r, ji_status = ''queued'', ji_retry_of = retry_of\<rparr>"
    "js_tasks st' = js_tasks st @ [enqueue i n (je_large E) p]"
    "js_rows st' = (case (if jf_insert_ok F then create_job (job_params i r fp retry_of) (js_rows st) else None) of
                      Some rows' \<Rightarrow> rows' | None \<Rightarrow> js_rows st)"
  using assms
  by (auto simp: enqueue_new_def enqueue_task_def bind_result_Inr_iff split: sum.splits if_splits)

lemma enqueue_new_Inl: "enqueue_new E F i r fp retry_of st = (Inl e, st') \<Longrightarrow> st' = st"
  by (auto simp: enqueue_new_def split: sum.splits)

lemma create_or_reuse_Inl: "create_or_reuse_job E F i r fp retry_of st = (Inl e, st') \<Longrightarrow> st' = st"
  by (auto simp: create_or_reuse_job_def dest: enqueue_new_Inl split: if_splits option.splits)

text \<open>The payload repeats hash, source and callback of the request, and is of the type of the job.\<close>

fun payload_request :: "payload \<Rightarrow> string \<times> string \<times> string" where
  "payload_request (PThumbnail h s os c) = (h, s, c)"
| "payload_request (PAudio h s a c) = (h, s, c)"
| "payload_request (PCover h s t c) = (h, s, c)"
| "payload_request (PPreview h s p c) = (h, s, c)"
| "payload_request (PTranscode h s e c) = (h, s, c)"
| "payload_request (PFull h s f c) = (h, s, c)"

lemma build_payload_ok:
  "build_payload r = Inr p \<Longrightarrow>
     payload_type p = nr_type r \<and> payload_request p = (nr_hash r, nr_source r, nr_callback r)"
  by (auto simp: build_payload_def Let_def bind_result_Inr_iff split: if_splits)

lemma job_params_simps [simp]:
  "cj_id (job_params i r fp x) = i" "cj_type (job_params i r fp x) = nr_type r"
  "cj_hash (job_params i r fp x) = nr_hash r" "cj_source (job_params i r fp x) = nr_source r"
  "cj_fingerprint (job_params i r fp x) = fp" "cj_status (job_params i r fp x) = ''queued''"
  "cj_callback_url (job_params i r fp x) = nr_callback r"
  "cj_retry_of (job_params i r fp x) = (if x \<noteq> [] then Some x else None)"
  by (simp_all add: job_params_def)

lemma row_of_params_simps [simp]:
  "j_id (row_of_params p) = cj_id p" "j_type (row_of_params p) = cj_type p" "j_hash (row_of_params p) = cj_hash p"
  "j_source (row_of_params p) = cj_source p" "j_fingerprint (row_of_params p) = cj_fingerprint p"
  "j_status (row_of_params p) = cj_status p" "j_callback_url (row_of_params p) = cj_callback_url p"
  "j_retry_of (row_of_params p) = cj_retry_of p" "j_results (row_of_params p) = None"
  "j_error (row_of_params p) = None" "j_options (row_of_params p) = cj_options p" "j_progress (row_of_params p) = 0"
  "j_callback_status (row_of_params p) = ''pending''"
  by (simp_all add: row_of_params_def)

lemma create_job_fresh:
  assumes "i \<notin> j_id ` set rows" and "x = [] \<or> x \<in> j_id ` set rows"
  shows "create_job (job_params i r fp x) rows = Some (rows @ [row_of_params (job_params i r fp x)])"
  using assms by (auto simp: create_job_def)

lemma create_request_202:
  assumes "create_request E F i r0 st = (Inr (202, resp), st')"
  obtains r where "validate_request (je_parse_url E) r0 = Inr ()" "canonicalize_request r0 = Inr r"
    "get_active_job (request_fingerprint E r) (js_rows st) = None"
    "enqueue_new E F i r (request_fingerprint E r) [] st =
       (Inr \<lparr>ji_id = i, ji_type = nr_type r, ji_status = ''queued'', ji_retry_of = []\<rparr>, st')"
    "resp = \<lparr>jr_id = Some i, jr_hash = nr_hash r, jr_status = ''queued'', jr_results = None\<rparr>"
proof -
  obtain u where v: "validate_request (je_parse_url E) r0 = Inr u"
    using assms by (cases "validate_request (je_parse_url E) r0") (simp_all add: create_request_def)
  obtain r where c: "canonicalize_request r0 = Inr r"
    using assms v by (cases "canonicalize_request r0") (simp_all add: create_request_def)
  let ?fp = "request_fingerprint E r"
  have n: "get_active_job ?fp (js_rows st) = None" "jf_check_ok F"
    using assms v c by (auto simp: create_request_def Let_def split: if_splits option.splits)
  then obtain info where k: "create_or_reuse_job E F i r ?fp [] st = (Inr info, st')"
    and resp: "resp = \<lparr>jr_id = Some (ji_id info), jr_hash = nr_hash r, jr_status = ji_status info, jr_results = None\<rparr>"
    using assms v c by (auto simp: create_request_def Let_def split: sum.splits prod.splits)
  from k n have e: "enqueue_new E F i r ?fp [] st = (Inr info, st')"
    by (auto simp: create_or_reuse_job_def split: if_splits)
  have "info = \<lparr>ji_id = i, ji_type = nr_type r, ji_status = ''queued'', ji_retry_of = []\<rparr>"
    by (rule enqueue_new_Inr [OF e])
  with e resp v c n that show thesis by simp
qed

lemma get_active_append:
  "get_active_job fp (rows @ [x]) =
     (if j_fingerprint x = fp \<and> is_active x then Some x else get_active_job fp rows)"
  by (simp add: get_active_job_def)


definition demo_job_env :: job_env where
  "demo_job_env = \<lparr>je_size = (\<lambda>k. Inr 10), je_large = 100, je_max = 0,
     je_fingerprint = (\<lambda>(t, h, s, m). t @ '':'' @ h @ '':'' @ s), je_parse_url = (\<lambda>u. None)\<rparr>"

definition demo_job_request :: normalized where
  "demo_job_request = demo_normalized ''video:transcode'' []"

lemma demo_job_request_ok:
  "validate_request (je_parse_url demo_job_env) demo_job_request = Inr ()"
  "canonicalize_request demo_job_request = Inr demo_job_request"
  "build_payload demo_job_request = Inr (PTranscode ''h'' ''s.mov'' False [])"
  "source_size_for_request demo_job_env demo_job_request = Inr 10"
  by (simp_all add: demo_job_request_def demo_normalized_def validate_request_def validate_callback_url_def valid_job_types_def
    task_types trim_space_def validate_job_options_def drop_value_def decode_transcode_def strict_def known_fields_def
    decode_bool_def canonicalize_request_def canonical_options_def encode_transcode_def enc_bool_def build_payload_def
    source_size_for_request_def demo_job_env_def enqueue_failed_def)

lemma demo_create:
  "create_request demo_job_env F ''j1'' demo_job_request \<lparr>js_rows = [], js_tasks = []\<rparr> =
     (if jf_check_ok F \<and> jf_recheck_ok F \<and> jf_queue_ok F
      then (Inr (202, \<lparr>jr_id = Some ''j1'', jr_hash = ''h'', jr_status = ''queued'', jr_results = None\<rparr>),
            \<lparr>js_rows = (if jf_insert_ok F
                        then [row_of_params (job_params ''j1'' demo_job_request
                                (request_fingerprint demo_job_env demo_job_request) [])] else []),
             js_tasks = [enqueue ''j1'' 10 100 (PTranscode ''h'' ''s.mov'' False [])]\<rparr>)
      else (Inl (500, if jf_check_ok F \<and> jf_recheck_ok F then ''failed to enqueue task'' else ''database error''),
            \<lparr>js_rows = [], js_tasks = []\<rparr>))"
proof -
  have h: "nr_hash demo_job_request = ''h''" "je_large demo_job_env = 100"
    by (simp_all add: demo_job_request_def demo_normalized_def demo_job_env_def)
  show ?thesis
    by (simp add: create_request_def create_or_reuse_job_def enqueue_new_def enqueue_task_def demo_job_request_ok h
      get_active_job_def create_job_def Let_def)
qed


section \<open>A failing insert\<close>

text \<open>
  When the insert fails after the task was queued the request is answered like an accepted one,
  but the id it reports is not found by the status endpoint, and repeating the request puts a second
  task for the same work on the queue: the idempotency check has nothing to find.
\<close>

theorem lost_insert_breaks_idempotency:
  assumes "create_request E F i r0 st = (Inr (202, resp), st')" and "\<not> jf_insert_ok F"
    and "i \<noteq> []" and "i \<notin> j_id ` set (js_rows st)"
  shows "jr_id resp = Some i \<and> get_status True i st' = Inl (404, ''job not found'') \<and>
    (\<exists>t st2. create_request E no_faults k r0 st' =
       (Inr (202, resp\<lparr>jr_id := Some k\<rparr>), st2) \<and>
     js_tasks st2 = js_tasks st' @ [t] \<and> tk_payload t = tk_payload (last (js_tasks st')))"
proof -
  obtain r where v: "validate_request (je_parse_url E) r0 = Inr ()" and c: "canonicalize_request r0 = Inr r"
    and n: "get_active_job (request_fingerprint E r) (js_rows st) = None"
    and e: "enqueue_new E F i r (request_fingerprint E r) [] st =
       (Inr \<lparr>ji_id = i, ji_type = nr_type r, ji_status = ''queued'', ji_retry_of = []\<rparr>, st')"
    and resp: "resp = \<lparr>jr_id = Some i, jr_hash = nr_hash r, jr_status = ''queued'', jr_results = None\<rparr>"
    using create_request_202 [OF assms(1)] by metis
  obtain m p where p: "build_payload r = Inr p" "source_size_for_request E r = Inr m"
    and t: "js_tasks st' = js_tasks st @ [enqueue i m (je_large E) p]" and rows: "js_rows st' = js_rows st"
    by (rule enqueue_new_Inr [OF e]) (simp add: assms(2))
  have "get_job i (js_rows st') = None" using assms(4) by (auto simp: rows get_job_def find_None_iff)
  then have "get_status True i st' = Inl (404, ''job not found'')" using assms(3) by (simp add: get_status_def)
  moreover have "create_or_reuse_job E no_faults k r (request_fingerprint E r) [] st' =
    (Inr \<lparr>ji_id = k, ji_type = nr_type r, ji_status = ''queued'', ji_retry_of = []\<rparr>,
      snd (create_or_reuse_job E no_faults k r (request_fingerprint E r) [] st')) \<and>
    js_tasks (snd (create_or_reuse_job E no_faults k r (request_fingerprint E r) [] st')) =
      js_tasks st' @ [enqueue k m (je_large E) p]"
    using n rows p by (simp add: create_or_reuse_job_def enqueue_new_def enqueue_task_def no_faults_def)
  ultimately show ?thesis
    using v c n rows t resp
    by (auto simp: create_request_def Let_def no_faults_def split: prod.splits)
qed

theorem lost_insert_breaks_idempotency_witness:
  "\<exists>resp st. create_request demo_job_env (no_faults\<lparr>jf_insert_ok := False\<rparr>) ''j1'' demo_job_request
       \<lparr>js_rows = [], js_tasks = []\<rparr> = (Inr (202, resp), st) \<and>
     get_status True ''j1'' st = Inl (404, ''job not found'')"
proof -
  have c: "create_request demo_job_env (no_faults\<lparr>jf_insert_ok := False\<rparr>) ''j1'' demo_job_request
       \<lparr>js_rows = [], js_tasks = []\<rparr> =
      (Inr (202, \<lparr>jr_id = Some ''j1'', jr_hash = ''h'', jr_status = ''queued'', jr_results = None\<rparr>),
       \<lparr>js_rows = [], js_tasks = [enqueue ''j1'' 10 100 (PTranscode ''h'' ''s.mov'' False [])]\<rparr>)"
    by (simp add: demo_create no_faults_def)
  from lost_insert_breaks_idempotency [OF c, of "''j2''"] c show ?thesis by auto
qed

end
