(* ===== verification/WorkerDeps.thy ===== *)
theory WorkerDeps
  imports JobStore
begin

text \<open>
  What the task workers share: \<open>internal/queue/handlers/deps.go\<close> (keys, uploads, MIME types, status
  updates) and the two FFmpeg calls of \<open>internal/video/cover.go\<close> and \<open>preview.go\<close>. The state is what a
  worker writes: job rows, media objects, key rows and the webhook calls it starts. Storage, file
  system, FFmpeg and the database are the \<open>worker_env\<close>; texts of foreign errors are strings.
\<close>

section \<open>State and environment\<close>

record object =
  ob_type :: string
  ob_data :: string

record webhook_call =
  wc_job :: string
  wc_url :: string
  wc_type :: string
  wc_hash :: string
  wc_status :: string
  wc_error :: string
  wc_results :: "job_results option"

record worker_state =
  wk_rows :: jobs
  wk_media :: "string \<Rightarrow> object option"
  wk_keys :: "key_row list"
  wk_calls :: "webhook_call list"

text \<open>The database statements of a run; a failing one is logged and otherwise ignored.\<close>

datatype db_op = OpStatus | OpProgress int | OpCompletion | OpFailure

text \<open>What walking a directory meets: an error, or a file with its path relative to the root.\<close>

datatype walk_entry = WalkErr string | WalkFile string "(string, string) result"

record worker_env =
  we_download :: "string \<Rightarrow> (string, string) result"
  we_fetch :: "string \<Rightarrow> (string, string) result"
  we_put :: "string \<Rightarrow> (string, unit) result"
  we_temp_root :: "(string, string) result"
  we_mkdir :: "(string, string) result"
  we_walk :: "string \<Rightarrow> walk_entry list"
  we_open :: "string \<Rightarrow> (string, string) result"
  we_stat :: "string \<Rightarrow> (string, nat) result"
  we_run :: "string list \<Rightarrow> (string, string) result"
  we_tools :: media_tools
  we_probe :: "(probe_error, ffprobe_output) result"
  we_max_slice :: int
  we_peaks_json :: "32 word list \<Rightarrow> string"
  we_draws :: draws
  we_wrapper :: key_wrapper
  we_base_url :: string
  we_db_ok :: "db_op \<Rightarrow> bool"
  we_webhook :: bool
  we_enc_text :: "enc_error \<Rightarrow> string"
  we_video_text :: "video_error \<Rightarrow> string"
  we_probe_text :: "probe_error \<Rightarrow> string"

record job_meta =
  jm_type :: string
  jm_hash :: string
  jm_callback :: string

section \<open>Keys and MIME types\<close>

definition image_s3_key :: "string \<Rightarrow> string \<Rightarrow> string \<Rightarrow> string" where
  "image_s3_key h variant format =
     (let prefix = (if length h \<ge> 2 then take 2 h else h)
      in ''images/'' @ prefix @ ''/'' @ h @ ''/'' @ variant @ ''.'' @ format)"

definition worker_video_key :: "string \<Rightarrow> string \<Rightarrow> string" where
  "worker_video_key h rel =
     (let prefix = (if length h \<ge> 2 then take 2 h else h) in ''videos/'' @ prefix @ ''/'' @ h @ ''/'' @ rel)"

definition worker_audio_key :: "string \<Rightarrow> string \<Rightarrow> string" where
  "worker_audio_key h rel =
     (let prefix = (if length h \<ge> 2 then take 2 h else h) in ''audio/'' @ prefix @ ''/'' @ h @ ''/'' @ rel)"

text \<open>The stream endpoint reads where the workers write.\<close>

lemma worker_keys: "worker_video_key = video_s3_key" "worker_audio_key = audio_s3_key"
  by (simp_all add: fun_eq_iff worker_video_key_def video_s3_key_def worker_audio_key_def audio_s3_key_def hash_shard_def)

definition hls_mime_type :: "string \<Rightarrow> string" where
  "hls_mime_type file_path =
     (let ext = to_lower (path_ext file_path) in
      if ext = ''.m3u8'' then ''application/vnd.apple.mpegurl''
      else if ext = ''.m4s'' then ''video/iso.segment''
      else if ext = ''.mp4'' then ''video/mp4''
      else [])"

definition image_mime_type :: "string \<Rightarrow> string" where
  "image_mime_type format =
     (let f = to_lower format in
      if f = ''gif'' then ''image/gif'' else if f = ''webp'' then ''image/webp'' else if f = ''avif'' then ''image/avif''
      else if f = ''jpeg'' \<or> f = ''jpg'' then ''image/jpeg'' else if f = ''png'' then ''image/png''
      else ''application/octet-stream'')"

definition audio_mime_type :: "string \<Rightarrow> string" where
  "audio_mime_type format =
     (let f = to_lower format in
      if f = ''aac'' \<or> f = ''m4a'' \<or> f = ''mp4'' then ''audio/mp4'' else if f = ''flac'' then ''audio/flac''
      else if f = ''mp3'' then ''audio/mpeg'' else ''application/octet-stream'')"

section \<open>Uploads\<close>

definition upload_bytes ::
    "worker_env \<Rightarrow> string \<Rightarrow> string \<Rightarrow> string \<Rightarrow> worker_state \<Rightarrow> (string, unit) result \<times> worker_state" where
  "upload_bytes W key ct data st =
     (case we_put W key of
        Inl m \<Rightarrow> (Inl m, st)
      | Inr u \<Rightarrow> (Inr (), st\<lparr>wk_media := (wk_media st)(key \<mapsto> \<lparr>ob_type = ct, ob_data = data\<rparr>)\<rparr>))"

definition upload_file ::
    "worker_env \<Rightarrow> string \<Rightarrow> string \<Rightarrow> string \<Rightarrow> (string, string) result \<Rightarrow> worker_state \<Rightarrow>
     (string, unit) result \<times> worker_state" where
  "upload_file W key ct path file st =
     (case file of
        Inl m \<Rightarrow> (Inl (''open '' @ path @ '': '' @ m), st)
      | Inr data \<Rightarrow> upload_bytes W key ct data st)"

text \<open>The keys are collected in the order of the walk; the first error ends it.\<close>

fun upload_hls_dir ::
    "worker_env \<Rightarrow> string \<Rightarrow> walk_entry list \<Rightarrow> string list \<Rightarrow> worker_state \<Rightarrow>
     (string, string list) result \<times> worker_state" where
  "upload_hls_dir W h [] uploaded st = (Inr uploaded, st)"
| "upload_hls_dir W h (WalkErr m # fs) uploaded st = (Inl m, st)"
| "upload_hls_dir W h (WalkFile rel file # fs) uploaded st =
     (let ct = hls_mime_type rel in
      if ct = [] then upload_hls_dir W h fs uploaded st
      else case file of
        Inl m \<Rightarrow> (Inl (''read '' @ rel @ '': '' @ m), st)
      | Inr data \<Rightarrow>
          (let key = worker_video_key h rel in
           case upload_bytes W key ct data st of
             (Inl m, st1) \<Rightarrow> (Inl (''upload '' @ rel @ '': '' @ m), st1)
           | (Inr u, st1) \<Rightarrow> upload_hls_dir W h fs (uploaded @ [key]) st1))"

fun upload_audio_hls_dir ::
    "worker_env \<Rightarrow> string \<Rightarrow> string \<Rightarrow> walk_entry list \<Rightarrow> string list \<Rightarrow> worker_state \<Rightarrow>
     (string, string list) result \<times> worker_state" where
  "upload_audio_hls_dir W h dir [] uploaded st = (Inr uploaded, st)"
| "upload_audio_hls_dir W h dir (WalkErr m # fs) uploaded st = (Inl m, st)"
| "upload_audio_hls_dir W h dir (WalkFile rel file # fs) uploaded st =
     (let ct = hls_mime_type rel in
      if ct = [] then upload_audio_hls_dir W h dir fs uploaded st
      else let key = worker_audio_key h rel in
        case upload_file W key ct (path_join [dir, rel]) file st of
          (Inl m, st1) \<Rightarrow> (Inl (''upload '' @ rel @ '': '' @ m), st1)
        | (Inr u, st1) \<Rightarrow> upload_audio_hls_dir W h dir fs (uploaded @ [key]) st1)"

section \<open>Job status\<close>

definition db_update :: "worker_env \<Rightarrow> db_op \<Rightarrow> (jobs \<Rightarrow> jobs) \<Rightarrow> worker_state \<Rightarrow> worker_state" where
  "db_update W op f st = (if we_db_ok W op then st\<lparr>wk_rows := f (wk_rows st)\<rparr> else st)"

definition mark_processing :: "worker_env \<Rightarrow> string \<Rightarrow> worker_state \<Rightarrow> worker_state" where
  "mark_processing W i = db_update W OpStatus (update_job_status i ''processing'' None)"

definition set_progress :: "worker_env \<Rightarrow> string \<Rightarrow> int \<Rightarrow> worker_state \<Rightarrow> worker_state" where
  "set_progress W i pct = db_update W (OpProgress pct) (update_job_progress i pct)"

definition start_webhook ::
    "worker_env \<Rightarrow> string \<Rightarrow> job_meta \<Rightarrow> string \<Rightarrow> string \<Rightarrow> job_results option \<Rightarrow> worker_state \<Rightarrow> worker_state" where
  "start_webhook W i meta status err res st =
     (if we_webhook W \<and> jm_callback meta \<noteq> []
      then st\<lparr>wk_calls := wk_calls st @ [\<lparr>wc_job = i, wc_url = jm_callback meta, wc_type = jm_type meta,
             wc_hash = jm_hash meta, wc_status = status, wc_error = err, wc_results = res\<rparr>]\<rparr>
      else st)"

text \<open>A handler returns the error text asynq sees, \<open>None\<close> when it succeeded.\<close>

type_synonym outcome = "string option \<times> worker_state"

definition complete_job :: "worker_env \<Rightarrow> string \<Rightarrow> job_meta \<Rightarrow> job_results \<Rightarrow> worker_state \<Rightarrow> outcome" where
  "complete_job W i meta res st =
     (None, start_webhook W i meta ''completed'' [] (Some res) (db_update W OpCompletion (update_job_completion i res) st))"

definition fail_job_with_result ::
    "worker_env \<Rightarrow> string \<Rightarrow> job_meta \<Rightarrow> string \<Rightarrow> job_results option \<Rightarrow> worker_state \<Rightarrow> outcome" where
  "fail_job_with_result W i meta err res st =
     (Some err, start_webhook W i meta ''failed'' err res (db_update W OpFailure (update_job_failure i err res) st))"

definition fail_job :: "worker_env \<Rightarrow> string \<Rightarrow> job_meta \<Rightarrow> string \<Rightarrow> worker_state \<Rightarrow> outcome" where
  "fail_job W i meta err = fail_job_with_result W i meta err None"

section \<open>Cover and preview\<close>

text \<open>\<open>%.2f\<close>: the exact value rounded to two decimals, halves to even.\<close>

definition round_even :: "rat \<Rightarrow> int" where
  "round_even q =
     (let f = \<lfloor>q\<rfloor>; d = q - of_int f in
      if d < 1 / 2 then f else if d > 1 / 2 then f + 1 else if even f then f else f + 1)"

definition fixed2 :: "rat \<Rightarrow> string" where
  "fixed2 q =
     (let n = nat (round_even (100 * \<bar>q\<bar>)) in
      (if q < 0 then ''-'' else []) @ show_nat (n div 100) @ ''.'' @ [digit_char (n mod 100 div 10), digit_char (n mod 10)])"

definition cover_args :: "string \<Rightarrow> rat \<Rightarrow> string list" where
  "cover_args input ts =
     [''-ss'', fixed2 ts, ''-i'', input, ''-frames:v'', ''1'', ''-f'', ''image2pipe'', ''-vcodec'', ''mjpeg'', ''-q:v'', ''2'', ''pipe:1'']"

text \<open>The bytes and the format of the result.\<close>

definition extract_cover :: "worker_env \<Rightarrow> string \<Rightarrow> rat \<Rightarrow> (string, string \<times> string) result" where
  "extract_cover W input ts =
     (case we_run W (cover_args input ts) of
        Inl m \<Rightarrow> Inl (''extract cover at '' @ fixed2 ts @ ''s: '' @ m)
      | Inr data \<Rightarrow> Inr (data, ''jpg''))"

record preview_settings =
  pv_start :: rat
  pv_duration :: rat
  pv_width :: int
  pv_fps :: int
  pv_format :: string
  pv_quality :: int
  pv_compression :: int

definition default_preview_options :: preview_settings where
  "default_preview_options =
     \<lparr>pv_start = 2, pv_duration = 3, pv_width = 480, pv_fps = 10, pv_format = ''webp'', pv_quality = 70, pv_compression = 6\<rparr>"

definition fill_preview :: "preview_settings \<Rightarrow> preview_settings" where
  "fill_preview o0 =
     o0\<lparr>pv_width := (if pv_width o0 = 0 then 480 else pv_width o0), pv_fps := (if pv_fps o0 = 0 then 10 else pv_fps o0),
        pv_format := (if pv_format o0 = [] then ''webp'' else pv_format o0),
        pv_duration := (if pv_duration o0 = 0 then 3 else pv_duration o0),
        pv_quality := (if pv_quality o0 = 0 then 70 else pv_quality o0),
        pv_compression := (if pv_compression o0 = 0 then 6 else pv_compression o0)\<rparr>"

definition preview_args :: "string \<Rightarrow> preview_settings \<Rightarrow> string list" where
  "preview_args input p =
     [''-ss'', fixed2 (pv_start p), ''-i'', input, ''-t'', fixed2 (pv_duration p),
      ''-vf'', ''scale='' @ show_int (pv_width p) @ '':-1,fps='' @ show_int (pv_fps p), ''-loop'', ''0'', ''-an''] @
     (if pv_format p = ''gif'' then [''-f'', ''gif'']
      else [''-vcodec'', ''libwebp'', ''-q:v'', show_int (pv_quality p), ''-compression_level'', show_int (pv_compression p),
            ''-f'', ''webp'']) @ [''pipe:1'']"

definition generate_preview :: "worker_env \<Rightarrow> string \<Rightarrow> preview_settings \<Rightarrow> (string, string \<times> string) result" where
  "generate_preview W input o0 =
     (let p = fill_preview o0 in
      case we_run W (preview_args input p) of
        Inl m \<Rightarrow> Inl (''generate preview: '' @ m)
      | Inr data \<Rightarrow> Inr (data, pv_format p))"

definition raw_preview :: "preview_options \<Rightarrow> preview_settings" where
  "raw_preview o0 =
     \<lparr>pv_start = po_start o0, pv_duration = po_duration o0, pv_width = po_width o0, pv_fps = po_fps o0,
      pv_format = po_format o0, pv_quality = 0, pv_compression = 0\<rparr>"

end
