(* ===== verification/VideoWorkers.thy ===== *)
theory VideoWorkers
  imports WorkerDeps
begin

text \<open>
  The task handlers for images and videos, \<open>internal/queue/handlers/cover.go\<close>, \<open>preview.go\<close>,
  \<open>thumbnail.go\<close>, \<open>transcode.go\<close> and \<open>full.go\<close>. A handler gets the task id and the payload and returns the
  error it hands to asynq with the state it leaves. Cover and preview of a full job run in parallel on
  disjoint variables; neither writes the state, so their order does not matter.
\<close>

section \<open>Single-step jobs\<close>

definition handle_cover :: "worker_env \<Rightarrow> string \<Rightarrow> string \<Rightarrow> string \<Rightarrow> rat \<Rightarrow> string \<Rightarrow> worker_state \<Rightarrow> outcome" where
  "handle_cover W i h source timestamp cb st0 =
     (let meta = \<lparr>jm_type = type_video_cover, jm_hash = h, jm_callback = cb\<rparr>;
          st1 = mark_processing W i st0;
          ts = (if timestamp = 0 then 1 else timestamp) in
      case we_download W source of
        Inl m \<Rightarrow> fail_job W i meta (''download source: '' @ m) st1
      | Inr tmp \<Rightarrow>
          (let st2 = set_progress W i 30 st1 in
           case extract_cover W tmp ts of
             Inl m \<Rightarrow> fail_job W i meta (''extract cover: '' @ m) st2
           | Inr (data, format) \<Rightarrow>
               (let st3 = set_progress W i 70 st2; key = worker_video_key h ''cover.jpg'' in
                case upload_bytes W key ''image/jpeg'' data st3 of
                  (Inl m, st4) \<Rightarrow> fail_job W i meta (''upload cover: '' @ m) st4
                | (Inr u, st4) \<Rightarrow>
                    complete_job W i meta (ResCover \<lparr>ca_key = key, ca_format = format, ca_size = length data\<rparr>) st4)))"

definition handle_preview ::
    "worker_env \<Rightarrow> string \<Rightarrow> string \<Rightarrow> string \<Rightarrow> preview_options \<Rightarrow> string \<Rightarrow> worker_state \<Rightarrow> outcome" where
  "handle_preview W i h source po cb st0 =
     (let meta = \<lparr>jm_type = type_video_preview, jm_hash = h, jm_callback = cb\<rparr>;
          st1 = mark_processing W i st0 in
      case we_download W source of
        Inl m \<Rightarrow> fail_job W i meta (''download source: '' @ m) st1
      | Inr tmp \<Rightarrow>
          (let st2 = set_progress W i 30 st1 in
           case generate_preview W tmp (raw_preview po) of
             Inl m \<Rightarrow> fail_job W i meta (''generate preview: '' @ m) st2
           | Inr (data, format) \<Rightarrow>
               (let st3 = set_progress W i 70 st2; ext = (if format = [] then ''webp'' else format);
                    key = worker_video_key h (''preview.'' @ ext) in
                case upload_bytes W key (image_mime_type ext) data st3 of
                  (Inl m, st4) \<Rightarrow> fail_job W i meta (''upload preview: '' @ m) st4
                | (Inr u, st4) \<Rightarrow>
                    complete_job W i meta (ResPreview \<lparr>pw_key = key, pw_format = format, pw_size = length data\<rparr>) st4)))"

section \<open>Thumbnails\<close>

definition default_outputs :: "thumbnail_output list \<Rightarrow> thumbnail_output list" where
  "default_outputs os =
     (if os = [] then [\<lparr>th_variant = ''thumb'', th_width = 300, th_height = 0, th_format = ''webp''\<rparr>] else os)"

definition thumbnail_options :: "thumbnail_output \<Rightarrow> options" where
  "thumbnail_options out =
     \<lparr>opt_width = th_width out, opt_height = th_height out, opt_quality = 0, opt_format = parse_format (th_format out)\<rparr>"

text \<open>The loop over the outputs; \<open>k\<close> counts the finished ones. \<open>ptext\<close> is the text of a processing error.\<close>

fun thumbnail_loop ::
    "worker_env \<Rightarrow> 'i vips \<Rightarrow> int \<Rightarrow> (process_error \<Rightarrow> string) \<Rightarrow> string \<Rightarrow> job_meta \<Rightarrow> string \<Rightarrow> string \<Rightarrow> int \<Rightarrow> int \<Rightarrow>
     thumbnail_output list \<Rightarrow> thumbnail_result list \<Rightarrow> worker_state \<Rightarrow> outcome" where
  "thumbnail_loop W V frames ptext i meta h src cnt k [] done st = complete_job W i meta (ResThumbnails done) st"
| "thumbnail_loop W V frames ptext i meta h src cnt k (out # os) done st =
     (let format = format_ext (parse_format (th_format out)) in
      case process_image V frames src (thumbnail_options out) of
        Inl e \<Rightarrow> fail_job W i meta (''process variant '' @ th_variant out @ '': '' @ ptext e) st
      | Inr data \<Rightarrow>
          (let key = image_s3_key h (th_variant out) format in
           case upload_bytes W key (image_mime_type format) data st of
             (Inl m, st1) \<Rightarrow> fail_job W i meta (''upload '' @ th_variant out @ '': '' @ m) st1
           | (Inr u, st1) \<Rightarrow>
               thumbnail_loop W V frames ptext i meta h src cnt (k + 1) os
                 (done @ [\<lparr>tn_variant = th_variant out, tn_key = key, tn_format = format, tn_size = length data\<rparr>])
                 (set_progress W i ((k + 1) * 100 div cnt) st1)))"

definition handle_thumbnail ::
    "worker_env \<Rightarrow> 'i vips \<Rightarrow> int \<Rightarrow> (process_error \<Rightarrow> string) \<Rightarrow> string \<Rightarrow> string \<Rightarrow> string \<Rightarrow> thumbnail_output list \<Rightarrow> string \<Rightarrow>
     worker_state \<Rightarrow> outcome" where
  "handle_thumbnail W V frames ptext i h source outputs cb st0 =
     (let meta = \<lparr>jm_type = type_image_thumbnail, jm_hash = h, jm_callback = cb\<rparr>;
          st1 = mark_processing W i st0; os = default_outputs outputs in
      case we_fetch W source of
        Inl m \<Rightarrow> fail_job W i meta (''fetch source: '' @ m) st1
      | Inr src \<Rightarrow> thumbnail_loop W V frames ptext i meta h src (int (length os)) 0 os [] st1)"

section \<open>Transcoding\<close>

text \<open>
  The encryption set-up of a job that asked for it: key material and the key table after it. The
  set-up writes nothing when it fails.
\<close>

definition setup_encryption ::
    "worker_env \<Rightarrow> string \<Rightarrow> string \<Rightarrow> bool \<Rightarrow> worker_state \<Rightarrow> (string, material option) result \<times> worker_state" where
  "setup_encryption W h asset encrypt st =
     (if \<not> encrypt then (Inr None, st)
      else case setup_hls_encryption (we_draws W) h asset (we_base_url W) (we_wrapper W) (wk_keys st) of
        Inl e \<Rightarrow> (Inl (''setup encryption: '' @ we_enc_text W e), st)
      | Inr (m, rows) \<Rightarrow> (Inr (Some m), st\<lparr>wk_keys := rows\<rparr>))"

definition handle_transcode :: "worker_env \<Rightarrow> string \<Rightarrow> string \<Rightarrow> string \<Rightarrow> bool \<Rightarrow> string \<Rightarrow> worker_state \<Rightarrow> outcome" where
  "handle_transcode W i h source encrypt cb st0 =
     (let meta = \<lparr>jm_type = type_video_transcode, jm_hash = h, jm_callback = cb\<rparr>;
          st1 = mark_processing W i st0 in
      case we_download W source of
        Inl m \<Rightarrow> fail_job W i meta (''download source: '' @ m) st1
      | Inr tmp \<Rightarrow>
          (let st2 = set_progress W i 5 st1 in
           case we_temp_root W of
             Inl m \<Rightarrow> fail_job W i meta m st2
           | Inr tmp_root \<Rightarrow>
               (case we_mkdir W of
                  Inl m \<Rightarrow> fail_job W i meta (''create temp dir: '' @ m) st2
                | Inr dir \<Rightarrow>
                    (case setup_encryption W h ''video'' encrypt st2 of
                       (Inl m, st3) \<Rightarrow> fail_job W i meta m st3
                     | (Inr mat, st3) \<Rightarrow>
                         (let st4 = set_progress W i 10 st3 in
                          case transcode (we_tools W) tmp dir (map_option config_of_material mat) of
                            Inl e \<Rightarrow> fail_job W i meta (''transcode: '' @ we_video_text W e) st4
                          | Inr r \<Rightarrow>
                              (let st5 = set_progress W i 75 st4 in
                               case upload_hls_dir W h (we_walk W dir) [] st5 of
                                 (Inl m, st6) \<Rightarrow> fail_job W i meta (''upload HLS: '' @ m) st6
                               | (Inr uploaded, st6) \<Rightarrow>
                                   complete_job W i meta (ResTranscode (build_transcode_result h r uploaded mat))
                                     (set_progress W i 95 st6)))))))"

section \<open>The full workflow\<close>

definition set_source_stage :: "stage_state \<Rightarrow> full_result \<Rightarrow> full_result" where
  "set_source_stage s r = r\<lparr>fr_stages := (fr_stages r)\<lparr>fs_source := s\<rparr>\<rparr>"

definition set_cover_stage :: "stage_state \<Rightarrow> full_result \<Rightarrow> full_result" where
  "set_cover_stage s r = r\<lparr>fr_stages := (fr_stages r)\<lparr>fs_cover := s\<rparr>\<rparr>"

definition set_preview_stage :: "stage_state \<Rightarrow> full_result \<Rightarrow> full_result" where
  "set_preview_stage s r = r\<lparr>fr_stages := (fr_stages r)\<lparr>fs_preview := s\<rparr>\<rparr>"

definition set_transcode_stage :: "stage_state \<Rightarrow> full_result \<Rightarrow> full_result" where
  "set_transcode_stage s r = r\<lparr>fr_stages := (fr_stages r)\<lparr>fs_transcode := s\<rparr>\<rparr>"

text \<open>The timestamp and the preview settings a full job uses, from its options.\<close>

definition full_timestamp :: "full_options \<Rightarrow> rat" where
  "full_timestamp f = (case fo_cover f of Some c \<Rightarrow> if co_timestamp c > 0 then co_timestamp c else 1 | None \<Rightarrow> 1)"

definition full_preview :: "full_options \<Rightarrow> preview_settings" where
  "full_preview f =
     (case fo_preview f of
        None \<Rightarrow> default_preview_options
      | Some p \<Rightarrow>
          default_preview_options
            \<lparr>pv_start := (if po_start p \<noteq> 0 then po_start p else 2),
             pv_duration := (if po_duration p \<noteq> 0 then po_duration p else 3),
             pv_width := (if po_width p \<noteq> 0 then po_width p else 480),
             pv_fps := (if po_fps p \<noteq> 0 then po_fps p else 10),
             pv_format := (if po_format p \<noteq> [] then po_format p else ''webp'')\<rparr>)"

text \<open>The attempts in parallel: an error code with its text, or the bytes and the artifact without key.\<close>

definition cover_attempt :: "worker_env \<Rightarrow> string \<Rightarrow> full_options \<Rightarrow> (string \<times> string, string \<times> string) result" where
  "cover_attempt W tmp f =
     map_err (\<lambda>m. (''extract_failed'', ''extract cover: '' @ m)) (extract_cover W tmp (full_timestamp f))"

definition preview_attempt :: "worker_env \<Rightarrow> string \<Rightarrow> full_options \<Rightarrow> (string \<times> string, string \<times> string) result" where
  "preview_attempt W tmp f =
     map_err (\<lambda>m. (''generate_failed'', ''generate preview: '' @ m)) (generate_preview W tmp (full_preview f))"

definition finish_cover ::
    "worker_env \<Rightarrow> string \<Rightarrow> (string \<times> string, string \<times> string) result \<Rightarrow> full_result \<times> worker_state \<Rightarrow> full_result \<times> worker_state" where
  "finish_cover W h attempt x =
     (case attempt of
        Inl (code, m) \<Rightarrow> (set_cover_stage (failed_stage code m) (fst x), snd x)
      | Inr (data, format) \<Rightarrow>
          (let key = worker_video_key h ''cover.jpg'' in
           case upload_bytes W key ''image/jpeg'' data (snd x) of
             (Inl m, st) \<Rightarrow> (set_cover_stage (failed_stage ''upload_failed'' (''upload cover: '' @ m)) (fst x), st)
           | (Inr u, st) \<Rightarrow>
               (set_cover_stage ready_stage
                  ((fst x)\<lparr>fr_artifacts := (fr_artifacts (fst x))
                     \<lparr>fa_cover := Some \<lparr>ca_key = key, ca_format = format, ca_size = length data\<rparr>\<rparr>\<rparr>), st)))"

definition finish_preview ::
    "worker_env \<Rightarrow> string \<Rightarrow> (string \<times> string, string \<times> string) result \<Rightarrow> full_result \<times> worker_state \<Rightarrow> full_result \<times> worker_state" where
  "finish_preview W h attempt x =
     (case attempt of
        Inl (code, m) \<Rightarrow> (set_preview_stage (failed_stage code m) (fst x), snd x)
      | Inr (data, format) \<Rightarrow>
          (let ext = (if format = [] then ''webp'' else format); key = worker_video_key h (''preview.'' @ ext) in
           case upload_bytes W key (image_mime_type ext) data (snd x) of
             (Inl m, st) \<Rightarrow> (set_preview_stage (failed_stage ''upload_failed'' (''upload preview: '' @ m)) (fst x), st)
           | (Inr u, st) \<Rightarrow>
               (set_preview_stage ready_stage
                  ((fst x)\<lparr>fr_artifacts := (fr_artifacts (fst x))
                     \<lparr>fa_preview := Some \<lparr>pw_key = key, pw_format = format, pw_size = length data\<rparr>\<rparr>\<rparr>), st)))"

definition fail_full :: "worker_env \<Rightarrow> string \<Rightarrow> job_meta \<Rightarrow> full_result \<Rightarrow> worker_state \<Rightarrow> outcome" where
  "fail_full W i meta r st = fail_job_with_result W i meta (full_failure_error r) (Some (ResFull r)) st"

text \<open>A failed transcode stage with its code, text and the reason of the plan.\<close>

definition fail_full_transcode ::
    "worker_env \<Rightarrow> string \<Rightarrow> job_meta \<Rightarrow> string \<Rightarrow> string \<Rightarrow> string \<Rightarrow> full_result \<Rightarrow> worker_state \<Rightarrow> outcome" where
  "fail_full_transcode W i meta code m reason r st =
     fail_full W i meta
       (set_retry_plan RetryTasks [type_video_transcode] [''transcode''] reason
          (set_transcode_stage (failed_stage code m) r)) st"

definition full_transcode ::
    "worker_env \<Rightarrow> string \<Rightarrow> job_meta \<Rightarrow> string \<Rightarrow> bool \<Rightarrow> string \<Rightarrow> full_result \<Rightarrow> worker_state \<Rightarrow> outcome" where
  "full_transcode W i meta h encrypt tmp r st0 =
     (let st = set_progress W i 25 st0; prep = ''transcode preparation failed''; stage = ''transcode stage failed'' in
      case we_temp_root W of
        Inl m \<Rightarrow> fail_full_transcode W i meta ''prepare_failed'' m prep r st
      | Inr tmp_root \<Rightarrow>
          (case we_mkdir W of
             Inl m \<Rightarrow> fail_full_transcode W i meta ''prepare_failed'' (''create temp dir: '' @ m) prep r st
           | Inr dir \<Rightarrow>
               (case setup_encryption W h ''video'' encrypt st of
                  (Inl m, st1) \<Rightarrow> fail_full_transcode W i meta ''encryption_setup_failed'' m stage r st1
                | (Inr mat, st1) \<Rightarrow>
                    (case transcode (we_tools W) tmp dir (map_option config_of_material mat) of
                       Inl e \<Rightarrow> fail_full_transcode W i meta ''transcode_failed'' (''transcode: '' @ we_video_text W e) stage r st1
                     | Inr t \<Rightarrow>
                         (let st2 = set_progress W i 80 st1 in
                          case upload_hls_dir W h (we_walk W dir) [] st2 of
                            (Inl m, st3) \<Rightarrow>
                              fail_full_transcode W i meta ''upload_failed'' (''upload HLS: '' @ m) ''transcode upload failed'' r st3
                          | (Inr uploaded, st3) \<Rightarrow>
                              (let r1 = set_transcode_stage ready_stage
                                     (r\<lparr>fr_artifacts := (fr_artifacts r)
                                        \<lparr>fa_transcode := Some (build_transcode_result h t uploaded mat)\<rparr>\<rparr>) in
                               complete_job W i meta
                                 (ResFull (r1\<lparr>fr_plan := \<lparr>rp_allowed = False, rp_strategy = RetryNone, rp_job_types = [],
                                                          rp_stages = [], rp_reason = []\<rparr>\<rparr>))
                                 (set_progress W i 95 st3)))))))"

definition handle_full :: "worker_env \<Rightarrow> string \<Rightarrow> string \<Rightarrow> string \<Rightarrow> full_options \<Rightarrow> string \<Rightarrow> worker_state \<Rightarrow> outcome" where
  "handle_full W i h source f cb st0 =
     (let meta = \<lparr>jm_type = type_video_full, jm_hash = h, jm_callback = cb\<rparr>;
          encrypt = (case fo_transcode f of None \<Rightarrow> False | Some t \<Rightarrow> to_encrypt t);
          r0 = new_full_result; st1 = mark_processing W i st0 in
      case we_download W source of
        Inl m \<Rightarrow>
          (let blocked = skipped_stage ''blocked_by_source_failure'' in
           fail_full W i meta
             (set_retry_plan RetryJob [type_video_full] [''source''] ''source download failed''
               (set_transcode_stage blocked (set_preview_stage blocked (set_cover_stage blocked
                 (set_source_stage (failed_stage ''download_failed'' (''download source: '' @ m)) r0))))) st1)
      | Inr tmp \<Rightarrow>
          (let st2 = set_progress W i 20 (set_progress W i 5 st1);
               (r, st3) = finish_preview W h (preview_attempt W tmp f)
                            (finish_cover W h (cover_attempt W tmp f) (set_source_stage ready_stage r0, st2)) in
           if stage_failed (fs_cover (fr_stages r)) \<or> stage_failed (fs_preview (fr_stages r)) then
             (let r1 = set_transcode_stage (skipped_stage ''blocked_by_failed_dependencies'') r in
              fail_full W i meta
                (set_retry_plan RetryTasks (retry_tasks_cover_preview r1) (retry_stages_cover_preview r1)
                   ''cover/preview stage failed'' r1) st3)
           else full_transcode W i meta h encrypt tmp r st3))"

end
