(* ===== verification/AudioWorker.thy ===== *)
theory AudioWorker
  imports WorkerDeps
begin

text \<open>
  The audio task handler, \<open>internal/queue/handlers/audio.go\<close>: download, probe, waveform, packaging and
  downloads in this order, each with its stage in the result. Temporary files that stay behind and
  time-outs are not modelled.
\<close>

section \<open>Stages\<close>

definition skip_if_pending :: "string \<Rightarrow> audio_stage \<Rightarrow> audio_stage" where
  "skip_if_pending reason s = (if as_status s = StatusPending then audio_skipped reason else s)"

definition skip_pending_audio_stages :: "string \<Rightarrow> audio_result \<Rightarrow> audio_result" where
  "skip_pending_audio_stages reason r =
     (let s = ar_stages r in
      r\<lparr>ar_stages :=
          \<lparr>au_source = skip_if_pending reason (au_source s), au_probe = skip_if_pending reason (au_probe s),
           au_package = skip_if_pending reason (au_package s), au_downloads = skip_if_pending reason (au_downloads s),
           au_waveform = skip_if_pending reason (au_waveform s)\<rparr>\<rparr>)"

definition set_au_source :: "audio_stage \<Rightarrow> audio_result \<Rightarrow> audio_result" where
  "set_au_source s r = r\<lparr>ar_stages := (ar_stages r)\<lparr>au_source := s\<rparr>\<rparr>"

definition set_au_probe :: "audio_stage \<Rightarrow> audio_result \<Rightarrow> audio_result" where
  "set_au_probe s r = r\<lparr>ar_stages := (ar_stages r)\<lparr>au_probe := s\<rparr>\<rparr>"

definition set_au_package :: "audio_stage \<Rightarrow> audio_result \<Rightarrow> audio_result" where
  "set_au_package s r = r\<lparr>ar_stages := (ar_stages r)\<lparr>au_package := s\<rparr>\<rparr>"

definition set_au_downloads :: "audio_stage \<Rightarrow> audio_result \<Rightarrow> audio_result" where
  "set_au_downloads s r = r\<lparr>ar_stages := (ar_stages r)\<lparr>au_downloads := s\<rparr>\<rparr>"

definition set_au_waveform :: "audio_stage \<Rightarrow> audio_result \<Rightarrow> audio_result" where
  "set_au_waveform s r = r\<lparr>ar_stages := (ar_stages r)\<lparr>au_waveform := s\<rparr>\<rparr>"

definition audio_failure_error :: "audio_result \<Rightarrow> string" where
  "audio_failure_error r =
     (case ar_failure r of
        None \<Rightarrow> ''audio process failed''
      | Some c \<Rightarrow> ''audio process failed at '' @ fc_stage c @ '': '' @ fc_message c)"

definition fail_audio_process ::
    "worker_env \<Rightarrow> string \<Rightarrow> job_meta \<Rightarrow> audio_result \<Rightarrow> string \<Rightarrow> string \<Rightarrow> string \<Rightarrow> worker_state \<Rightarrow> outcome" where
  "fail_audio_process W i meta r stage code message st =
     (let r1 = mark_failure stage code message r in
      fail_job_with_result W i meta (audio_failure_error r1) (Some (ResAudio r1)) st)"

text \<open>
  A failing stage before the downloads skips what is pending; a failing download does not, since no
  other stage is pending then.
\<close>

definition fail_waveform :: "worker_env \<Rightarrow> string \<Rightarrow> job_meta \<Rightarrow> string \<Rightarrow> string \<Rightarrow> audio_result \<Rightarrow> worker_state \<Rightarrow> outcome" where
  "fail_waveform W i meta code m r st =
     fail_audio_process W i meta
       (skip_pending_audio_stages ''not_attempted_after_waveform_failure'' (set_au_waveform (audio_failed code m) r))
       ''waveform'' code m st"

definition fail_package :: "worker_env \<Rightarrow> string \<Rightarrow> job_meta \<Rightarrow> string \<Rightarrow> string \<Rightarrow> audio_result \<Rightarrow> worker_state \<Rightarrow> outcome" where
  "fail_package W i meta code m r st =
     fail_audio_process W i meta
       (skip_pending_audio_stages ''not_attempted_after_package_failure'' (set_au_package (audio_failed code m) r))
       ''package'' code m st"

definition fail_downloads :: "worker_env \<Rightarrow> string \<Rightarrow> job_meta \<Rightarrow> string \<Rightarrow> string \<Rightarrow> audio_result \<Rightarrow> worker_state \<Rightarrow> outcome" where
  "fail_downloads W i meta code m r st =
     fail_audio_process W i meta (set_au_downloads (audio_failed code m) r) ''downloads'' code m st"

section \<open>Downloads\<close>

text \<open>The MP3 and then the FLAC; the continuation gets the extended result.\<close>

definition make_download ::
    "worker_env \<Rightarrow> string \<Rightarrow> job_meta \<Rightarrow> string \<Rightarrow> string \<Rightarrow> string list \<Rightarrow> string \<Rightarrow> int \<Rightarrow> audio_result \<Rightarrow> worker_state \<Rightarrow>
     (audio_result \<Rightarrow> worker_state \<Rightarrow> outcome) \<Rightarrow> outcome" where
  "make_download W i meta h format args path bitrate r st k =
     (case mt_ffmpeg (we_tools W) args of
        Inl m \<Rightarrow> fail_downloads W i meta ''encode_failed'' (''encode '' @ format @ '': encode '' @ format @ '': '' @ m) r st
      | Inr u \<Rightarrow>
          (let key = worker_audio_key h (''downloads/audio.'' @ format) in
           case upload_file W key (audio_mime_type format) path (we_open W path) st of
             (Inl m, st1) \<Rightarrow> fail_downloads W i meta ''upload_failed'' (''upload '' @ format @ '': '' @ m) r st1
           | (Inr u, st1) \<Rightarrow>
               (case we_stat W path of
                  Inl m \<Rightarrow> fail_downloads W i meta ''finalize_failed'' (''stat '' @ format @ '': '' @ m) r st1
                | Inr n \<Rightarrow>
                    k (r\<lparr>ar_downloads := ar_downloads r @
                          [\<lparr>da_format = format, da_bitrate = bitrate, da_key = key, da_size = n\<rparr>]\<rparr>) st1)))"

definition finish_audio :: "worker_env \<Rightarrow> string \<Rightarrow> job_meta \<Rightarrow> audio_options \<Rightarrow> audio_result \<Rightarrow> worker_state \<Rightarrow> outcome" where
  "finish_audio W i meta a r st =
     complete_job W i meta
       (ResAudio (if ao_mp3 a \<or> ao_flac a then set_au_downloads audio_ready r else r)) (set_progress W i 95 st)"

definition audio_downloads ::
    "worker_env \<Rightarrow> string \<Rightarrow> job_meta \<Rightarrow> string \<Rightarrow> audio_options \<Rightarrow> string \<Rightarrow> audio_result \<Rightarrow> worker_state \<Rightarrow> outcome" where
  "audio_downloads W i meta h a tmp r st0 =
     (let st = set_progress W i 65 st0 in
      case we_temp_root W of
        Inl m \<Rightarrow> fail_downloads W i meta ''prepare_failed'' m r st
      | Inr dir \<Rightarrow>
          (let mp3 = path_join [dir, i @ ''.mp3'']; flac = path_join [dir, i @ ''.flac''];
               after_mp3 = (\<lambda>r1 st1.
                 if ao_flac a
                 then make_download W i meta h ''flac'' (flac_args tmp flac) flac 0 r1 st1 (finish_audio W i meta a)
                 else finish_audio W i meta a r1 st1) in
           if ao_mp3 a
           then make_download W i meta h ''mp3'' (mp3_args tmp mp3 (ao_mp3_bitrate a)) mp3
                  (parse_audio_bitrate (ao_mp3_bitrate a)) r st after_mp3
           else after_mp3 r st))"

section \<open>Packaging\<close>

definition audio_package ::
    "worker_env \<Rightarrow> string \<Rightarrow> job_meta \<Rightarrow> string \<Rightarrow> audio_options \<Rightarrow> string \<Rightarrow> audio_result \<Rightarrow> worker_state \<Rightarrow>
     (audio_result \<Rightarrow> worker_state \<Rightarrow> outcome) \<Rightarrow> outcome" where
  "audio_package W i meta h a tmp r st k =
     (if \<not> ao_hls a then k r st
      else case (if ao_encrypt a
                 then (case setup_hls_encryption (we_draws W) h ''audio'' (we_base_url W) (we_wrapper W) (wk_keys st) of
                         Inl e \<Rightarrow> (Inl (''setup encryption: '' @ we_enc_text W e), st)
                       | Inr (m, rows) \<Rightarrow> (Inr (Some m), st\<lparr>wk_keys := rows\<rparr>))
                 else (Inr None, st)) of
        (Inl m, st1) \<Rightarrow> fail_package W i meta ''encryption_setup_failed'' m r st1
      | (Inr mat, st1) \<Rightarrow>
          (case we_temp_root W of
             Inl m \<Rightarrow> fail_package W i meta ''prepare_failed'' m r st1
           | Inr tmp_root \<Rightarrow>
               (case we_mkdir W of
                  Inl m \<Rightarrow> fail_package W i meta ''prepare_failed'' (''create audio hls dir: '' @ m) r st1
                | Inr dir \<Rightarrow>
                    (case package_hls (we_tools W) tmp dir (map_option config_of_material mat) of
                       Inl e \<Rightarrow> fail_package W i meta ''package_failed'' (''package hls: '' @ we_video_text W e) r st1
                     | Inr p \<Rightarrow>
                         (case upload_audio_hls_dir W h dir (we_walk W dir) [] st1 of
                            (Inl m, st2) \<Rightarrow> fail_package W i meta ''upload_failed'' (''upload audio hls: '' @ m) r st2
                          | (Inr uploaded, st2) \<Rightarrow>
                              k (set_au_package audio_ready
                                   (r\<lparr>ar_streaming := Some (build_audio_streaming h p (mat \<noteq> None)),
                                      ar_encryption := map_option (\<lambda>m. \<lparr>ea_scheme = m_scheme m,
                                         ea_kid = hex_encode (m_key_id m), ea_endpoint = m_key_uri m\<rparr>) mat\<rparr>)) st2)))))"

section \<open>Waveform\<close>

definition waveform_args :: "string \<Rightarrow> string list" where
  "waveform_args input =
     [''-v'', ''error'', ''-i'', input, ''-map'', ''0:a:0'', ''-vn'', ''-ac'', ''1'', ''-acodec'', ''pcm_f32le'', ''-f'', ''f32le'', ''-'']"

text \<open>\<open>json.Marshal\<close> rejects the infinities; peaks have no sign and are no NaN.\<close>

definition marshal_waveform :: "worker_env \<Rightarrow> 32 word list \<Rightarrow> (string, string) result" where
  "marshal_waveform W peaks =
     (if 0x7F800000 \<in> set peaks then Inl ''json: unsupported value: +Inf'' else Inr (we_peaks_json W peaks))"

fun wave_text :: "wave_error \<Rightarrow> string" where
  "wave_text (WaveExtract m) = ''extract waveform samples: '' @ m"
| "wave_text WaveNoSamples = ''extract waveform samples: no audio samples returned''"
| "wave_text WavePanic = ''panic''"

text \<open>
  A panic leaves the handler: asynq recovers it and reports an error, and nothing of the handler runs
  any more.
\<close>

definition audio_waveform ::
    "worker_env \<Rightarrow> string \<Rightarrow> job_meta \<Rightarrow> string \<Rightarrow> audio_options \<Rightarrow> string \<Rightarrow> audio_result \<Rightarrow> worker_state \<Rightarrow>
     (audio_result \<Rightarrow> worker_state \<Rightarrow> outcome) \<Rightarrow> outcome" where
  "audio_waveform W i meta h a tmp r st k =
     (if \<not> ao_waveform a then k r st
      else case generate_waveform (we_max_slice W) (we_run W (waveform_args tmp)) (ao_waveform_bins a) of
        Inl e \<Rightarrow>
          if e = WavePanic then (Some (wave_text e), st)
          else fail_waveform W i meta ''generate_failed'' (''generate waveform: '' @ wave_text e) r st
      | Inr peaks \<Rightarrow>
          (case marshal_waveform W peaks of
             Inl m \<Rightarrow> fail_waveform W i meta ''marshal_failed'' (''marshal waveform: '' @ m) r st
           | Inr data \<Rightarrow>
               (let key = worker_audio_key h ''waveform/waveform.json'' in
                case upload_bytes W key ''application/json'' data st of
                  (Inl m, st1) \<Rightarrow> fail_waveform W i meta ''upload_failed'' (''upload waveform: '' @ m) r st1
                | (Inr u, st1) \<Rightarrow>
                    k (set_au_waveform audio_ready (r\<lparr>ar_waveform := Some \<lparr>wa_key = key, wa_bins = length peaks\<rparr>\<rparr>)) st1)))"

section \<open>The handler\<close>

fun format_name :: "source_format \<Rightarrow> string" where
  "format_name FmtUnknown = ''unknown''"
| "format_name FmtAAC = ''aac''"
| "format_name FmtAIFF = ''aiff''"
| "format_name FmtALAC = ''alac''"
| "format_name FmtFLAC = ''flac''"
| "format_name FmtM4A = ''m4a''"
| "format_name FmtMP3 = ''mp3''"
| "format_name FmtOGG = ''ogg''"
| "format_name FmtOpus = ''opus''"
| "format_name FmtWAV = ''wav''"

definition fail_probe :: "worker_env \<Rightarrow> string \<Rightarrow> job_meta \<Rightarrow> string \<Rightarrow> string \<Rightarrow> audio_result \<Rightarrow> worker_state \<Rightarrow> outcome" where
  "fail_probe W i meta code m r st =
     fail_audio_process W i meta
       (skip_pending_audio_stages ''blocked_by_probe_failure'' (set_au_probe (audio_failed code m) r)) ''probe'' code m st"

definition handle_audio :: "worker_env \<Rightarrow> string \<Rightarrow> string \<Rightarrow> string \<Rightarrow> audio_options \<Rightarrow> string \<Rightarrow> worker_state \<Rightarrow> outcome" where
  "handle_audio W i h source a cb st0 =
     (let meta = \<lparr>jm_type = type_audio_transcode, jm_hash = h, jm_callback = cb\<rparr>;
          r0 = new_audio_result (ao_hls a) (ao_mp3 a \<or> ao_flac a) (ao_waveform a);
          st1 = mark_processing W i st0 in
      case we_download W source of
        Inl m \<Rightarrow>
          (let message = ''download source: '' @ m in
           fail_audio_process W i meta
             (skip_pending_audio_stages ''blocked_by_source_failure'' (set_au_source (audio_failed ''download_failed'' message) r0))
             ''source'' ''download_failed'' message st1)
      | Inr tmp \<Rightarrow>
          (let r1 = set_au_source audio_ready r0; st2 = set_progress W i 10 st1 in
           case audio_probe (mt_parse_float (we_tools W)) tmp (we_probe W) of
             Inl e \<Rightarrow> fail_probe W i meta ''probe_failed'' (''probe source: '' @ we_probe_text W e) r1 st2
           | Inr p \<Rightarrow>
               if \<not> supported (pr_format p) then
                 fail_probe W i meta ''unsupported_source_format''
                   (''unsupported audio source format: '' @ format_name (pr_format p)) r1 st2
               else
                 audio_waveform W i meta h a tmp ((set_au_probe audio_ready r1)\<lparr>ar_analysis := Some p\<rparr>)
                   (set_progress W i 25 st2) (\<lambda>r2 st3.
                 audio_package W i meta h a tmp r2 st3 (\<lambda>r3 st4.
                 audio_downloads W i meta h a tmp r3 st4))))"

end
