(* ===== verification/Workers.thy ===== *)
theory Workers
  imports VideoWorkers AudioWorker
begin

text \<open>
  All workers together: the dispatch of a task to its handler, what every handler leaves alone
  (proved once for all of them through the interface \<open>worker_inv\<close>), and what a finished or failed job
  looks like.
\<close>

section \<open>Dispatch\<close>

record 'i image_tools =
  it_vips :: "'i vips"
  it_frames :: int
  it_text :: "process_error \<Rightarrow> string"

fun run_payload :: "worker_env \<Rightarrow> 'i image_tools \<Rightarrow> string \<Rightarrow> payload \<Rightarrow> worker_state \<Rightarrow> outcome" where
  "run_payload W I i (PThumbnail h s os c) st = handle_thumbnail W (it_vips I) (it_frames I) (it_text I) i h s os c st"
| "run_payload W I i (PAudio h s a c) st = handle_audio W i h s a c st"
| "run_payload W I i (PCover h s t c) st = handle_cover W i h s t c st"
| "run_payload W I i (PPreview h s p c) st = handle_preview W i h s p c st"
| "run_payload W I i (PTranscode h s e c) st = handle_transcode W i h s e c st"
| "run_payload W I i (PFull h s f c) st = handle_full W i h s f c st"

fun payload_hash :: "payload \<Rightarrow> string" where
  "payload_hash (PThumbnail h s os c) = h"
| "payload_hash (PAudio h s a c) = h"
| "payload_hash (PCover h s t c) = h"
| "payload_hash (PPreview h s p c) = h"
| "payload_hash (PTranscode h s e c) = h"
| "payload_hash (PFull h s f c) = h"

section \<open>What a handler may do\<close>

text \<open>The directories of a hash in the media bucket, as the cleaner lists them.\<close>

definition hash_dirs :: "string \<Rightarrow> string list" where
  "hash_dirs h =
     map (\<lambda>kind. kind @ ''/'' @ hash_shard h @ ''/'' @ h @ ''/'') [''images'', ''videos'', ''audio'']"

definition under_hash :: "string \<Rightarrow> string \<Rightarrow> bool" where
  "under_hash h key \<longleftrightarrow> (\<exists>d \<in> set (hash_dirs h). has_prefix key d)"

lemma under_hash_keys [simp]:
  "under_hash h (image_s3_key h v f)" "under_hash h (worker_video_key h rel)" "under_hash h (worker_audio_key h rel)"
  by (auto simp: under_hash_def hash_dirs_def image_s3_key_def worker_video_key_def worker_audio_key_def hash_shard_def
      has_prefix_iff)

text \<open>A status update: it keeps the columns the row was created with.\<close>

definition status_update :: "(job_row \<Rightarrow> job_row) \<Rightarrow> bool" where
  "status_update f \<longleftrightarrow>
     (\<forall>r. j_id (f r) = j_id r \<and> j_type (f r) = j_type r \<and> j_hash (f r) = j_hash r \<and> j_source (f r) = j_source r \<and>
        j_options (f r) = j_options r \<and> j_fingerprint (f r) = j_fingerprint r \<and>
        j_callback_url (f r) = j_callback_url r \<and> j_retry_of (f r) = j_retry_of r)"

text \<open>The results each kind of job stores.\<close>

fun results_type :: "job_results \<Rightarrow> string" where
  "results_type (ResThumbnails r) = type_image_thumbnail"
| "results_type (ResAudio r) = type_audio_transcode"
| "results_type (ResCover r) = type_video_cover"
| "results_type (ResPreview r) = type_video_preview"
| "results_type (ResTranscode r) = type_video_transcode"
| "results_type (ResFull r) = type_video_full"

text \<open>The four updates workers make of a row of type \<open>ty\<close>.\<close>

inductive worker_update :: "string \<Rightarrow> (job_row \<Rightarrow> job_row) \<Rightarrow> bool" for ty :: string where
  Processing: "worker_update ty (\<lambda>r. r\<lparr>j_status := ''processing'', j_error := None\<rparr>)"
| Progress: "0 \<le> pct \<Longrightarrow> pct \<le> 100 \<Longrightarrow> worker_update ty (\<lambda>r. r\<lparr>j_progress := pct\<rparr>)"
| Failed: "pred_option (\<lambda>x. results_type x = ty) res \<Longrightarrow>
    worker_update ty (\<lambda>r. r\<lparr>j_status := ''failed'', j_error := Some e, j_results := res\<rparr>)"
| Completed: "results_type res2 = ty \<Longrightarrow>
    worker_update ty (\<lambda>r. r\<lparr>j_status := ''completed'', j_progress := 100, j_error := None, j_results := Some res2\<rparr>)"

lemma worker_update_columns: "worker_update ty f \<Longrightarrow> status_update f"
  by (induction rule: worker_update.induct) (simp_all add: status_update_def)

text \<open>
  What is kept by every single effect a handler of job \<open>i\<close> of type \<open>ty\<close> for hash \<open>h\<close> can have is kept by
  the handler.
\<close>

locale worker_inv =
  fixes I :: "worker_state \<Rightarrow> bool" and W :: worker_env and i :: string and h :: string and ty :: string
  assumes keep_rows: "I st \<Longrightarrow> worker_update ty f \<Longrightarrow> I (st\<lparr>wk_rows := update_job i f (wk_rows st)\<rparr>)"
    and keep_media: "I st \<Longrightarrow> under_hash h key \<Longrightarrow> I (st\<lparr>wk_media := (wk_media st)(key \<mapsto> ob)\<rparr>)"
    and keep_keys: "I st \<Longrightarrow> setup_hls_encryption d h asset (we_base_url W) (we_wrapper W) (wk_keys st) = Inr (m, rows) \<Longrightarrow>
          I (st\<lparr>wk_keys := rows\<rparr>)"
    and keep_calls: "I st \<Longrightarrow> wc_job c = i \<Longrightarrow> wc_hash c = h \<Longrightarrow> I (st\<lparr>wk_calls := wk_calls st @ [c]\<rparr>)"
begin

lemma I_rows [simp]:
  "I st \<Longrightarrow> I (mark_processing W i st)" "I st \<Longrightarrow> 0 \<le> pct \<Longrightarrow> pct \<le> 100 \<Longrightarrow> I (set_progress W i pct st)"
  "I st \<Longrightarrow> pred_option (\<lambda>x. results_type x = ty) res \<Longrightarrow> I (db_update W OpFailure (update_job_failure i e res) st)"
  "I st \<Longrightarrow> results_type res2 = ty \<Longrightarrow> I (db_update W OpCompletion (update_job_completion i res2) st)"
  by (auto simp: mark_processing_def set_progress_def db_update_def update_job_status_def update_job_progress_def
      update_job_failure_def update_job_completion_def intro!: keep_rows worker_update.intros)

lemma I_webhook [simp]: "I st \<Longrightarrow> jm_hash meta = h \<Longrightarrow> I (start_webhook W i meta s e res st)"
  by (auto simp: start_webhook_def intro!: keep_calls)

lemma I_end [simp]:
  "I st \<Longrightarrow> jm_hash meta = h \<Longrightarrow> results_type r = ty \<Longrightarrow> I (snd (complete_job W i meta r st))"
  "I st \<Longrightarrow> jm_hash meta = h \<Longrightarrow> pred_option (\<lambda>x. results_type x = ty) res \<Longrightarrow>
   I (snd (fail_job_with_result W i meta e res st))"
  "I st \<Longrightarrow> jm_hash meta = h \<Longrightarrow> I (snd (fail_job W i meta e st))"
  by (simp_all add: complete_job_def fail_job_with_result_def fail_job_def I_rows I_webhook)

lemma I_upload [simp]:
  "I st \<Longrightarrow> under_hash h key \<Longrightarrow> I (snd (upload_bytes W key ct data st))"
  "I st \<Longrightarrow> under_hash h key \<Longrightarrow> I (snd (upload_file W key ct path file st))"
  by (auto simp: upload_bytes_def upload_file_def keep_media split: sum.split)

lemma I_upload_hls [simp]: "I st \<Longrightarrow> I (snd (upload_hls_dir W h fs up st))"
proof (induction fs arbitrary: up st)
  case (Cons x fs)
  then show ?case
    by (cases x) (auto simp: Let_def split_beta split: sum.split)
qed simp

lemma I_upload_audio_hls [simp]: "I st \<Longrightarrow> I (snd (upload_audio_hls_dir W h dir fs up st))"
proof (induction fs arbitrary: up st)
  case (Cons x fs)
  then show ?case
    by (cases x) (auto simp: Let_def split_beta split: sum.split)
qed simp

lemma I_setup [simp]: "I st \<Longrightarrow> I (snd (setup_encryption W h asset on st))"
  by (auto simp: setup_encryption_def keep_keys split: sum.split)

lemma I_cover: "I st \<Longrightarrow> type_video_cover = ty \<Longrightarrow> I (snd (handle_cover W i h s t c st))"
  by (auto simp: handle_cover_def Let_def split_beta split: sum.split)

lemma I_preview: "I st \<Longrightarrow> type_video_preview = ty \<Longrightarrow> I (snd (handle_preview W i h s p c st))"
  by (auto simp: handle_preview_def Let_def split_beta split: sum.split)

lemma loop_progress:
  "0 \<le> k \<Longrightarrow> k + 1 \<le> cnt \<Longrightarrow> 0 \<le> (k + 1) * 100 div cnt \<and> (k + 1) * 100 div cnt \<le> (100 :: int)"
  using zdiv_mono1 [of "(k + 1) * 100" "cnt * 100" cnt] by (simp add: pos_imp_zdiv_nonneg_iff)

lemma I_thumbnail_loop:
  "I st \<Longrightarrow> jm_hash meta = h \<Longrightarrow> type_image_thumbnail = ty \<Longrightarrow> 0 \<le> k \<Longrightarrow> k + int (length os) \<le> cnt \<Longrightarrow>
   I (snd (thumbnail_loop W V n tx i meta h src cnt k os acc st))"
proof (induction os arbitrary: k acc st)
  case (Cons out os)
  have "0 \<le> (k + 1) * 100 div cnt" "(k + 1) * 100 div cnt \<le> 100"
    using loop_progress [of k cnt] Cons.prems(4,5) by auto
  with Cons show ?case by (auto simp: Let_def split_beta split: sum.split)
qed (simp add: I_end)

lemma I_thumbnail: "I st \<Longrightarrow> type_image_thumbnail = ty \<Longrightarrow> I (snd (handle_thumbnail W V n tx i h s os c st))"
  by (auto simp: handle_thumbnail_def Let_def intro!: I_thumbnail_loop split: sum.split)

lemma I_transcode: "I st \<Longrightarrow> type_video_transcode = ty \<Longrightarrow> I (snd (handle_transcode W i h s e c st))"
  by (auto simp: handle_transcode_def Let_def split_beta split: sum.split)

lemma I_finish [simp]:
  "I (snd x) \<Longrightarrow> I (snd (finish_cover W h att x))" "I (snd x) \<Longrightarrow> I (snd (finish_preview W h att x))"
  by (auto simp: finish_cover_def finish_preview_def Let_def split_beta split: sum.split)

lemma I_fail_full [simp]:
  "I st \<Longrightarrow> jm_hash meta = h \<Longrightarrow> type_video_full = ty \<Longrightarrow> I (snd (fail_full W i meta r st))"
  "I st \<Longrightarrow> jm_hash meta = h \<Longrightarrow> type_video_full = ty \<Longrightarrow> I (snd (fail_full_transcode W i meta c m re r st))"
  by (simp_all add: fail_full_def fail_full_transcode_def)

lemma I_full_transcode [simp]: "I st \<Longrightarrow> jm_hash meta = h \<Longrightarrow> type_video_full = ty \<Longrightarrow> I (snd (full_transcode W i meta h enc tmp r st))"
  by (auto simp: full_transcode_def Let_def split_beta split: sum.split)

lemma I_full: "I st \<Longrightarrow> type_video_full = ty \<Longrightarrow> I (snd (handle_full W i h s f c st))"
  by (auto simp: handle_full_def Let_def split_beta split: sum.split)

lemma I_fail_audio [simp]:
  "I st \<Longrightarrow> jm_hash meta = h \<Longrightarrow> type_audio_transcode = ty \<Longrightarrow> I (snd (fail_audio_process W i meta r sg c m st))"
  "I st \<Longrightarrow> jm_hash meta = h \<Longrightarrow> type_audio_transcode = ty \<Longrightarrow> I (snd (fail_waveform W i meta c m r st))"
  "I st \<Longrightarrow> jm_hash meta = h \<Longrightarrow> type_audio_transcode = ty \<Longrightarrow> I (snd (fail_package W i meta c m r st))"
  "I st \<Longrightarrow> jm_hash meta = h \<Longrightarrow> type_audio_transcode = ty \<Longrightarrow> I (snd (fail_downloads W i meta c m r st))"
  "I st \<Longrightarrow> jm_hash meta = h \<Longrightarrow> type_audio_transcode = ty \<Longrightarrow> I (snd (fail_probe W i meta c m r st))"
  by (simp_all add: fail_audio_process_def fail_waveform_def fail_package_def fail_downloads_def fail_probe_def Let_def)

lemma I_make_download [simp]:
  "I st \<Longrightarrow> jm_hash meta = h \<Longrightarrow> type_audio_transcode = ty \<Longrightarrow> (\<And>r s. I s \<Longrightarrow> I (snd (k r s))) \<Longrightarrow>
   I (snd (make_download W i meta h fm args path br r st k))"
  by (auto simp: make_download_def Let_def split_beta split: sum.split)

lemma I_finish_audio [simp]: "I st \<Longrightarrow> jm_hash meta = h \<Longrightarrow> type_audio_transcode = ty \<Longrightarrow> I (snd (finish_audio W i meta a r st))"
  by (simp add: finish_audio_def)

lemma I_audio_downloads [simp]: "I st \<Longrightarrow> jm_hash meta = h \<Longrightarrow> type_audio_transcode = ty \<Longrightarrow> I (snd (audio_downloads W i meta h a tmp r st))"
  by (auto simp: audio_downloads_def Let_def split: sum.split)

lemma I_audio_package [simp]:
  "I st \<Longrightarrow> jm_hash meta = h \<Longrightarrow> type_audio_transcode = ty \<Longrightarrow> (\<And>r s. I s \<Longrightarrow> I (snd (k r s))) \<Longrightarrow>
   I (snd (audio_package W i meta h a tmp r st k))"
  by (auto simp: audio_package_def Let_def split_beta keep_keys split: sum.split)

lemma I_audio_waveform [simp]:
  "I st \<Longrightarrow> jm_hash meta = h \<Longrightarrow> type_audio_transcode = ty \<Longrightarrow> (\<And>r s. I s \<Longrightarrow> I (snd (k r s))) \<Longrightarrow>
   I (snd (audio_waveform W i meta h a tmp r st k))"
  by (auto simp: audio_waveform_def Let_def split_beta split: sum.split)

lemma I_audio: "I st \<Longrightarrow> type_audio_transcode = ty \<Longrightarrow> I (snd (handle_audio W i h s a c st))"
  by (auto simp: handle_audio_def Let_def split_beta split: sum.split)

theorem run_payload_keeps: "I st \<Longrightarrow> payload_hash p = h \<Longrightarrow> payload_type p = ty \<Longrightarrow> I (snd (run_payload W T i p st))"
  by (cases p) (simp_all add: I_cover I_preview I_thumbnail I_transcode I_full I_audio)

end

section \<open>Workers stay within their job and hash\<close>

definition worker_frame :: "worker_state \<Rightarrow> string \<Rightarrow> string \<Rightarrow> worker_state \<Rightarrow> bool" where
  "worker_frame st0 i h st \<longleftrightarrow>
     (\<exists>f. status_update f \<and> wk_rows st = update_job i f (wk_rows st0)) \<and>
     (\<forall>k. wk_media st k = wk_media st0 k \<or> under_hash h k) \<and>
     filter (\<lambda>r. kr_source_hash r \<noteq> h) (wk_keys st) = filter (\<lambda>r. kr_source_hash r \<noteq> h) (wk_keys st0) \<and>
     (\<exists>cs. wk_calls st = wk_calls st0 @ cs \<and> (\<forall>c \<in> set cs. wc_job c = i \<and> wc_hash c = h))"

lemma update_job_comp:
  "(\<And>r. j_id (f r) = j_id r) \<Longrightarrow> update_job i g (update_job i f rows) = update_job i (g \<circ> f) rows"
  by (simp add: update_job_def comp_def if_distrib cong: if_cong)

lemma update_job_id [simp]: "update_job i (\<lambda>r. r) rows = rows"
  by (simp add: update_job_def)

lemma setup_keeps_other_hashes:
  assumes "setup_hls_encryption d h asset base w rows = Inr (m, rows')"
  shows "filter (\<lambda>r. kr_source_hash r \<noteq> h) rows' = filter (\<lambda>r. kr_source_hash r \<noteq> h) rows"
proof -
  obtain wrapped nonce version row where
    up: "upsert_stream_key
       \<lparr>kr_id = d_uuid d, kr_source_hash = h, kr_asset_type = asset, kr_packaging_type = ''hls'',
        kr_wrapped_key = wrapped, kr_wrap_nonce = nonce, kr_kek_version = version,
        kr_kid = hex_encode (m_key_id m), kr_scheme = ''cbcs''\<rparr> rows = Inr (row, rows')"
    using assms by (rule setup_row)
  have "filter (\<lambda>r. kr_source_hash r \<noteq> h) (map (\<lambda>r. if same_asset a r then a\<lparr>kr_id := kr_id r\<rparr> else r) rows) =
      filter (\<lambda>r. kr_source_hash r \<noteq> h) rows" if "kr_source_hash a = h" for a
    using that by (induction rows) (auto simp: same_asset_def)
  with up show ?thesis
    by (auto simp: upsert_stream_key_def Let_def split: option.splits if_splits)
qed

interpretation fr: worker_inv "worker_frame st0 i h" W i h ty for st0 W i h ty
proof unfold_locales
  fix st f assume fr: "worker_frame st0 i h st" and "worker_update ty f"
  then have f: "status_update f" by (simp add: worker_update_columns)
  from fr obtain g where g: "status_update g" "wk_rows st = update_job i g (wk_rows st0)"
    by (auto simp: worker_frame_def)
  have "update_job i f (wk_rows st) = update_job i (f \<circ> g) (wk_rows st0)"
    using g by (simp add: update_job_comp status_update_def)
  moreover have "status_update (f \<circ> g)" using f g by (simp add: status_update_def)
  ultimately show "worker_frame st0 i h (st\<lparr>wk_rows := update_job i f (wk_rows st)\<rparr>)"
    using fr by (auto simp: worker_frame_def)
next
  fix st d asset m rows
  assume "worker_frame st0 i h st"
    and "setup_hls_encryption d h asset (we_base_url W) (we_wrapper W) (wk_keys st) = Inr (m, rows)"
  then show "worker_frame st0 i h (st\<lparr>wk_keys := rows\<rparr>)"
    using setup_keeps_other_hashes by (auto simp: worker_frame_def)
qed (auto simp: worker_frame_def)

lemma worker_frame_refl: "worker_frame st i h st"
  unfolding worker_frame_def
  by (intro conjI exI [of _ "\<lambda>r. r"] exI [of _ "[]"]) (simp_all add: status_update_def)

lemma run_payload_frame: "worker_frame st i (payload_hash p) (snd (run_payload W T i p st))"
  by (rule fr.run_payload_keeps [OF worker_frame_refl refl refl])


section \<open>A concrete environment\<close>

definition demo_worker :: worker_env where
  "demo_worker =
     \<lparr>we_download = (\<lambda>k. if k = ''gone'' then Inl ''no such key'' else Inr ''/tmp/v''), we_fetch = (\<lambda>k. Inr ''img''),
      we_put = (\<lambda>k. Inr ()), we_temp_root = Inr ''/tmp'', we_mkdir = Inr ''/tmp/o'',
      we_walk = (\<lambda>d. [WalkFile ''hls/master.m3u8'' (Inr ''m'')]), we_open = (\<lambda>p. Inr ''data''), we_stat = (\<lambda>p. Inr 4),
      we_run = (\<lambda>args. Inr ''frame''), we_tools = demo_tools,
      we_probe = Inr \<lparr>fo_streams = [\<lparr>ff_index = 0, ff_codec_name = ''aac'', ff_codec_type = ''audio'', ff_sample_rate = ''48000'',
          ff_channels = 2, ff_layout = ''stereo'', ff_bit_rate = [], ff_bits = 0, ff_tags = []\<rparr>],
        fo_format_name = ''mov,mp4'', fo_duration = [], fo_bit_rate = [], fo_tags = []\<rparr>,
      we_max_slice = 1000000, we_peaks_json = (\<lambda>p. ''{}''), we_draws = demo_draws,
      we_wrapper = \<lparr>kw_aead = plain_aead, kw_version = ''v1''\<rparr>, we_base_url = ''http://vylux'', we_db_ok = (\<lambda>x. True), we_webhook = True,
      we_enc_text = (\<lambda>x. []), we_video_text = (\<lambda>x. []), we_probe_text = (\<lambda>x. [])\<rparr>"

definition demo_row :: "string \<Rightarrow> string \<Rightarrow> job_row" where
  "demo_row i t =
     \<lparr>j_id = i, j_type = t, j_hash = ''h'', j_source = ''gone'', j_options = [], j_fingerprint = ''fp'', j_status = ''queued'',
      j_progress = 0, j_callback_url = [], j_callback_status = ''pending'', j_retry_of = None, j_error = None,
      j_results = None\<rparr>"

definition demo_worker_state :: "string \<Rightarrow> worker_state" where
  "demo_worker_state t = \<lparr>wk_rows = [demo_row ''j1'' t], wk_media = (\<lambda>k. None), wk_keys = [], wk_calls = []\<rparr>"

lemma demo_worker_simps [simp]:
  "we_db_ok demo_worker op" "get_job ''j1'' (wk_rows (demo_worker_state t)) = Some (demo_row ''j1'' t)"
  by (simp_all add: demo_worker_def demo_worker_state_def get_job_def demo_row_def)

end
