(* ===== verification/Cleanup.thy ===== *)
theory Cleanup
  imports Workers
begin

text \<open>
  Deleting everything a content hash left behind: \<open>internal/cleanup/cleaner.go\<close>, the endpoint
  \<open>internal/handler/cleanup.go\<close>, and the image cache index of \<open>internal/db/dbq/keys.sql.go\<close>. The cleaner
  reads no object, so the media bucket is the list of its keys. The asynq inspector is a parameter:
  what it answers in each attempt. Log output is left out.
\<close>

section \<open>State and parameters\<close>

record clean_state =
  cl_objects :: "string list"
  cl_index :: "cache_row list"
  cl_keys :: "key_row list"
  cl_jobs :: jobs
  cl_lru :: "lru option"
  cl_dropped :: "(string \<times> string) list"

text \<open>
  \<open>in_info\<close> per attempt, queue and id: an error, or whether the task is active. \<open>cl_dropped\<close> logs the
  queue and id of every task deleted.
\<close>

record inspector =
  in_queues :: "string list option"
  in_info :: "nat \<Rightarrow> string \<Rightarrow> string \<Rightarrow> bool option"
  in_delete :: "nat \<Rightarrow> string \<Rightarrow> string \<Rightarrow> bool"

text \<open>The error of every external call, if it fails.\<close>

record clean_faults =
  cf_list_jobs :: "string option"
  cf_list_entries :: "string option"
  cf_delete_index :: "string option"
  cf_delete_keys :: "string option"
  cf_delete_jobs :: "string option"
  cf_list :: "string \<Rightarrow> string option"
  cf_delete :: "string \<Rightarrow> string option"

datatype clean_stage = CleanPending | CleanDone | CleanFailed string

record cleanup_result =
  cu_tasks :: clean_stage
  cu_media :: clean_stage
  cu_tracked :: clean_stage
  cu_key :: clean_stage
  cu_index :: clean_stage
  cu_jobs :: clean_stage

definition new_cleanup_result :: cleanup_result where
  "new_cleanup_result =
     \<lparr>cu_tasks = CleanPending, cu_media = CleanPending, cu_tracked = CleanPending, cu_key = CleanPending,
      cu_index = CleanPending, cu_jobs = CleanPending\<rparr>"

definition confirmed_gone :: "cleanup_result \<Rightarrow> bool" where
  "confirmed_gone r \<longleftrightarrow> cu_tasks r = CleanDone \<and> cu_media r = CleanDone \<and> cu_tracked r = CleanDone"

fun clean_failed :: "clean_stage \<Rightarrow> bool" where
  "clean_failed (CleanFailed m) = True"
| "clean_failed _ = False"

definition has_warnings :: "cleanup_result \<Rightarrow> bool" where
  "has_warnings r \<longleftrightarrow> clean_failed (cu_key r) \<or> clean_failed (cu_index r) \<or> clean_failed (cu_jobs r)"

definition critical_stages :: "cleanup_result \<Rightarrow> (string \<times> clean_stage) list" where
  "critical_stages r =
     [(''task_cancellation'', cu_tasks r), (''media_objects'', cu_media r), (''tracked_cache_objects'', cu_tracked r)]"

fun stage_failure :: "string \<times> clean_stage \<Rightarrow> string list" where
  "stage_failure (name, CleanFailed e) = [if e \<noteq> [] then name @ '': '' @ e else name]"
| "stage_failure (name, _) = []"

definition cleanup_err :: "cleanup_result \<Rightarrow> string option" where
  "cleanup_err r =
     (if confirmed_gone r then None
      else let failed = concat (map stage_failure (critical_stages r)) in
        Some (if failed = [] then ''cleanup incomplete'' else ''cleanup incomplete: '' @ join_with ''; '' failed))"

definition all_stages :: "cleanup_result \<Rightarrow> (string \<times> clean_stage) list" where
  "all_stages r =
     [(''task_cancellation'', cu_tasks r), (''media_objects'', cu_media r), (''tracked_cache_objects'', cu_tracked r),
      (''encryption_key'', cu_key r), (''image_cache_index'', cu_index r), (''job_rows'', cu_jobs r)]"

definition completed_stages :: "cleanup_result \<Rightarrow> string list" where
  "completed_stages r = map fst (filter (\<lambda>(n, s). s = CleanDone) (all_stages r))"

definition failed_stages :: "cleanup_result \<Rightarrow> string list" where
  "failed_stages r = map fst (filter (\<lambda>(n, s). clean_failed s) (all_stages r))"

section \<open>Tasks\<close>

definition known_queues :: "string list" where
  "known_queues = [queue_critical, queue_default, queue_video_large]"

fun add_queues :: "string list \<Rightarrow> string list \<Rightarrow> string list" where
  "add_queues qs [] = qs"
| "add_queues qs (n # ns) = add_queues (if n = [] \<or> n \<in> set qs then qs else qs @ [n]) ns"

definition queue_names :: "inspector option \<Rightarrow> string list" where
  "queue_names insp =
     (case insp of
        None \<Rightarrow> known_queues
      | Some p \<Rightarrow> (case in_queues p of None \<Rightarrow> known_queues | Some actual \<Rightarrow> add_queues known_queues actual))"

text \<open>One attempt over all queues: whether the task was found, whether it was deleted, and where.\<close>

fun probe_queues :: "inspector \<Rightarrow> nat \<Rightarrow> string \<Rightarrow> string list \<Rightarrow> bool \<times> bool \<times> (string \<times> string) list" where
  "probe_queues p attempt i [] = (False, False, [])"
| "probe_queues p attempt i (q # qs) =
     (case probe_queues p attempt i qs of (found, deleted, gone) \<Rightarrow>
        (case in_info p attempt q i of
           None \<Rightarrow> (found, deleted, gone)
         | Some active \<Rightarrow>
             if active then (True, deleted, gone)
             else if in_delete p attempt q i then (True, True, (q, i) # gone)
             else (True, deleted, gone)))"

definition cancel_attempts :: nat where "cancel_attempts = 5"

function cancel_from :: "inspector \<Rightarrow> string \<Rightarrow> string list \<Rightarrow> nat \<Rightarrow> bool \<times> (string \<times> string) list" where
  "cancel_from p i qs attempt =
     (if attempt \<ge> cancel_attempts then (False, [])
      else case probe_queues p attempt i qs of (found, deleted, gone) \<Rightarrow>
        if \<not> found \<or> deleted then (True, gone)
        else (case cancel_from p i qs (attempt + 1) of (ok, gone2) \<Rightarrow> (ok, gone @ gone2)))"
  by pat_completeness auto
termination
  by (relation "measure (\<lambda>(p, i, qs, attempt). cancel_attempts - attempt)") auto

declare cancel_from.simps [simp del]

text \<open>\<open>True\<close> when the task is gone; otherwise the error is \<open>task ... still present\<close>.\<close>

definition cancel_task :: "inspector option \<Rightarrow> string \<Rightarrow> string list \<Rightarrow> bool \<times> (string \<times> string) list" where
  "cancel_task insp i qs = (case insp of None \<Rightarrow> (True, []) | Some p \<Rightarrow> cancel_from p i qs 0)"

fun cancel_jobs :: "inspector option \<Rightarrow> string list \<Rightarrow> jobs \<Rightarrow> clean_stage \<times> (string \<times> string) list" where
  "cancel_jobs insp qs [] = (CleanDone, [])"
| "cancel_jobs insp qs (j # js) =
     (if j_status j \<in> {''completed'', ''canceled''} then cancel_jobs insp qs js
      else case cancel_task insp (j_id j) qs of
        (False, gone) \<Rightarrow> (CleanFailed (''task '' @ j_id j @ '' still present after cancellation attempts''), gone)
      | (True, gone) \<Rightarrow> (case cancel_jobs insp qs js of (s, gone2) \<Rightarrow> (s, gone @ gone2)))"

definition cancel_tasks :: "clean_faults \<Rightarrow> inspector option \<Rightarrow> string \<Rightarrow> clean_state \<Rightarrow> clean_stage \<times> clean_state" where
  "cancel_tasks F insp h st =
     (case cf_list_jobs F of
        Some m \<Rightarrow> (CleanFailed m, st)
      | None \<Rightarrow>
          (case cancel_jobs insp (queue_names insp) (list_jobs_by_hash h (cl_jobs st)) of
             (s, gone) \<Rightarrow> (s, st\<lparr>cl_dropped := cl_dropped st @ gone\<rparr>)))"

section \<open>Objects\<close>

definition s3_prefix_for_hash :: "string \<Rightarrow> string \<Rightarrow> string" where
  "s3_prefix_for_hash h kind =
     (let prefix = (if length h \<ge> 2 then take 2 h else h) in kind @ ''/'' @ prefix @ ''/'' @ h @ ''/'')"

text \<open>\<open>Delete\<close> of the media store is idempotent.\<close>

fun delete_objects :: "clean_faults \<Rightarrow> string list \<Rightarrow> string list \<Rightarrow> (string, unit) result \<times> string list" where
  "delete_objects F [] os = (Inr (), os)"
| "delete_objects F (k # ks) os =
     (case cf_delete F k of Some m \<Rightarrow> (Inl m, os) | None \<Rightarrow> delete_objects F ks (removeAll k os))"

definition delete_prefix :: "clean_faults \<Rightarrow> string \<Rightarrow> string list \<Rightarrow> (string, unit) result \<times> string list" where
  "delete_prefix F prefix os =
     (case cf_list F prefix of
        Some m \<Rightarrow> (Inl m, os)
      | None \<Rightarrow> delete_objects F (filter (\<lambda>k. has_prefix k prefix) os) os)"

fun delete_prefixes :: "clean_faults \<Rightarrow> string list \<Rightarrow> string list \<Rightarrow> clean_stage \<times> string list" where
  "delete_prefixes F [] os = (CleanDone, os)"
| "delete_prefixes F (p # ps) os =
     (case delete_prefix F p os of (Inl m, os1) \<Rightarrow> (CleanFailed m, os1) | (Inr u, os1) \<Rightarrow> delete_prefixes F ps os1)"

definition delete_media_objects :: "clean_faults \<Rightarrow> string \<Rightarrow> clean_state \<Rightarrow> clean_stage \<times> clean_state" where
  "delete_media_objects F h st =
     (case delete_prefixes F [s3_prefix_for_hash h ''images'', s3_prefix_for_hash h ''videos'', s3_prefix_for_hash h ''audio'']
             (cl_objects st) of (s, os) \<Rightarrow> (s, st\<lparr>cl_objects := os\<rparr>))"

section \<open>Tracked image caches\<close>

definition list_cache_entries :: "string \<Rightarrow> cache_row list \<Rightarrow> cache_row list" where
  "list_cache_entries h rows = filter (\<lambda>r. cr_hash r = h) rows"

definition delete_cache_entries :: "string \<Rightarrow> cache_row list \<Rightarrow> cache_row list" where
  "delete_cache_entries h rows = filter (\<lambda>r. cr_hash r \<noteq> h) rows"

fun drop_entries ::
    "clean_faults \<Rightarrow> cache_row list \<Rightarrow> lru option \<Rightarrow> string list \<Rightarrow> (string, unit) result \<times> lru option \<times> string list" where
  "drop_entries F [] c os = (Inr (), c, os)"
| "drop_entries F (r # rs) c os =
     (let c1 = map_option (\<lambda>l. fst (lru_delete (cr_cache_key r) l)) c in
      if cr_storage_key r = [] then drop_entries F rs c1 os
      else case cf_delete F (cr_storage_key r) of
        Some m \<Rightarrow> (Inl m, c1, os)
      | None \<Rightarrow> drop_entries F rs c1 (removeAll (cr_storage_key r) os))"

text \<open>The stages of the tracked objects and of the index.\<close>

definition delete_tracked_image_caches ::
    "clean_faults \<Rightarrow> string \<Rightarrow> clean_state \<Rightarrow> (clean_stage \<times> clean_stage) \<times> clean_state" where
  "delete_tracked_image_caches F h st =
     (case cf_list_entries F of
        Some m \<Rightarrow> ((CleanFailed m, CleanFailed m), st)
      | None \<Rightarrow>
          (case drop_entries F (list_cache_entries h (cl_index st)) (cl_lru st) (cl_objects st) of
             (Inl m, c, os) \<Rightarrow> ((CleanFailed m, CleanPending), st\<lparr>cl_lru := c, cl_objects := os\<rparr>)
           | (Inr u, c, os) \<Rightarrow>
               (let st1 = st\<lparr>cl_lru := c, cl_objects := os\<rparr> in
                case cf_delete_index F of
                  Some m \<Rightarrow> ((CleanDone, CleanFailed m), st1)
                | None \<Rightarrow> ((CleanDone, CleanDone), st1\<lparr>cl_index := delete_cache_entries h (cl_index st1)\<rparr>))))"

section \<open>Rows\<close>

definition delete_encryption_key :: "clean_faults \<Rightarrow> string \<Rightarrow> clean_state \<Rightarrow> clean_stage \<times> clean_state" where
  "delete_encryption_key F h st =
     (case cf_delete_keys F of
        Some m \<Rightarrow> (CleanFailed m, st)
      | None \<Rightarrow> (CleanDone, st\<lparr>cl_keys := delete_stream_keys h (cl_keys st)\<rparr>))"

definition delete_jobs :: "clean_faults \<Rightarrow> string \<Rightarrow> clean_state \<Rightarrow> clean_stage \<times> clean_state" where
  "delete_jobs F h st =
     (case cf_delete_jobs F of
        Some m \<Rightarrow> (CleanFailed m, st)
      | None \<Rightarrow> (CleanDone, st\<lparr>cl_jobs := delete_jobs_by_hash h (cl_jobs st)\<rparr>))"

section \<open>The cleanup and its endpoint\<close>

definition cleanup :: "clean_faults \<Rightarrow> inspector option \<Rightarrow> string \<Rightarrow> clean_state \<Rightarrow> cleanup_result \<times> clean_state" where
  "cleanup F insp h st0 =
     (let (t, st1) = cancel_tasks F insp h st0;
          (m, st2) = delete_media_objects F h st1;
          ((c, x), st3) = delete_tracked_image_caches F h st2;
          r = new_cleanup_result\<lparr>cu_tasks := t, cu_media := m, cu_tracked := c, cu_index := x\<rparr> in
      if \<not> confirmed_gone r then (r, st3)
      else let (k, st4) = delete_encryption_key F h st3; (j, st5) = delete_jobs F h st4 in
        (r\<lparr>cu_key := k, cu_jobs := j\<rparr>, st5))"

datatype clean_response = CleanBad string | CleanIncomplete "string list" "string list" | CleanNoContent

text \<open>Status 400, 503 and 204.\<close>

definition cleanup_handle ::
    "clean_faults \<Rightarrow> inspector option \<Rightarrow> string \<Rightarrow> clean_state \<Rightarrow> clean_response \<times> clean_state" where
  "cleanup_handle F insp h st =
     (if h = [] then (CleanBad ''missing hash'', st)
      else case cleanup F insp h st of
        (r, st') \<Rightarrow>
          (if \<not> confirmed_gone r then CleanIncomplete (completed_stages r) (failed_stages r) else CleanNoContent, st'))"

section \<open>What each stage deletes\<close>

lemma delete_objects_sub: "k \<in> set (snd (delete_objects F ks os)) \<Longrightarrow> k \<in> set os"
proof (induction ks arbitrary: os)
  case (Cons a ks)
  then show ?case using Cons.IH [of "removeAll a os"] by (auto split: option.splits)
qed simp

lemma delete_objects_keep: "k \<in> set os \<Longrightarrow> k \<notin> set ks \<Longrightarrow> k \<in> set (snd (delete_objects F ks os))"
proof (induction ks arbitrary: os)
  case (Cons a ks)
  then show ?case using Cons.IH [of "removeAll a os"] by (auto split: option.splits)
qed simp

lemma delete_objects_gone:
  "fst (delete_objects F ks os) = Inr () \<Longrightarrow> k \<in> set ks \<Longrightarrow> k \<notin> set (snd (delete_objects F ks os))"
proof (induction ks arbitrary: os)
  case (Cons a ks)
  then show ?case
    using Cons.IH [of "removeAll a os"] delete_objects_sub [of a F ks "removeAll a os"] by (auto split: option.splits)
qed simp

lemma delete_prefix_set:
  "k \<in> set (snd (delete_prefix F p os)) \<Longrightarrow> k \<in> set os"
  "k \<in> set os \<Longrightarrow> \<not> has_prefix k p \<Longrightarrow> k \<in> set (snd (delete_prefix F p os))"
  "fst (delete_prefix F p os) = Inr () \<Longrightarrow> has_prefix k p \<Longrightarrow> k \<notin> set (snd (delete_prefix F p os))"
  using delete_objects_gone [of F "filter (\<lambda>k. has_prefix k p) os" os k]
    delete_objects_sub [of k F "filter (\<lambda>k. has_prefix k p) os" os]
  by (auto simp: delete_prefix_def intro: delete_objects_keep split: option.splits)

lemma delete_prefixes_sub: "k \<in> set (snd (delete_prefixes F ps os)) \<Longrightarrow> k \<in> set os"
proof (induction ps arbitrary: os)
  case (Cons p ps)
  then show ?case
    using Cons.IH [of "snd (delete_prefix F p os)"] delete_prefix_set(1) [of k F p os]
    by (auto simp: split_beta split: sum.splits)
qed simp

lemma delete_prefixes_keep:
  "k \<in> set os \<Longrightarrow> \<not> list_ex (has_prefix k) ps \<Longrightarrow> k \<in> set (snd (delete_prefixes F ps os))"
proof (induction ps arbitrary: os)
  case (Cons p ps)
  then show ?case
    using Cons.IH [of "snd (delete_prefix F p os)"] delete_prefix_set(2) [of k os p F]
    by (auto simp: split_beta split: sum.splits)
qed simp

lemma delete_prefixes_gone:
  "fst (delete_prefixes F ps os) = CleanDone \<Longrightarrow> p \<in> set ps \<Longrightarrow> has_prefix k p \<Longrightarrow>
    k \<notin> set (snd (delete_prefixes F ps os))"
proof (induction ps arbitrary: os)
  case (Cons q ps)
  then show ?case
    using Cons.IH [of "snd (delete_prefix F q os)"] delete_prefix_set(3) [of F q os k]
      delete_prefixes_sub [of k F ps "snd (delete_prefix F q os)"]
    by (cases "fst (delete_prefix F q os)") (auto simp: split_beta)
qed simp

lemma drop_entries_sub: "k \<in> set (snd (snd (drop_entries F rs c os))) \<Longrightarrow> k \<in> set os"
proof (induction rs arbitrary: c os)
  case (Cons x xs)
  let ?c = "map_option (\<lambda>l. fst (lru_delete (cr_cache_key x) l)) c"
  show ?case
    using Cons.prems Cons.IH [of ?c os] Cons.IH [of ?c "removeAll (cr_storage_key x) os"]
    by (auto simp: Let_def split: option.splits if_splits)
qed simp

lemma drop_entries_keep:
  "k \<in> set os \<Longrightarrow> k \<notin> cr_storage_key ` set rs \<Longrightarrow> k \<in> set (snd (snd (drop_entries F rs c os)))"
proof (induction rs arbitrary: c os)
  case (Cons x xs)
  let ?c = "map_option (\<lambda>l. fst (lru_delete (cr_cache_key x) l)) c"
  show ?case
    using Cons.prems Cons.IH [of os ?c] Cons.IH [of "removeAll (cr_storage_key x) os" ?c]
    by (auto simp: Let_def split: option.splits if_splits)
qed simp

lemma drop_entries_gone:
  "fst (drop_entries F rs c os) = Inr () \<Longrightarrow> r \<in> set rs \<Longrightarrow> cr_storage_key r \<noteq> [] \<Longrightarrow>
    cr_storage_key r \<notin> set (snd (snd (drop_entries F rs c os)))"
proof (induction rs arbitrary: c os)
  case (Cons x xs)
  let ?c = "map_option (\<lambda>l. fst (lru_delete (cr_cache_key x) l)) c"
  show ?case
    using Cons.prems Cons.IH [of ?c os] Cons.IH [of ?c "removeAll (cr_storage_key x) os"]
      drop_entries_sub [of "cr_storage_key x" F xs ?c "removeAll (cr_storage_key x) os"]
    by (auto simp: Let_def split: option.splits if_splits)
qed simp

text \<open>Deleting never brings a key back into the memory cache.\<close>

lemma drop_entries_no_lru: "fst (snd (drop_entries F rs None os)) = None"
  by (induction rs arbitrary: os) (auto simp: Let_def split: option.split)

lemma drop_entries_lru:
  assumes "lru_inv l"
  obtains l' where "fst (snd (drop_entries F rs (Some l) os)) = Some l'" "lru_inv l'"
    "\<And>k. snd (lru_get k l') = None \<or> snd (lru_get k l') = snd (lru_get k l)"
    "\<And>r. fst (drop_entries F rs (Some l) os) = Inr () \<Longrightarrow> r \<in> set rs \<Longrightarrow> snd (lru_get (cr_cache_key r) l') = None"
  using assms
proof (induction rs arbitrary: l os thesis)
  case Nil
  then show ?case by simp
next
  case (Cons x xs)
  let ?l1 = "fst (lru_delete (cr_cache_key x) l)"
  have i: "lru_inv ?l1" using Cons.prems(2) by (rule lru.inv_kept(3))
  have g: "snd (lru_get k ?l1) = (if k = cr_cache_key x then None else snd (lru_get k l))" for k
    by (rule lru.del_get [OF Cons.prems(2)])
  show ?case
  proof (cases "cr_storage_key x \<noteq> [] \<and> cf_delete F (cr_storage_key x) \<noteq> None")
    case True
    then show ?thesis using i g by (intro Cons.prems(1) [of ?l1]) (auto simp: Let_def)
  next
    case False
    let ?os = "if cr_storage_key x = [] then os else removeAll (cr_storage_key x) os"
    have d: "drop_entries F (x # xs) (Some l) os = drop_entries F xs (Some ?l1) ?os"
      using False by (auto simp: Let_def split: option.splits)
    obtain l' where l': "fst (snd (drop_entries F xs (Some ?l1) ?os)) = Some l'" "lru_inv l'"
      "\<And>k. snd (lru_get k l') = None \<or> snd (lru_get k l') = snd (lru_get k ?l1)"
      "\<And>r. fst (drop_entries F xs (Some ?l1) ?os) = Inr () \<Longrightarrow> r \<in> set xs \<Longrightarrow> snd (lru_get (cr_cache_key r) l') = None"
      by (rule Cons.IH [OF _ i]) blast
    show ?thesis
    proof (rule Cons.prems(1) [of l'])
      show "fst (snd (drop_entries F (x # xs) (Some l) os)) = Some l'" "lru_inv l'" using l' d by simp_all
      show "snd (lru_get k l') = None \<or> snd (lru_get k l') = snd (lru_get k l)" for k using l'(3) [of k] g by (auto split: if_splits)
      show "snd (lru_get (cr_cache_key r) l') = None"
        if "fst (drop_entries F (x # xs) (Some l) os) = Inr ()" "r \<in> set (x # xs)" for r
        using that l'(3) [of "cr_cache_key x"] l'(4) [of r] g d by auto
    qed
  qed
qed

section \<open>What a cleanup guarantees\<close>

lemma cleaner_prefixes:
  "map (s3_prefix_for_hash h) [''images'', ''videos'', ''audio''] = hash_dirs h"
  by (simp add: s3_prefix_for_hash_def hash_dirs_def hash_shard_def)

lemma delete_media_objects_ok:
  "k \<in> set (cl_objects (snd (delete_media_objects F h st))) \<Longrightarrow> k \<in> set (cl_objects st)"
  "k \<in> set (cl_objects st) \<Longrightarrow> \<not> under_hash h k \<Longrightarrow> k \<in> set (cl_objects (snd (delete_media_objects F h st)))"
  "fst (delete_media_objects F h st) = CleanDone \<Longrightarrow> k \<in> set (cl_objects (snd (delete_media_objects F h st))) \<Longrightarrow>
    \<not> under_hash h k"
proof -
  have p: "[s3_prefix_for_hash h ''images'', s3_prefix_for_hash h ''videos'', s3_prefix_for_hash h ''audio''] = hash_dirs h"
    using cleaner_prefixes by simp
  have e: "fst (delete_media_objects F h st) = fst (delete_prefixes F (hash_dirs h) (cl_objects st))"
    "cl_objects (snd (delete_media_objects F h st)) = snd (delete_prefixes F (hash_dirs h) (cl_objects st))"
    by (simp_all add: delete_media_objects_def p split_beta)
  show "k \<in> set (cl_objects (snd (delete_media_objects F h st))) \<Longrightarrow> k \<in> set (cl_objects st)"
    using delete_prefixes_sub e by metis
  show "k \<in> set (cl_objects st) \<Longrightarrow> \<not> under_hash h k \<Longrightarrow> k \<in> set (cl_objects (snd (delete_media_objects F h st)))"
    using delete_prefixes_keep [of k "cl_objects st" "hash_dirs h" F] by (simp add: e under_hash_def list_ex_iff)
  show "fst (delete_media_objects F h st) = CleanDone \<Longrightarrow> k \<in> set (cl_objects (snd (delete_media_objects F h st))) \<Longrightarrow>
    \<not> under_hash h k"
    using delete_prefixes_gone [of F "hash_dirs h" "cl_objects st" _ k] by (auto simp: e under_hash_def)
qed

lemma cancel_tasks_frame [simp]:
  "cl_objects (snd (cancel_tasks F insp h st)) = cl_objects st" "cl_index (snd (cancel_tasks F insp h st)) = cl_index st"
  "cl_keys (snd (cancel_tasks F insp h st)) = cl_keys st" "cl_jobs (snd (cancel_tasks F insp h st)) = cl_jobs st"
  "cl_lru (snd (cancel_tasks F insp h st)) = cl_lru st"
  by (simp_all add: cancel_tasks_def split_beta split: option.split)

lemma delete_media_frame [simp]:
  "cl_index (snd (delete_media_objects F h st)) = cl_index st" "cl_keys (snd (delete_media_objects F h st)) = cl_keys st"
  "cl_jobs (snd (delete_media_objects F h st)) = cl_jobs st" "cl_lru (snd (delete_media_objects F h st)) = cl_lru st"
  by (simp_all add: delete_media_objects_def split_beta)

lemma delete_tracked_frame [simp]:
  "cl_keys (snd (delete_tracked_image_caches F h st)) = cl_keys st"
  "cl_jobs (snd (delete_tracked_image_caches F h st)) = cl_jobs st"
  by (auto simp: delete_tracked_image_caches_def Let_def split: option.splits sum.splits prod.splits)

lemma delete_rows_frame [simp]:
  "cl_objects (snd (delete_jobs F h st)) = cl_objects st" "cl_objects (snd (delete_encryption_key F h st)) = cl_objects st"
  "cl_lru (snd (delete_jobs F h st)) = cl_lru st" "cl_lru (snd (delete_encryption_key F h st)) = cl_lru st"
  "cl_index (snd (delete_jobs F h st)) = cl_index st" "cl_index (snd (delete_encryption_key F h st)) = cl_index st"
  "cl_keys (snd (delete_jobs F h st)) = cl_keys st" "cl_jobs (snd (delete_encryption_key F h st)) = cl_jobs st"
  by (simp_all add: delete_jobs_def delete_encryption_key_def split: option.split)

definition lru_misses :: "lru option \<Rightarrow> string \<Rightarrow> bool" where
  "lru_misses c k = (case c of None \<Rightarrow> True | Some l \<Rightarrow> snd (lru_get k l) = None)"

definition lru_opt_inv :: "lru option \<Rightarrow> bool" where
  "lru_opt_inv c = (case c of None \<Rightarrow> True | Some l \<Rightarrow> lru_inv l)"

lemma delete_tracked_ok:
  assumes "fst (fst (delete_tracked_image_caches F h st)) = CleanDone" and "lru_opt_inv (cl_lru st)"
    and "r \<in> set (cl_index st)" "cr_hash r = h"
  shows "cr_storage_key r = [] \<or> cr_storage_key r \<notin> set (cl_objects (snd (delete_tracked_image_caches F h st)))"
    and "lru_misses (cl_lru (snd (delete_tracked_image_caches F h st))) (cr_cache_key r)"
proof -
  let ?rs = "list_cache_entries h (cl_index st)"
  let ?d = "drop_entries F ?rs (cl_lru st) (cl_objects st)"
  have r: "r \<in> set ?rs" using assms(3,4) by (simp add: list_cache_entries_def)
  have ok: "fst ?d = Inr ()" and o: "cl_objects (snd (delete_tracked_image_caches F h st)) = snd (snd ?d)"
    and l: "cl_lru (snd (delete_tracked_image_caches F h st)) = fst (snd ?d)"
    using assms(1) by (auto simp: delete_tracked_image_caches_def Let_def split: option.splits sum.splits prod.splits)
  show "cr_storage_key r = [] \<or> cr_storage_key r \<notin> set (cl_objects (snd (delete_tracked_image_caches F h st)))"
    using drop_entries_gone [OF ok r] o by auto
  show "lru_misses (cl_lru (snd (delete_tracked_image_caches F h st))) (cr_cache_key r)"
  proof (cases "cl_lru st")
    case None
    then show ?thesis using drop_entries_no_lru [of F ?rs "cl_objects st"] l by (simp add: lru_misses_def)
  next
    case (Some c)
    with assms(2) have "lru_inv c" by (simp add: lru_opt_inv_def)
    then obtain c' where "fst (snd (drop_entries F ?rs (Some c) (cl_objects st))) = Some c'"
      "snd (lru_get (cr_cache_key r) c') = None"
      by (rule drop_entries_lru [of c F ?rs "cl_objects st"]) (use ok r Some in auto)
    with l Some show ?thesis by (simp add: lru_misses_def)
  qed
qed

lemma delete_tracked_objects:
  "k \<in> set (cl_objects (snd (delete_tracked_image_caches F h st))) \<Longrightarrow> k \<in> set (cl_objects st)"
  "k \<in> set (cl_objects st) \<Longrightarrow> k \<notin> cr_storage_key ` set (list_cache_entries h (cl_index st)) \<Longrightarrow>
    k \<in> set (cl_objects (snd (delete_tracked_image_caches F h st)))"
proof -
  let ?d = "drop_entries F (list_cache_entries h (cl_index st)) (cl_lru st) (cl_objects st)"
  have o: "cl_objects (snd (delete_tracked_image_caches F h st)) = (if cf_list_entries F = None then snd (snd ?d) else cl_objects st)"
    by (auto simp: delete_tracked_image_caches_def Let_def split: option.splits sum.splits prod.splits)
  show "k \<in> set (cl_objects (snd (delete_tracked_image_caches F h st))) \<Longrightarrow> k \<in> set (cl_objects st)"
    using drop_entries_sub [of k F] by (auto simp: o split: if_splits)
  show "k \<in> set (cl_objects st) \<Longrightarrow> k \<notin> cr_storage_key ` set (list_cache_entries h (cl_index st)) \<Longrightarrow>
    k \<in> set (cl_objects (snd (delete_tracked_image_caches F h st)))"
    using drop_entries_keep by (auto simp: o)
qed

text \<open>The three critical stages in order, and the whole in terms of them.\<close>

definition clean_critical :: "clean_faults \<Rightarrow> inspector option \<Rightarrow> string \<Rightarrow> clean_state \<Rightarrow> clean_state" where
  "clean_critical F insp h st =
     snd (delete_tracked_image_caches F h (snd (delete_media_objects F h (snd (cancel_tasks F insp h st)))))"

definition critical_done :: "clean_faults \<Rightarrow> inspector option \<Rightarrow> string \<Rightarrow> clean_state \<Rightarrow> bool" where
  "critical_done F insp h st \<longleftrightarrow>
     fst (cancel_tasks F insp h st) = CleanDone \<and>
     fst (delete_media_objects F h (snd (cancel_tasks F insp h st))) = CleanDone \<and>
     fst (fst (delete_tracked_image_caches F h (snd (delete_media_objects F h (snd (cancel_tasks F insp h st)))))) = CleanDone"

lemma cleanup_cases:
  "critical_done F insp h st \<Longrightarrow> confirmed_gone (fst (cleanup F insp h st)) \<and>
     snd (cleanup F insp h st) = snd (delete_jobs F h (snd (delete_encryption_key F h (clean_critical F insp h st))))"
  "\<not> critical_done F insp h st \<Longrightarrow> \<not> confirmed_gone (fst (cleanup F insp h st)) \<and>
     snd (cleanup F insp h st) = clean_critical F insp h st"
  by (auto simp: cleanup_def critical_done_def clean_critical_def confirmed_gone_def new_cleanup_result_def Let_def split_beta)

lemma cleanup_handle_cases:
  "cleanup_handle F insp h st = (CleanNoContent, st') \<Longrightarrow> critical_done F insp h st \<and>
     st' = snd (delete_jobs F h (snd (delete_encryption_key F h (clean_critical F insp h st))))"
  "cleanup_handle F insp h st = (CleanIncomplete c f, st') \<Longrightarrow> \<not> critical_done F insp h st \<and>
     st' = clean_critical F insp h st \<and> f = failed_stages (fst (cleanup F insp h st))"
  using cleanup_cases [of F insp h st]
  by (cases "critical_done F insp h st"; auto simp: cleanup_handle_def split_beta split: if_splits)+

lemma clean_critical_frame [simp]:
  "cl_keys (clean_critical F insp h st) = cl_keys st" "cl_jobs (clean_critical F insp h st) = cl_jobs st"
  by (simp_all add: clean_critical_def)

lemma critical_objects:
  assumes "critical_done F insp h st" and "k \<in> set (cl_objects (clean_critical F insp h st))"
  shows "\<not> under_hash h k"
proof -
  let ?st1 = "snd (cancel_tasks F insp h st)"
  have "fst (delete_media_objects F h ?st1) = CleanDone" using assms(1) by (simp add: critical_done_def)
  from delete_media_objects_ok(3) [OF this] show ?thesis
    using assms(2) delete_tracked_objects(1) by (auto simp: clean_critical_def)
qed

lemma critical_gone:
  assumes "critical_done F insp h st" and "lru_opt_inv (cl_lru st)"
  shows "r \<in> set (cl_index st) \<Longrightarrow> cr_hash r = h \<Longrightarrow>
      (cr_storage_key r = [] \<or> cr_storage_key r \<notin> set (cl_objects (clean_critical F insp h st))) \<and>
      lru_misses (cl_lru (clean_critical F insp h st)) (cr_cache_key r)"
proof -
  let ?st1 = "snd (cancel_tasks F insp h st)"
  let ?st2 = "snd (delete_media_objects F h ?st1)"
  have d: "fst (fst (delete_tracked_image_caches F h ?st2)) = CleanDone"
    using assms(1) by (simp add: critical_done_def)
  show "(cr_storage_key r = [] \<or> cr_storage_key r \<notin> set (cl_objects (clean_critical F insp h st))) \<and>
      lru_misses (cl_lru (clean_critical F insp h st)) (cr_cache_key r)"
    if "r \<in> set (cl_index st)" "cr_hash r = h"
    using delete_tracked_ok [OF d _ _ that(2)] assms(2) that(1) by (simp add: clean_critical_def)
qed

text \<open>
  C16. A 204 of the cleanup endpoint keeps its word: no object is left in the three directories of the
  hash, and nothing the index tracked for the hash is left in the media bucket or in the memory cache.
  Key rows and job rows of the hash are gone too, unless deleting them failed.
\<close>

theorem cleanup_confirms_gone:
  assumes "cleanup_handle F insp h st = (CleanNoContent, st')" and "lru_opt_inv (cl_lru st)"
  shows "(\<forall>k \<in> set (cl_objects st'). \<not> under_hash h k) \<and>
    (\<forall>r \<in> set (cl_index st). cr_hash r = h \<longrightarrow>
       (cr_storage_key r = [] \<or> cr_storage_key r \<notin> set (cl_objects st')) \<and> lru_misses (cl_lru st') (cr_cache_key r)) \<and>
    (cf_delete_keys F = None \<longrightarrow> h \<notin> kr_source_hash ` set (cl_keys st')) \<and>
    (cf_delete_jobs F = None \<longrightarrow> h \<notin> j_hash ` set (cl_jobs st'))"
proof -
  have c: "critical_done F insp h st"
    and st': "st' = snd (delete_jobs F h (snd (delete_encryption_key F h (clean_critical F insp h st))))"
    using cleanup_handle_cases(1) [OF assms(1)] by simp_all
  have "h \<notin> kr_source_hash ` set (cl_keys st')" if "cf_delete_keys F = None"
    using that by (auto simp: st' delete_encryption_key_def delete_stream_keys_def)
  moreover have "h \<notin> j_hash ` set (cl_jobs st')" if "cf_delete_jobs F = None"
    using that by (auto simp: st' delete_jobs_def delete_jobs_by_hash_def Let_def split: if_splits)
  ultimately show ?thesis using critical_gone [OF c assms(2)] critical_objects [OF c] by (auto simp: st')
qed

text \<open>
  C18. As long as the cleanup is not confirmed, nothing that still describes the media is deleted: key
  rows and job rows stay, and the answer names a failed stage.
\<close>

theorem incomplete_cleanup_keeps_rows:
  assumes "cleanup_handle F insp h st = (CleanIncomplete completed failed, st')"
  shows "cl_keys st' = cl_keys st \<and> cl_jobs st' = cl_jobs st \<and> failed \<noteq> []"
proof -
  have c: "\<not> critical_done F insp h st" "st' = clean_critical F insp h st"
    and f: "failed = failed_stages (fst (cleanup F insp h st))"
    using cleanup_handle_cases(2) [OF assms] by simp_all
  have "fst (cancel_jobs insp qs js) = CleanDone \<or> clean_failed (fst (cancel_jobs insp qs js))" for qs js
    by (induction js) (auto simp: split_beta split: bool.splits)
  then have a: "fst (cancel_tasks F insp h s) = CleanDone \<or> clean_failed (fst (cancel_tasks F insp h s))" for s
    by (auto simp: cancel_tasks_def split_beta split: option.splits)
  have "fst (delete_prefixes F ps os) = CleanDone \<or> clean_failed (fst (delete_prefixes F ps os))" for ps os
    by (induction ps arbitrary: os) (auto simp: split_beta split: sum.splits)
  then have b: "fst (delete_media_objects F h s) = CleanDone \<or> clean_failed (fst (delete_media_objects F h s))" for s
    by (simp add: delete_media_objects_def split_beta del: delete_prefixes.simps)
  have d: "fst (fst (delete_tracked_image_caches F h s)) = CleanDone \<or> clean_failed (fst (fst (delete_tracked_image_caches F h s)))" for s
    by (auto simp: delete_tracked_image_caches_def Let_def split: option.splits sum.splits prod.splits)
  let ?s1 = "snd (cancel_tasks F insp h st)"
  let ?s2 = "snd (delete_media_objects F h ?s1)"
  have "cu_tasks (fst (cleanup F insp h st)) = fst (cancel_tasks F insp h st)"
    "cu_media (fst (cleanup F insp h st)) = fst (delete_media_objects F h ?s1)"
    "cu_tracked (fst (cleanup F insp h st)) = fst (fst (delete_tracked_image_caches F h ?s2))"
    by (simp_all add: cleanup_def new_cleanup_result_def Let_def split_beta)
  with a [of st] b [of ?s1] d [of ?s2] c(1) have "failed \<noteq> []"
    by (auto simp: f failed_stages_def all_stages_def critical_done_def)
  with c(2) show ?thesis by simp
qed

section \<open>Other hashes\<close>

lemma under_hash_unique:
  assumes "under_hash g k" "under_hash h k" "CHR ''/'' \<notin> set g" "CHR ''/'' \<notin> set h"
  shows "g = h"
proof -
  have shape: "\<exists>kind rest. k = kind @ CHR ''/'' # hash_shard x @ CHR ''/'' # x @ CHR ''/'' # rest \<and> CHR ''/'' \<notin> set kind"
    if u: "under_hash x k" for x
  proof -
    obtain d t where "d \<in> set (hash_dirs x)" and k: "k = d @ t"
      using u unfolding under_hash_def has_prefix_iff by blast
    then obtain kind where "kind \<in> set [''images'', ''videos'', ''audio'']"
      "d = kind @ ''/'' @ hash_shard x @ ''/'' @ x @ ''/''"
      unfolding hash_dirs_def set_map by blast
    with k have "kind \<in> {''images'', ''videos'', ''audio''}" "k = (kind @ ''/'' @ hash_shard x @ ''/'' @ x @ ''/'') @ t"
      by simp_all
    then show ?thesis by (intro exI [of _ kind] exI [of _ t]) auto
  qed
  have no: "CHR ''/'' \<notin> set (hash_shard x)" if "CHR ''/'' \<notin> set x" for x
    using that by (auto simp: hash_shard_def dest: in_set_takeD)
  obtain a r b s where g: "k = a @ CHR ''/'' # hash_shard g @ CHR ''/'' # g @ CHR ''/'' # r" "CHR ''/'' \<notin> set a"
    and h: "k = b @ CHR ''/'' # hash_shard h @ CHR ''/'' # h @ CHR ''/'' # s" "CHR ''/'' \<notin> set b"
    using shape assms(1,2) by metis
  from g(1) h(1) have "a @ CHR ''/'' # hash_shard g @ CHR ''/'' # g @ CHR ''/'' # r =
      b @ CHR ''/'' # hash_shard h @ CHR ''/'' # h @ CHR ''/'' # s" by simp
  then have "hash_shard g @ CHR ''/'' # g @ CHR ''/'' # r = hash_shard h @ CHR ''/'' # h @ CHR ''/'' # s"
    using first_sep_inj [OF g(2) h(2)] by simp
  then have "g @ CHR ''/'' # r = h @ CHR ''/'' # s"
    using first_sep_inj [OF no no, OF assms(3,4)] by simp
  then show ?thesis using first_sep_inj [OF assms(3,4)] by simp
qed

text \<open>What the image endpoint tracks lies outside the directories of hashes.\<close>

definition index_ok :: "cache_row list \<Rightarrow> bool" where
  "index_ok rows = list_all (\<lambda>r. has_prefix (cr_storage_key r) ''cache/'') rows"

lemma cache_not_under_hash: "has_prefix k ''cache/'' \<Longrightarrow> \<not> under_hash h k"
  by (auto simp: under_hash_def hash_dirs_def has_prefix_iff)

lemma index_ok_tracked: "index_ok (is_rows st) \<Longrightarrow> index_ok (is_rows (track_cache_entry ok s ck (s3_cache_key f ck) st))"
  by (auto simp: index_ok_def track_cache_entry_def Let_def upsert_cache_entry_def list_all_iff s3_cache_key_def
      has_prefix_def)

lemma image_handle_index_ok: "index_ok (is_rows st) \<Longrightarrow> index_ok (is_rows (snd (image_handle E V n source F r st)))"
  by (auto simp: image_handle_def Let_def index_ok_tracked split: sum.split option.split prod.split)


section \<open>A cleanup without faults\<close>

definition no_clean_faults :: clean_faults where
  "no_clean_faults = \<lparr>cf_list_jobs = None, cf_list_entries = None, cf_delete_index = None, cf_delete_keys = None,
     cf_delete_jobs = None, cf_list = (\<lambda>p. None), cf_delete = (\<lambda>k. None)\<rparr>"

lemma no_clean_faults_simps [simp]:
  "cf_list_jobs no_clean_faults = None" "cf_list_entries no_clean_faults = None" "cf_delete_index no_clean_faults = None"
  "cf_delete_keys no_clean_faults = None" "cf_delete_jobs no_clean_faults = None" "cf_list no_clean_faults p = None"
  "cf_delete no_clean_faults k = None"
  by (simp_all add: no_clean_faults_def)

text \<open>A task that is not active, or soon is not, and can be deleted then, gets cancelled.\<close>

definition attempt_settles :: "inspector \<Rightarrow> string \<Rightarrow> string list \<Rightarrow> nat \<Rightarrow> bool" where
  "attempt_settles p i qs n = (case probe_queues p n i qs of (found, deleted, gone) \<Rightarrow> \<not> found \<or> deleted)"

lemma cancel_from_ok:
  assumes "attempt + n < cancel_attempts" and "attempt_settles p i qs (attempt + n)"
  shows "fst (cancel_from p i qs attempt)"
  using assms
proof (induction n arbitrary: attempt)
  case 0
  then show ?case by (subst cancel_from.simps) (auto simp: attempt_settles_def split: prod.splits)
next
  case (Suc n)
  from Suc.IH [of "Suc attempt"] Suc.prems show ?case by (subst cancel_from.simps) (auto split: prod.splits)
qed

text \<open>
  C17. A cleanup that meets no faults, while every task is found inactive and deletable in one of the
  five attempts or is not found, always finishes: the answer is 204 whatever an earlier attempt
  left behind, and all rows of the hash are gone.
\<close>

theorem cleanup_completes:
  assumes "h \<noteq> []"
    and "\<And>p i. insp = Some p \<Longrightarrow> \<exists>n < 5. attempt_settles p i (queue_names insp) n"
  shows "\<exists>st'. cleanup_handle no_clean_faults insp h st = (CleanNoContent, st') \<and>
    h \<notin> kr_source_hash ` set (cl_keys st') \<and> h \<notin> j_hash ` set (cl_jobs st') \<and> h \<notin> cr_hash ` set (cl_index st')"
proof -
  have t: "fst (cancel_task insp i (queue_names insp))" for i
  proof (cases insp)
    case (Some p)
    from assms(2) [OF this, of i] obtain n where
      "n < 5" "attempt_settles p i (queue_names insp) n" by blast
    then have "fst (cancel_from p i (queue_names insp) 0)"
      by (intro cancel_from_ok [of 0 n]) (simp_all add: cancel_attempts_def)
    with Some show ?thesis unfolding cancel_task_def by simp
  qed (simp add: cancel_task_def)
  have "fst (cancel_jobs insp (queue_names insp) js) = CleanDone" for js
    using t by (induction js) (auto simp: split_beta split: bool.splits)
  then have 1: "fst (cancel_tasks no_clean_faults insp h st) = CleanDone"
    by (simp add: cancel_tasks_def split_beta)
  have d: "fst (delete_objects no_clean_faults ks os) = Inr ()" for ks os
    by (induction ks arbitrary: os) simp_all
  have "fst (delete_prefixes no_clean_faults ps os) = CleanDone" for ps os
    using d by (induction ps arbitrary: os) (simp_all add: delete_prefix_def split_beta)
  then have 2: "fst (delete_media_objects no_clean_faults h s) = CleanDone" for s
    by (simp add: delete_media_objects_def split_beta del: delete_prefixes.simps)
  have e: "fst (drop_entries no_clean_faults rs c os) = Inr ()" for rs c os
    by (induction rs arbitrary: c os) (simp_all add: Let_def)
  have 3: "fst (fst (delete_tracked_image_caches no_clean_faults h s)) = CleanDone" for s
    using e [of "list_cache_entries h (cl_index s)" "cl_lru s" "cl_objects s"]
    by (simp add: delete_tracked_image_caches_def Let_def split_beta)
  have c: "critical_done no_clean_faults insp h st" using 1 2 3 by (simp add: critical_done_def)
  let ?st' = "snd (cleanup no_clean_faults insp h st)"
  have h: "cleanup_handle no_clean_faults insp h st = (CleanNoContent, ?st')"
    using cleanup_cases(1) [OF c] assms(1) by (simp add: cleanup_handle_def split_beta)
  have "h \<notin> cr_hash ` set (cl_index (snd (delete_tracked_image_caches no_clean_faults h s)))" for s
    using e [of "list_cache_entries h (cl_index s)" "cl_lru s" "cl_objects s"]
    by (auto simp: delete_tracked_image_caches_def Let_def delete_cache_entries_def split_beta)
  then have "h \<notin> cr_hash ` set (cl_index ?st')"
    using cleanup_cases(1) [OF c] by (simp add: clean_critical_def)
  moreover have "h \<notin> kr_source_hash ` set (cl_keys ?st')" "h \<notin> j_hash ` set (cl_jobs ?st')"
    using cleanup_cases(1) [OF c]
    by (auto simp: delete_encryption_key_def delete_stream_keys_def delete_jobs_def delete_jobs_by_hash_def Let_def
        split: if_splits)
  ultimately show ?thesis using h by blast
qed

section \<open>Concrete runs\<close>

definition demo_clean_state :: clean_state where
  "demo_clean_state =
     \<lparr>cl_objects = [''videos/h/h/cover.jpg'', ''cache/k.webp'', ''images/g/g/t.webp''],
      cl_index = [\<lparr>cr_hash = ''h'', cr_cache_key = ''k'', cr_storage_key = ''cache/k.webp''\<rparr>],
      cl_keys = [], cl_jobs = [demo_row ''j1'' type_video_cover], cl_lru = Some (lru_set ''k'' ''data'' (lru_new 100)),
      cl_dropped = []\<rparr>"

definition demo_inspector :: inspector where
  "demo_inspector = \<lparr>in_queues = None,
     in_info = (\<lambda>n q i. if q = queue_default then Some (n = 0) else None), in_delete = (\<lambda>n q i. True)\<rparr>"

lemma demo_clean_lru: "lru_opt_inv (cl_lru demo_clean_state)"
proof -
  have "lru_inv (lru_set ''k'' ''data'' (lru_new 100))"
    by (rule lru.inv_kept(2)) (rule lru_inv_new)
  then show ?thesis by (simp add: lru_opt_inv_def demo_clean_state_def)
qed

lemma demo_settles: "attempt_settles demo_inspector i (queue_names (Some demo_inspector)) 1"
  by (simp add: attempt_settles_def queue_names_def demo_inspector_def known_queues_def queue_critical_def queue_default_def
    queue_video_large_def)

theorem cleanup_completes_witness:
  "\<exists>st'. cleanup_handle no_clean_faults (Some demo_inspector) ''h'' demo_clean_state = (CleanNoContent, st') \<and>
    ''h'' \<notin> j_hash ` set (cl_jobs st')"
  using cleanup_completes [of "''h''" "Some demo_inspector" demo_clean_state] demo_settles by force

lemma demo_cleanup:
  "\<exists>st'. cleanup_handle no_clean_faults None ''h'' demo_clean_state = (CleanNoContent, st')"
proof -
  have "fst (cleanup_handle no_clean_faults None ''h'' demo_clean_state) = CleanNoContent"
    by (simp add: cleanup_handle_def cleanup_def confirmed_gone_def cancel_tasks_def list_jobs_by_hash_def demo_row_def
      cancel_task_def delete_media_objects_def delete_prefix_def delete_tracked_image_caches_def list_cache_entries_def
      demo_clean_state_def s3_prefix_for_hash_def has_prefix_def new_cleanup_result_def Let_def split_beta)
  then show ?thesis by (metis prod.collapse)
qed

theorem cleanup_confirms_gone_witness:
  "\<exists>st'. cleanup_handle no_clean_faults None ''h'' demo_clean_state = (CleanNoContent, st') \<and>
    ''videos/h/h/cover.jpg'' \<notin> set (cl_objects st') \<and> lru_misses (cl_lru st') ''k''"
proof -
  obtain st' where c: "cleanup_handle no_clean_faults None ''h'' demo_clean_state = (CleanNoContent, st')"
    using demo_cleanup by blast
  note g = cleanup_confirms_gone [OF c demo_clean_lru]
  have u: "under_hash ''h'' ''videos/h/h/cover.jpg''"
    by (simp add: under_hash_def hash_dirs_def has_prefix_def hash_shard_def)
  have "\<lparr>cr_hash = ''h'', cr_cache_key = ''k'', cr_storage_key = ''cache/k.webp''\<rparr> \<in> set (cl_index demo_clean_state)"
    by (simp add: demo_clean_state_def)
  with g have "lru_misses (cl_lru st') ''k''" by fastforce
  moreover have "''videos/h/h/cover.jpg'' \<notin> set (cl_objects st')" using g u by blast
  ultimately show ?thesis using c by blast
qed

theorem incomplete_cleanup_keeps_rows_witness:
  "\<exists>done failed st'. cleanup_handle (no_clean_faults\<lparr>cf_list := \<lambda>p. Some ''down''\<rparr>) None ''h'' demo_clean_state =
     (CleanIncomplete done failed, st') \<and> cl_jobs st' = cl_jobs demo_clean_state"
proof -
  let ?F = "no_clean_faults\<lparr>cf_list := \<lambda>p. Some ''down''\<rparr>"
  have "\<exists>c f. fst (cleanup_handle ?F None ''h'' demo_clean_state) = CleanIncomplete c f"
    by (simp add: cleanup_handle_def cleanup_def confirmed_gone_def cancel_tasks_def list_jobs_by_hash_def demo_row_def
      cancel_task_def delete_media_objects_def delete_prefix_def demo_clean_state_def new_cleanup_result_def Let_def split_beta)
  then obtain c f where h: "cleanup_handle ?F None ''h'' demo_clean_state =
      (CleanIncomplete c f, snd (cleanup_handle ?F None ''h'' demo_clean_state))"
    by (metis prod.collapse)
  from incomplete_cleanup_keeps_rows [OF h] h show ?thesis by blast
qed


section \<open>Workers and cleanup\<close>

definition run_tasks :: "worker_env \<Rightarrow> 'i image_tools \<Rightarrow> (string \<times> payload) list \<Rightarrow> worker_state \<Rightarrow> worker_state" where
  "run_tasks W T ts st = fold (\<lambda>(i, p) s. snd (run_payload W T i p s)) ts st"

lemma run_tasks_under:
  assumes "payload_hash ` snd ` set ts \<subseteq> {h}"
  shows "wk_media (run_tasks W T ts st) k = wk_media st k \<or> under_hash h k"
  using assms
proof (induction ts arbitrary: st)
  case (Cons t ts)
  let ?s = "snd (run_payload W T (fst t) (snd t) st)"
  have "wk_media ?s k = wk_media st k \<or> under_hash h k"
    using run_payload_frame [of st "fst t" "snd t" W T] Cons.prems by (auto simp: worker_frame_def)
  moreover have "wk_media (run_tasks W T ts ?s) k = wk_media ?s k \<or> under_hash h k"
    using Cons by auto
  moreover have "run_tasks W T (t # ts) st = run_tasks W T ts ?s" by (simp add: run_tasks_def split_beta)
  ultimately show ?case by auto
qed (simp add: run_tasks_def)

text \<open>
  C20. What the workers write is what the cleaner deletes: after any tasks of one hash ran, in any order
  and with any failures, a confirmed cleanup of that hash leaves no object any of them created or
  changed.
\<close>

theorem cleanup_removes_worker_output:
  assumes "payload_hash ` snd ` set ts \<subseteq> {h}" and "set (cl_objects cs) = dom (wk_media (run_tasks W T ts st))"
    and "cleanup_handle F insp h cs = (CleanNoContent, cs')" and "k \<in> set (cl_objects cs')"
  shows "wk_media (run_tasks W T ts st) k = wk_media st k"
proof -
  have "critical_done F insp h cs"
    and "cs' = snd (delete_jobs F h (snd (delete_encryption_key F h (clean_critical F insp h cs))))"
    using cleanup_handle_cases(1) [OF assms(3)] by simp_all
  then have "\<not> under_hash h k"
    using assms(4) critical_objects by auto
  then show ?thesis using run_tasks_under [OF assms(1)] by blast
qed

lemma demo_cover_run:
  "wk_media (run_tasks demo_worker T [(''j1'', PCover ''h'' ''s.mov'' 0 [])] (demo_worker_state type_video_cover)) =
     [''videos/h/h/cover.jpg'' \<mapsto> \<lparr>ob_type = ''image/jpeg'', ob_data = ''frame''\<rparr>]"
  by (simp add: run_tasks_def handle_cover_def Let_def extract_cover_def upload_bytes_def demo_worker_def
    demo_worker_state_def worker_video_key_def complete_job_def start_webhook_def db_update_def set_progress_def
    mark_processing_def)

theorem cleanup_removes_worker_output_witness:
  "\<exists>cs'. cleanup_handle no_clean_faults None ''h'' (demo_clean_state\<lparr>cl_objects := [''videos/h/h/cover.jpg'']\<rparr>) =
     (CleanNoContent, cs') \<and> ''videos/h/h/cover.jpg'' \<notin> set (cl_objects cs')"
proof -
  let ?cs = "demo_clean_state\<lparr>cl_objects := [''videos/h/h/cover.jpg'']\<rparr>" and ?k = "''videos/h/h/cover.jpg''"
  obtain T :: "unit image_tools" where True by blast
  let ?ts = "[(''j1'', PCover ''h'' ''s.mov'' 0 [])]"
  have "fst (cleanup_handle no_clean_faults None ''h'' ?cs) = CleanNoContent"
    by (simp add: cleanup_handle_def cleanup_def confirmed_gone_def cancel_tasks_def list_jobs_by_hash_def demo_row_def
      cancel_task_def delete_media_objects_def delete_prefix_def delete_tracked_image_caches_def list_cache_entries_def
      demo_clean_state_def s3_prefix_for_hash_def has_prefix_def new_cleanup_result_def Let_def split_beta)
  then have c: "cleanup_handle no_clean_faults None ''h'' ?cs =
      (CleanNoContent, snd (cleanup_handle no_clean_faults None ''h'' ?cs))" by (metis prod.collapse)
  have "?k \<notin> set (cl_objects (snd (cleanup_handle no_clean_faults None ''h'' ?cs)))"
  proof
    assume "?k \<in> set (cl_objects (snd (cleanup_handle no_clean_faults None ''h'' ?cs)))"
    from cleanup_removes_worker_output [OF _ _ c this, of ?ts demo_worker T "demo_worker_state type_video_cover"]
    have "wk_media (run_tasks demo_worker T ?ts (demo_worker_state type_video_cover)) ?k =
        wk_media (demo_worker_state type_video_cover) ?k"
      by (simp add: demo_cover_run)
    moreover have "wk_media (demo_worker_state type_video_cover) ?k = None" by (simp add: demo_worker_state_def)
    ultimately show False by (simp add: demo_cover_run)
  qed
  with c show ?thesis by blast
qed

end
