(* ===== verification/ServerApi.thy ===== *)
theory ServerApi
  imports JobHandler Cleanup
begin

text \<open>
  The API routes of \<open>internal/server/server.go\<close>: every route of the group \<open>/api\<close> asks for the API key first,
  the routes that create jobs then go through the rate limiter, and the key endpoint through one of its
  own. Echo runs the middleware of a group before that of a route. Answers are status codes.
\<close>

section \<open>Requests and state\<close>

datatype api_call =
    CallCreateAudio raw_job_request
  | CallCreateVideo raw_job_request
  | CallStatus string
  | CallRetry string
  | CallCleanup string

text \<open>A request with the time it comes and what happens to fail while it is served.\<close>

record api_request =
  aq_key :: string
  aq_call :: api_call
  aq_now :: int
  aq_redis_up :: bool
  aq_read_ok :: bool
  aq_faults :: job_faults
  aq_draws :: "nat \<Rightarrow> string \<times> job_faults"
  aq_clean :: clean_faults

record api_env =
  ap_key :: string
  ap_sha :: "string \<Rightarrow> string"
  ap_jobs :: job_env
  ap_inspector :: "inspector option"

text \<open>The rows of the job table are those of the clean state.\<close>

record api_state =
  as_tasks :: "task list"
  as_clean :: clean_state
  as_counters :: counters

definition api_jobs :: "api_state \<Rightarrow> job_state" where
  "api_jobs st = \<lparr>js_rows = cl_jobs (as_clean st), js_tasks = as_tasks st\<rparr>"

definition set_api_jobs :: "job_state \<Rightarrow> api_state \<Rightarrow> api_state" where
  "set_api_jobs js st = st\<lparr>as_tasks := js_tasks js, as_clean := (as_clean st)\<lparr>cl_jobs := js_rows js\<rparr>\<rparr>"

definition result_code :: "(http_failure, nat \<times> 'a) result \<Rightarrow> nat" where
  "result_code r = (case r of Inl e \<Rightarrow> fst e | Inr a \<Rightarrow> fst a)"

definition clean_code :: "clean_response \<Rightarrow> nat" where
  "clean_code r = (case r of CleanBad m \<Rightarrow> 400 | CleanIncomplete xs ys \<Rightarrow> 503 | CleanNoContent \<Rightarrow> 204)"

text \<open>The handler of each route.\<close>

definition run_call :: "api_env \<Rightarrow> api_request \<Rightarrow> api_state \<Rightarrow> nat \<times> api_state" where
  "run_call E q st =
     (case aq_call q of
        CallCreateAudio raw \<Rightarrow>
          (case create_audio (ap_jobs E) (aq_faults q) (fst (aq_draws q 0)) raw (api_jobs st) of
             (r, js) \<Rightarrow> (result_code r, set_api_jobs js st))
      | CallCreateVideo raw \<Rightarrow>
          (case create_video (ap_jobs E) (aq_faults q) (fst (aq_draws q 0)) raw (api_jobs st) of
             (r, js) \<Rightarrow> (result_code r, set_api_jobs js st))
      | CallStatus i \<Rightarrow>
          ((case get_status (aq_read_ok q) i (api_jobs st) of Inl e \<Rightarrow> fst e | Inr r \<Rightarrow> 200), st)
      | CallRetry i \<Rightarrow>
          (case retry_job (ap_jobs E) (aq_draws q) (aq_read_ok q) i (api_jobs st) of
             (Inl e, js) \<Rightarrow> (fst e, set_api_jobs js st)
           | (Inr r, js) \<Rightarrow> (202, set_api_jobs js st))
      | CallCleanup h \<Rightarrow>
          (case cleanup_handle (aq_clean q) (ap_inspector E) h (as_clean st) of
             (r, c) \<Rightarrow> (clean_code r, st\<lparr>as_clean := c\<rparr>)))"

section \<open>Routes\<close>

definition call_limited :: "api_call \<Rightarrow> bool" where
  "call_limited c =
     (case c of CallCreateAudio raw \<Rightarrow> True | CallCreateVideo raw \<Rightarrow> True | CallRetry i \<Rightarrow> True | CallStatus i \<Rightarrow> False
      | CallCleanup h \<Rightarrow> False)"

datatype api_answer = Unauthorized nat | TooManyRequests | Answer nat

definition serve_api :: "api_env \<Rightarrow> api_request \<Rightarrow> api_state \<Rightarrow> api_answer \<times> api_state" where
  "serve_api E q st =
     (case api_key_auth (ap_key E) (aq_key q) of
        Some code \<Rightarrow> (Unauthorized code, st)
      | None \<Rightarrow>
          if call_limited (aq_call q) then
            (case rate_limit ''jobs'' 30 60 (aq_redis_up q) (hash_rate_limit_key (ap_sha E) (aq_key q)) (aq_now q)
                    (as_counters st) of
               (counters, ok) \<Rightarrow>
                 (let st1 = st\<lparr>as_counters := counters\<rparr> in
                  if \<not> ok then (TooManyRequests, st1)
                  else case run_call E q st1 of (code, st2) \<Rightarrow> (Answer code, st2)))
          else case run_call E q st of (code, st1) \<Rightarrow> (Answer code, st1))"

text \<open>The key endpoint needs no API key; its limiter counts per token, or per address without one.\<close>

definition key_rate_key :: "(string \<Rightarrow> string) \<Rightarrow> string \<Rightarrow> string \<Rightarrow> string" where
  "key_rate_key sha auth ip =
     (if has_prefix auth ''Bearer '' then ''token:'' @ hash_rate_limit_key sha (drop 7 auth)
      else ''ip:'' @ hash_rate_limit_key sha ip)"

definition serve_key ::
    "key_handler \<Rightarrow> (string \<Rightarrow> string) \<Rightarrow> bool \<Rightarrow> int \<Rightarrow> string \<Rightarrow> string \<Rightarrow> string \<Rightarrow> key_row list \<Rightarrow> counters \<Rightarrow>
     (nat \<times> string option) \<times> counters" where
  "serve_key h sha redis_up now ip i auth rows counters =
     (case rate_limit ''key'' 120 60 redis_up (key_rate_key sha auth ip) now counters of
        (counters', ok) \<Rightarrow> (if ok then key_handle h now rows i auth else (429, None), counters'))"

fun serve_all :: "api_env \<Rightarrow> api_request list \<Rightarrow> api_state \<Rightarrow> api_answer list \<times> api_state" where
  "serve_all E [] st = ([], st)"
| "serve_all E (q # qs) st =
     (case serve_api E q st of (a, st1) \<Rightarrow> (case serve_all E qs st1 of (as, st2) \<Rightarrow> (a # as, st2)))"

section \<open>Only the key holder has an effect\<close>

definition authorized :: "api_env \<Rightarrow> api_request \<Rightarrow> bool" where
  "authorized E q \<longleftrightarrow> aq_key q = ap_key E \<and> aq_key q \<noteq> []"

lemma api_key_auth_None: "api_key_auth (ap_key E) (aq_key q) = None \<longleftrightarrow> authorized E q"
  by (auto simp: api_key_auth_def authorized_def)

lemma unauthorized: "\<not> authorized E q \<Longrightarrow> serve_api E q st = (Unauthorized 401, st)"
  by (auto simp: serve_api_def api_key_auth_def authorized_def)

text \<open>
  C8. Requests without the API key have no effect at all: over any run of requests the final
  state and the answers to the key holder are those of the run without them, and each of them is
  answered 401.
\<close>

theorem only_key_holder_has_effect:
  "snd (serve_all E qs st) = snd (serve_all E (filter (authorized E) qs) st) \<and>
   map snd (filter (\<lambda>(q, a). authorized E q) (zip qs (fst (serve_all E qs st)))) =
     fst (serve_all E (filter (authorized E) qs) st) \<and>
   map snd (filter (\<lambda>(q, a). \<not> authorized E q) (zip qs (fst (serve_all E qs st)))) =
     map (\<lambda>q. Unauthorized 401) (filter (\<lambda>q. \<not> authorized E q) qs)"
proof (induction qs arbitrary: st)
  case (Cons q qs)
  then show ?case
    by (cases "authorized E q") (simp_all add: unauthorized split_beta)
qed simp

section \<open>The limiter bounds job requests\<close>

text \<open>The requests of the key holder to limited routes, as the limiter sees them.\<close>

definition limited_requests :: "api_env \<Rightarrow> api_request list \<Rightarrow> api_request list" where
  "limited_requests E qs = filter (\<lambda>q. authorized E q \<and> call_limited (aq_call q)) qs"

definition limiter_view :: "api_env \<Rightarrow> api_request list \<Rightarrow> (string \<times> int) list" where
  "limiter_view E qs = map (\<lambda>q. (hash_rate_limit_key (ap_sha E) (ap_key E), aq_now q)) (limited_requests E qs)"

lemma run_call_counters [simp]: "as_counters (snd (run_call E q st)) = as_counters st"
  by (auto simp: run_call_def set_api_jobs_def split: api_call.split prod.split sum.split)

lemma serve_counters:
  assumes "\<forall>q \<in> set qs. aq_redis_up q"
  shows "zip (limiter_view E qs) (rate_limit_run ''jobs'' 30 60 (limiter_view E qs) (as_counters st)) =
    map (\<lambda>(q, a). ((hash_rate_limit_key (ap_sha E) (ap_key E), aq_now q), a \<noteq> TooManyRequests))
      (filter (\<lambda>(q, a). authorized E q \<and> call_limited (aq_call q)) (zip qs (fst (serve_all E qs st))))"
  using assms
proof (induction qs arbitrary: st)
  case (Cons q qs)
  show ?case
  proof (cases "authorized E q \<and> call_limited (aq_call q)")
    case False
    have "as_counters (snd (serve_api E q st)) = as_counters st"
      using False by (auto simp: serve_api_def Let_def api_key_auth_None split_beta split: option.split)
    then show ?thesis
      using Cons.IH [of "snd (serve_api E q st)"] Cons.prems False
      by (auto simp: limiter_view_def limited_requests_def split_beta)
  next
    case True
    let ?k = "hash_rate_limit_key (ap_sha E) (ap_key E)"
    obtain c ok where r: "rate_limit ''jobs'' 30 60 True ?k (aq_now q) (as_counters st) = (c, ok)"
      by (metis prod.exhaust)
    have "api_key_auth (ap_key E) (aq_key q) = None" "aq_key q = ap_key E" "aq_redis_up q"
      using True Cons.prems by (auto simp: api_key_auth_def authorized_def)
    then have s: "as_counters (snd (serve_api E q st)) = c \<and> (fst (serve_api E q st) \<noteq> TooManyRequests) = ok"
      using True r by (simp add: serve_api_def Let_def split_beta)
    have "limiter_view E (q # qs) = (?k, aq_now q) # limiter_view E qs"
      using True by (simp add: limiter_view_def limited_requests_def)
    then show ?thesis
      using Cons.IH [of "snd (serve_api E q st)"] Cons.prems True r s by (simp add: split_beta)
  qed
qed (simp add: limiter_view_def limited_requests_def)

lemma unauthorized_answer:
  "(q, a) \<in> set (zip qs (fst (serve_all E qs st))) \<Longrightarrow> \<not> authorized E q \<Longrightarrow> a = Unauthorized 401"
  by (induction qs arbitrary: st) (auto simp: unauthorized split_beta)

text \<open>The calls that can put tasks on the queues.\<close>

fun makes_tasks :: "api_call \<Rightarrow> bool" where
  "makes_tasks (CallCreateAudio raw) = True"
| "makes_tasks (CallCreateVideo raw) = True"
| "makes_tasks (CallRetry i) = True"
| "makes_tasks (CallStatus i) = False"
| "makes_tasks (CallCleanup h) = False"

lemma call_limited_makes_tasks: "makes_tasks c \<Longrightarrow> call_limited c"
  by (cases c) (simp_all add: call_limited_def)

lemma others_make_no_tasks: "\<not> makes_tasks (aq_call q) \<Longrightarrow> as_tasks (snd (serve_api E q st)) = as_tasks st"
  by (cases "aq_call q") (auto simp: serve_api_def run_call_def Let_def split_beta split: option.split)

text \<open>
  C9. While Redis is up, at most thirty requests a minute reach the handlers that create or retry jobs,
  over any run of requests with any keys: the API key is the only caller the limiter sees. No other
  route puts a task on a queue.
\<close>

theorem job_requests_limited:
  assumes "\<forall>q \<in> set qs. aq_redis_up q" and "ap_key E \<noteq> []" and "length (ap_sha E (ap_key E)) = 32"
    and "as_counters st = (\<lambda>k. None)"
  shows "length (filter (\<lambda>(q, a). makes_tasks (aq_call q) \<and> (\<exists>code. a = Answer code) \<and> aq_now q div 60 = minute)
    (zip qs (fst (serve_all E qs st)))) \<le> 30 \<and>
    (\<forall>q s. makes_tasks (aq_call q) \<or> as_tasks (snd (serve_api E q s)) = as_tasks s)"
proof -
  let ?k = "hash_rate_limit_key (ap_sha E) (ap_key E)"
  let ?z = "zip qs (fst (serve_all E qs st))"
  let ?lim = "\<lambda>(q, a :: api_answer). authorized E q \<and> call_limited (aq_call q)"
  have "hex_encode (take 8 (ap_sha E (ap_key E))) \<noteq> []"
    using assms(3) by (metis length_hex_encode length_take list.size(3) min_def mult_eq_0_iff numeral_le_iff
        semiring_norm(69) zero_neq_numeral)
  then have k: "?k \<noteq> []" using assms(2) by (simp add: hash_rate_limit_key_def)
  have "int (allowed ?k 60 minute (zip (limiter_view E qs) (rate_limit_run ''jobs'' 30 60 (limiter_view E qs) (\<lambda>k. None)))) \<le> 30"
    using rate_limit_run_bound [OF _ k, of 60 minute "\<lambda>k. None" "''jobs''" "limiter_view E qs" 30]
    by (simp add: counter_live_def counter_value_def)
  moreover have "allowed ?k 60 minute (zip (limiter_view E qs) (rate_limit_run ''jobs'' 30 60 (limiter_view E qs) (\<lambda>k. None))) =
      length (filter (\<lambda>(q, a). a \<noteq> TooManyRequests \<and> aq_now q div 60 = minute) (filter ?lim ?z))"
    unfolding serve_counters [OF assms(1), of E st, unfolded assms(4)] allowed_def
    by (simp add: filter_map comp_def split_beta)
  moreover have e: "filter (\<lambda>(q, a). makes_tasks (aq_call q) \<and> (\<exists>code. a = Answer code) \<and> aq_now q div 60 = minute) ?z =
      filter (\<lambda>(q, a). makes_tasks (aq_call q) \<and> (\<exists>code. a = Answer code))
        (filter (\<lambda>(q, a). a \<noteq> TooManyRequests \<and> aq_now q div 60 = minute) (filter ?lim ?z))"
    using unauthorized_answer [of _ _ qs E st] by (auto simp: filter_filter call_limited_makes_tasks intro!: filter_cong)
  moreover have "length (filter (\<lambda>(q, a). makes_tasks (aq_call q) \<and> (\<exists>code. a = Answer code) \<and> aq_now q div 60 = minute) ?z) \<le>
      length (filter (\<lambda>(q, a). a \<noteq> TooManyRequests \<and> aq_now q div 60 = minute) (filter ?lim ?z))"
    unfolding e by (rule length_filter_le)
  ultimately have "length (filter (\<lambda>(q, a). makes_tasks (aq_call q) \<and> (\<exists>code. a = Answer code) \<and> aq_now q div 60 = minute) ?z) \<le> 30"
    by linarith
  then show ?thesis using others_make_no_tasks by blast
qed

definition demo_api_env :: api_env where
  "demo_api_env = \<lparr>ap_key = ''key'', ap_sha = (\<lambda>x. replicate 32 (CHR ''a'')), ap_jobs = demo_job_env, ap_inspector = None\<rparr>"

definition demo_api_state :: api_state where
  "demo_api_state = \<lparr>as_tasks = [], as_clean = demo_clean_state, as_counters = (\<lambda>k. None)\<rparr>"

definition demo_api_request :: "string \<Rightarrow> int \<Rightarrow> api_request" where
  "demo_api_request key now =
     \<lparr>aq_key = key, aq_call = CallRetry ''none'', aq_now = now, aq_redis_up = True, aq_read_ok = True,
      aq_faults = no_faults, aq_draws = (\<lambda>n. (show_nat n, no_faults)), aq_clean = no_clean_faults\<rparr>"

theorem job_requests_limited_witness:
  "length (filter (\<lambda>(q, a). makes_tasks (aq_call q) \<and> (\<exists>code. a = Answer code) \<and> aq_now q div 60 = 1)
    (zip (replicate 40 (demo_api_request ''key'' 60))
       (fst (serve_all demo_api_env (replicate 40 (demo_api_request ''key'' 60)) demo_api_state)))) \<le> 30"
  by (rule job_requests_limited [THEN conjunct1])
    (simp_all add: demo_api_request_def demo_api_env_def demo_api_state_def)

end
