(* ===== verification/FullWorkflow.thy ===== *)
theory FullWorkflow
  imports Workers JobHandler
begin

text \<open>
  The \<open>video:full\<close> workflow as a whole: what its result says in every case, and that the retry endpoint
  rebuilds exactly what is missing.
\<close>

section \<open>Consistent results\<close>

definition stage_done :: "stage_state \<Rightarrow> bool" where
  "stage_done s \<longleftrightarrow> sg_status s = StatusReady"

text \<open>
  Nothing is pending, an artifact is there exactly for a finished stage, and no stage before a failed
  or skipped one is unfinished: cover and preview need the source, the transcode needs all three.
\<close>

definition full_consistent :: "full_result \<Rightarrow> bool" where
  "full_consistent r \<longleftrightarrow>
     (let s = fr_stages r; a = fr_artifacts r in
      StatusPending \<notin> {sg_status (fs_source s), sg_status (fs_cover s), sg_status (fs_preview s), sg_status (fs_transcode s)} \<and>
      ((fa_cover a \<noteq> None) = stage_done (fs_cover s)) \<and>
      ((fa_preview a \<noteq> None) = stage_done (fs_preview s)) \<and>
      ((fa_transcode a \<noteq> None) = stage_done (fs_transcode s)) \<and>
      (stage_done (fs_cover s) \<or> stage_done (fs_preview s) \<longrightarrow> stage_done (fs_source s)) \<and>
      (stage_done (fs_transcode s) \<longrightarrow> stage_done (fs_cover s) \<and> stage_done (fs_preview s)))"

definition full_done :: "full_result \<Rightarrow> bool" where
  "full_done r \<longleftrightarrow>
     (let s = fr_stages r in
      stage_done (fs_source s) \<and> stage_done (fs_cover s) \<and> stage_done (fs_preview s) \<and> stage_done (fs_transcode s))"

text \<open>What is missing, as job types: the whole job without a source, else every stage that is not done.\<close>

definition missing_jobs :: "full_result \<Rightarrow> string list" where
  "missing_jobs r =
     (let s = fr_stages r in
      if \<not> stage_done (fs_source s) then [type_video_full]
      else (if stage_done (fs_cover s) then [] else [type_video_cover]) @
           (if stage_done (fs_preview s) then [] else [type_video_preview]) @
           (if stage_done (fs_transcode s) then [] else [type_video_transcode]))"

definition plan_matches :: "full_result \<Rightarrow> bool" where
  "plan_matches r \<longleftrightarrow>
     rp_allowed (fr_plan r) = (missing_jobs r \<noteq> []) \<and> rp_job_types (fr_plan r) = missing_jobs r \<and>
     rp_strategy (fr_plan r) =
       (if missing_jobs r = [] then RetryNone else if missing_jobs r = [type_video_full] then RetryJob else RetryTasks)"

lemmas full_defs = full_consistent_def full_done_def missing_jobs_def plan_matches_def stage_done_def Let_def
  set_retry_plan_def set_source_stage_def set_cover_stage_def set_preview_stage_def set_transcode_stage_def
  new_full_result_def retry_tasks_cover_preview_def task_types

section \<open>Every way a full job ends\<close>

text \<open>A handler ends with the completion of a finished result or the failure of an unfinished one.\<close>

definition full_end :: "worker_env \<Rightarrow> string \<Rightarrow> job_meta \<Rightarrow> outcome \<Rightarrow> bool" where
  "full_end W i meta out \<longleftrightarrow>
     (\<exists>r st. full_consistent r \<and> plan_matches r \<and>
        (full_done r \<and> out = complete_job W i meta (ResFull r) st \<or> \<not> full_done r \<and> out = fail_full W i meta r st))"

text \<open>After the parallel phase: the source is there, cover and preview are done or failed.\<close>

definition after_previews :: "full_result \<Rightarrow> bool" where
  "after_previews r \<longleftrightarrow>
     (let s = fr_stages r; a = fr_artifacts r in
      stage_done (fs_source s) \<and> sg_status (fs_cover s) \<in> {StatusReady, StatusFailed} \<and>
      sg_status (fs_preview s) \<in> {StatusReady, StatusFailed} \<and>
      ((fa_cover a \<noteq> None) = stage_done (fs_cover s)) \<and> ((fa_preview a \<noteq> None) = stage_done (fs_preview s)) \<and>
      fa_transcode a = None)"

lemma previews_done:
  "after_previews (fst (finish_preview W h pa (finish_cover W h ca (set_source_stage ready_stage new_full_result, st))))"
  by (simp add: finish_preview_def finish_cover_def after_previews_def full_defs split_beta split: sum.split)

lemma transcode_failure_end:
  assumes "after_previews r" "\<not> stage_failed (fs_cover (fr_stages r))" "\<not> stage_failed (fs_preview (fr_stages r))"
  shows "full_end W i meta (fail_full_transcode W i meta c m re r st)"
proof -
  let ?r = "set_retry_plan RetryTasks [type_video_transcode] [''transcode''] re (set_transcode_stage (failed_stage c m) r)"
  have "full_consistent ?r" "plan_matches ?r" "\<not> full_done ?r"
    using assms by (auto simp: after_previews_def full_defs)
  then show ?thesis unfolding full_end_def fail_full_transcode_def by blast
qed

lemma full_transcode_end:
  assumes "after_previews r" "\<not> stage_failed (fs_cover (fr_stages r))" "\<not> stage_failed (fs_preview (fr_stages r))"
  shows "full_end W i meta (full_transcode W i meta h enc tmp r st)"
proof -
  have ok: "full_end W i meta (complete_job W i meta (ResFull
      ((set_transcode_stage ready_stage (r\<lparr>fr_artifacts := (fr_artifacts r)\<lparr>fa_transcode := Some t\<rparr>\<rparr>))
        \<lparr>fr_plan := \<lparr>rp_allowed = False, rp_strategy = RetryNone, rp_job_types = [], rp_stages = [], rp_reason = []\<rparr>\<rparr>)) st)"
    (is "full_end _ _ _ (complete_job _ _ _ (ResFull ?r) _)") for t st
  proof -
    have "full_consistent ?r" "plan_matches ?r" "full_done ?r"
      using assms by (auto simp: after_previews_def full_defs)
    then show ?thesis unfolding full_end_def by blast
  qed
  show ?thesis
    by (simp add: full_transcode_def Let_def split_beta ok transcode_failure_end [OF assms] split: sum.split)
qed

lemma source_failure_end:
  "full_end W i meta (fail_full W i meta (set_retry_plan RetryJob [type_video_full] [''source''] m
     (set_transcode_stage (skipped_stage b) (set_preview_stage (skipped_stage b) (set_cover_stage (skipped_stage b)
       (set_source_stage (failed_stage c t) new_full_result))))) st)"
  (is "full_end _ _ _ (fail_full _ _ _ ?r _)")
proof -
  have "full_consistent ?r" "plan_matches ?r" "\<not> full_done ?r" by (simp_all add: full_defs)
  then show ?thesis unfolding full_end_def by blast
qed

lemma preview_failure_end:
  assumes "after_previews r" "stage_failed (fs_cover (fr_stages r)) \<or> stage_failed (fs_preview (fr_stages r))"
  shows "full_end W i meta (fail_full W i meta
    (set_retry_plan RetryTasks (retry_tasks_cover_preview (set_transcode_stage (skipped_stage b) r)) stages m
       (set_transcode_stage (skipped_stage b) r)) st)" (is "full_end _ _ _ (fail_full _ _ _ ?r _)")
proof -
  have "full_consistent ?r" "plan_matches ?r" "\<not> full_done ?r"
    using assms by (auto simp: after_previews_def full_defs)
  then show ?thesis unfolding full_end_def by blast
qed

lemma handle_full_end:
  "full_end W i \<lparr>jm_type = type_video_full, jm_hash = h, jm_callback = cb\<rparr> (handle_full W i h s f cb st)"
proof (cases "we_download W s")
  case (Inl m)
  then show ?thesis by (simp add: handle_full_def Let_def source_failure_end)
next
  case (Inr tmp)
  let ?x = "finish_preview W h (preview_attempt W tmp f) (finish_cover W h (cover_attempt W tmp f)
    (set_source_stage ready_stage new_full_result, set_progress W i 20 (set_progress W i 5 (mark_processing W i st))))"
  have a: "after_previews (fst ?x)" by (rule previews_done)
  show ?thesis
    using preview_failure_end [OF a] full_transcode_end [OF a] Inr
    by (auto simp: handle_full_def Let_def split_beta)
qed

section \<open>The row a full job leaves\<close>

lemma get_job_frame:
  assumes "worker_frame st0 i h st" "get_job i (wk_rows st0) = Some x"
  obtains f where "status_update f" "get_job i (wk_rows st) = Some (f x)"
proof -
  from assms(1) obtain f where "status_update f" "wk_rows st = update_job i f (wk_rows st0)"
    by (auto simp: worker_frame_def)
  with assms(2) that show thesis by (simp add: get_job_update status_update_def)
qed

lemma start_webhook_rows [simp]: "wk_rows (start_webhook W i meta s e res st) = wk_rows st"
  by (simp add: start_webhook_def)

lemma end_row:
  assumes "we_db_ok W OpCompletion" "we_db_ok W OpFailure" "get_job i (wk_rows (snd out)) = Some y"
  shows "out = complete_job W i meta res st \<Longrightarrow>
      j_status y = ''completed'' \<and> j_progress y = 100 \<and> j_error y = None \<and> j_results y = Some res"
    and "out = fail_job_with_result W i meta e res2 st \<Longrightarrow>
      j_status y = ''failed'' \<and> j_error y = Some e \<and> j_results y = res2"
  using assms
  by (auto simp: complete_job_def fail_job_with_result_def db_update_def update_job_completion_def update_job_failure_def
      get_job_update)

lemma full_job_ends:
  assumes "handle_full W i h s f cb st = (err, st')" and "get_job i (wk_rows st) = Some x"
    and "we_db_ok W OpCompletion" "we_db_ok W OpFailure"
  shows "\<exists>r y. get_job i (wk_rows st') = Some y \<and> j_results y = Some (ResFull r) \<and>
    full_consistent r \<and> plan_matches r \<and>
    (if full_done r then err = None \<and> j_status y = ''completed'' \<and> missing_jobs r = []
     else err = Some (full_failure_error r) \<and> j_status y = ''failed'' \<and> j_error y = err \<and> missing_jobs r \<noteq> [])"
proof -
  have "worker_frame st i h (snd (handle_full W i h s f cb st))"
    by (rule fr.I_full [OF worker_frame_refl refl])
  then obtain y where y: "get_job i (wk_rows (snd (err, st'))) = Some y"
    unfolding assms(1) by (rule get_job_frame [OF _ assms(2)]) blast
  let ?meta = "\<lparr>jm_type = type_video_full, jm_hash = h, jm_callback = cb\<rparr>"
  obtain r st1 where r: "full_consistent r" "plan_matches r"
    and e: "full_done r \<and> (err, st') = complete_job W i ?meta (ResFull r) st1 \<or>
            \<not> full_done r \<and> (err, st') = fail_full W i ?meta r st1"
    using handle_full_end [of W i h cb s f st] by (auto simp: full_end_def assms(1))
  from e show ?thesis
  proof (elim disjE conjE)
    assume d: "full_done r" and c: "(err, st') = complete_job W i ?meta (ResFull r) st1"
    have "err = None" using c by (simp add: complete_job_def)
    moreover have "missing_jobs r = []" using d by (simp add: full_done_def missing_jobs_def Let_def)
    moreover note end_row(1) [OF assms(3,4) y c] y r d
    ultimately show ?thesis by (intro exI [of _ r] exI [of _ y]) simp
  next
    assume d: "\<not> full_done r" and c: "(err, st') = fail_full W i ?meta r st1"
    have "err = Some (full_failure_error r)" using c by (simp add: fail_full_def fail_job_with_result_def)
    moreover have "missing_jobs r \<noteq> []" using d r(1) by (auto simp: full_done_def missing_jobs_def Let_def)
    moreover note end_row(2) [OF assms(3,4) y c [unfolded fail_full_def]] y r d
    ultimately show ?thesis by (intro exI [of _ r] exI [of _ y]) simp
  qed
qed

text \<open>
  C12. A full job ends in one of two ways. Either all four stages are done, every artifact is recorded,
  the row is completed and nothing is left to retry; or some stage is not done, the row is failed with
  the error asynq gets, and its plan asks for exactly what is missing. In no case is a stage left
  pending, an artifact recorded for an unfinished stage, or the transcode done without cover and preview.
\<close>

theorem full_job_outcome:
  assumes "handle_full W i h s f cb st = (err, st')" and "get_job i (wk_rows st) = Some x"
    and "we_db_ok W OpCompletion" "we_db_ok W OpFailure"
  shows "\<exists>r y. get_job i (wk_rows st') = Some y \<and> j_results y = Some (ResFull r) \<and>
    full_consistent r \<and> plan_matches r \<and>
    (if full_done r then err = None \<and> j_status y = ''completed'' \<and> missing_jobs r = []
     else err = Some (full_failure_error r) \<and> j_status y = ''failed'' \<and> j_error y = err \<and> missing_jobs r \<noteq> [])"
  by (rule full_job_ends [OF assms])

section \<open>Retrying a failed full job\<close>

lemma stage_options_canonical:
  assumes "exact_full f" "t \<in> {type_video_full, type_video_cover, type_video_preview, type_video_transcode}"
  shows "canonical_options t (stage_options t (canonicalize_full f)) = Inr (stage_options t (canonicalize_full f))"
proof -
  let ?f = "canonicalize_full f"
  have e: "exact_full ?f" by (rule exact_canonical_full [OF assms(1)])
  have empty: "decode_cover [] = Inr \<lparr>co_timestamp = 0\<rparr>" "encode_cover \<lparr>co_timestamp = 0\<rparr> = []"
    "decode_preview [] = Inr \<lparr>po_start = 0, po_duration = 0, po_width = 0, po_fps = 0, po_format = []\<rparr>"
    "encode_preview \<lparr>po_start = 0, po_duration = 0, po_width = 0, po_fps = 0, po_format = []\<rparr> = []"
    "decode_transcode [] = Inr \<lparr>to_encrypt = False\<rparr>" "encode_transcode \<lparr>to_encrypt = False\<rparr> = []"
    by (simp_all add: decode_cover_def decode_preview_def decode_transcode_def strict_def known_fields_def
      encode_cover_def encode_preview_def encode_transcode_def enc_float_def enc_int_def enc_str_def enc_bool_def)
  from assms(2) consider "t = type_video_full" | "t = type_video_cover" | "t = type_video_preview" | "t = type_video_transcode"
    by blast
  then show ?thesis
  proof cases
    case 1
    then show ?thesis
      using decode_encode_full [OF e] by (simp add: canonical_options_def stage_options_def task_types canonicalize_full_idem)
  next
    case 2
    then show ?thesis
      by (cases "fo_cover ?f") (simp_all add: canonical_options_def stage_options_def task_types empty decode_encode_cover)
  next
    case 3
    have "exact_preview p" if "fo_preview ?f = Some p" for p using e that by (simp add: exact_full_def)
    with 3 show ?thesis
      by (cases "fo_preview ?f") (simp_all add: canonical_options_def stage_options_def task_types empty decode_encode_preview)
  next
    case 4
    then show ?thesis
      by (cases "fo_transcode ?f") (simp_all add: canonical_options_def stage_options_def task_types empty decode_encode_transcode)
  qed
qed

lemma missing_types:
  "set (missing_jobs r) \<subseteq> {type_video_full, type_video_cover, type_video_preview, type_video_transcode}"
  by (auto simp: missing_jobs_def Let_def)

text \<open>
  C13. What a failed full job lost can be retried, and nothing else is: from the row the worker left, the
  retry endpoint builds one request per missing stage (the whole job when the source was not there),
  of the same source and callback, each already in canonical form, so that it is not refused.
\<close>

theorem retry_rebuilds_missing_stages:
  assumes "handle_full W i h s f cb st = (Some e, st')" and "get_job i (wk_rows st) = Some x"
    and "we_db_ok W OpCompletion" "we_db_ok W OpFailure"
    and "j_type x = type_video_full" and "decode_full (j_options x) = Inr f0" and "exact_full f0"
  shows "\<exists>r y rs. get_job i (wk_rows st') = Some y \<and> j_status y = ''failed'' \<and> j_results y = Some (ResFull r) \<and>
    build_retry_requests y = Inr (rs, rp_strategy (fr_plan r)) \<and>
    map nr_type rs = missing_jobs r \<and> rs \<noteq> [] \<and>
    set rs \<subseteq> {q. nr_hash q = j_hash x \<and> nr_source q = j_source x \<and> nr_callback q = j_callback_url x \<and>
                   canonicalize_request q = Inr q}"
proof -
  obtain r y where y: "get_job i (wk_rows st') = Some y" "j_results y = Some (ResFull r)"
    and r: "plan_matches r"
    and b: "if full_done r then Some e = None \<and> j_status y = ''completed'' \<and> missing_jobs r = []
     else Some e = Some (full_failure_error r) \<and> j_status y = ''failed'' \<and> j_error y = Some e \<and> missing_jobs r \<noteq> []"
    using full_job_ends [OF assms(1-4)] by blast
  have m: "missing_jobs r \<noteq> []" "j_status y = ''failed''" using b by (auto split: if_splits)
  have "worker_frame st i h (snd (handle_full W i h s f cb st))" by (rule fr.I_full [OF worker_frame_refl refl])
  then obtain g where g: "status_update g" "y = g x"
    unfolding assms(1) by (rule get_job_frame [OF _ assms(2)]) (use y in simp)
  then have cols: "j_type y = type_video_full" "j_options y = j_options x" "j_hash y = j_hash x" "j_source y = j_source x"
      "j_callback_url y = j_callback_url x"
    using assms(5) by (simp_all add: status_update_def)
  let ?rs = "map (\<lambda>t. retry_request_for_full t y (canonicalize_full f0)) (missing_jobs r)"
  have "build_retry_requests y = Inr (?rs, rp_strategy (fr_plan r))"
    using y(2) m r assms(6) by (simp add: build_retry_requests_def cols plan_matches_def Let_def)
  moreover have "map nr_type ?rs = missing_jobs r"
    by (simp add: retry_request_for_full_def job_request_from_stored_def comp_def)
  moreover have "set ?rs \<subseteq> {q. nr_hash q = j_hash x \<and> nr_source q = j_source x \<and> nr_callback q = j_callback_url x \<and>
                   canonicalize_request q = Inr q}"
    using stage_options_canonical [OF assms(7)] missing_types [of r]
    by (auto simp: retry_request_for_full_def job_request_from_stored_def cols canonicalize_request_def)
  ultimately show ?thesis using y m by blast
qed

definition no_full_options :: full_options where
  "no_full_options = \<lparr>fo_cover = None, fo_preview = None, fo_transcode = None\<rparr>"

theorem full_job_outcome_witness:
  "\<exists>r y. get_job ''j1'' (wk_rows (snd (handle_full demo_worker ''j1'' ''h'' ''s.mov'' no_full_options []
       (demo_worker_state type_video_full)))) = Some y \<and> j_results y = Some (ResFull r) \<and> full_consistent r"
  using full_job_outcome [OF prod.collapse [symmetric], of "''j1''" "demo_worker_state type_video_full"
    "demo_row ''j1'' type_video_full" demo_worker "''h''" "''s.mov''" no_full_options "[]"] by auto

theorem retry_rebuilds_missing_stages_witness:
  "\<exists>y rs strategy. get_job ''j1'' (wk_rows (snd (handle_full demo_worker ''j1'' ''h'' ''gone'' no_full_options []
       (demo_worker_state type_video_full)))) = Some y \<and> build_retry_requests y = Inr (rs, strategy) \<and> rs \<noteq> []"
proof -
  let ?out = "handle_full demo_worker ''j1'' ''h'' ''gone'' no_full_options [] (demo_worker_state type_video_full)"
  have "\<exists>e. fst ?out = Some e"
    by (simp add: handle_full_def Let_def demo_worker_def fail_full_def fail_job_with_result_def)
  then obtain e where o: "?out = (Some e, snd ?out)" by (metis prod.collapse)
  have d: "decode_full (j_options (demo_row ''j1'' type_video_full)) = Inr no_full_options"
    by (simp add: demo_row_def decode_full_def strict_def known_fields_def decode_ptr_def no_full_options_def)
  have "exact_full no_full_options" by (simp add: exact_full_def no_full_options_def)
  from retry_rebuilds_missing_stages [OF o demo_worker_simps(2) demo_worker_simps(1,1) _ d this]
  show ?thesis by (simp add: demo_row_def) blast
qed

section \<open>A retried preview\<close>

text \<open>
  The documented start of a preview clip is at two seconds. A full job that leaves the preview at
  its defaults starts there, but the preview job that retries this stage starts at zero: only the full
  job applies the default start.
\<close>

theorem retried_preview_starts_elsewhere:
  "\<exists>p. build_payload (retry_request_for_full type_video_preview y
           (canonicalize_full \<lparr>fo_cover = c, fo_preview = None, fo_transcode = t\<rparr>)) =
         Inr (PPreview (j_hash y) (j_source y) p (j_callback_url y)) \<and>
       take 2 (preview_args tmp (fill_preview (raw_preview p))) = [''-ss'', ''0.00''] \<and>
       take 2 (preview_args tmp (fill_preview
         (full_preview \<lparr>fo_cover = c, fo_preview = None, fo_transcode = t\<rparr>))) = [''-ss'', ''2.00'']"
proof -
  let ?p = "\<lparr>po_start = 0, po_duration = 0, po_width = 0, po_fps = 0, po_format = []\<rparr>"
  have "decode_preview [] = Inr ?p" by (simp add: decode_preview_def strict_def known_fields_def)
  then have "build_payload (retry_request_for_full type_video_preview y
      (canonicalize_full \<lparr>fo_cover = c, fo_preview = None, fo_transcode = t\<rparr>)) =
    Inr (PPreview (j_hash y) (j_source y) ?p (j_callback_url y))"
    by (simp add: build_payload_def retry_request_for_full_def job_request_from_stored_def stage_options_def
      canonicalize_full_def task_types enqueue_failed_def)
  moreover have "fixed2 0 = ''0.00''" "fixed2 2 = ''2.00''"
    by (simp_all add: fixed2_def round_even_def digit_char_eval number_eval)
  ultimately show ?thesis
    by (simp add: preview_args_def fill_preview_def raw_preview_def full_preview_def default_preview_options_def)
qed

end
