(* ===== verification/AudioWorkflow.thy ===== *)
theory AudioWorkflow
  imports Workers FullWorkflow
begin

text \<open>
  The audio workflow as a whole: what the result of an audio job says in every case, and the one way
  a job can end without any: a panic in the waveform code.
\<close>

section \<open>Consistent results\<close>

definition au_statuses :: "audio_result \<Rightarrow> stage_status list" where
  "au_statuses r =
     (let s = ar_stages r in
      [as_status (au_source s), as_status (au_probe s), as_status (au_package s), as_status (au_downloads s),
       as_status (au_waveform s)])"

text \<open>
  Nothing is pending; analysis, waveform and stream are there exactly when their stage is ready; a
  failure is recorded exactly when a stage failed; a finished job has the downloads that were asked
  for, and its stream is encrypted exactly when that was asked for.
\<close>

definition audio_consistent :: "audio_options \<Rightarrow> audio_result \<Rightarrow> bool" where
  "audio_consistent a r \<longleftrightarrow>
     (let s = ar_stages r in
      StatusPending \<notin> set (au_statuses r) \<and>
      ((ar_analysis r \<noteq> None) = (as_status (au_probe s) = StatusReady)) \<and>
      ((ar_waveform r \<noteq> None) = (as_status (au_waveform s) = StatusReady)) \<and>
      ((ar_streaming r \<noteq> None) = (as_status (au_package s) = StatusReady)) \<and>
      ((ar_failure r \<noteq> None) = (StatusFailed \<in> set (au_statuses r))) \<and>
      (ar_encryption r \<noteq> None \<longrightarrow> ar_streaming r \<noteq> None))"

definition audio_done :: "audio_options \<Rightarrow> audio_result \<Rightarrow> bool" where
  "audio_done a r \<longleftrightarrow>
     (let s = ar_stages r; asked = (\<lambda>on st. as_status st = (if on then StatusReady else StatusSkipped)) in
      as_status (au_source s) = StatusReady \<and> as_status (au_probe s) = StatusReady \<and>
      asked (ao_waveform a) (au_waveform s) \<and> asked (ao_hls a) (au_package s) \<and>
      asked (ao_mp3 a \<or> ao_flac a) (au_downloads s) \<and>
      map da_format (ar_downloads r) = (if ao_mp3 a then [''mp3''] else []) @ (if ao_flac a then [''flac''] else []) \<and>
      ((ar_encryption r \<noteq> None) = (ao_hls a \<and> ao_encrypt a)) \<and>
      (case ar_streaming r of None \<Rightarrow> True | Some x \<Rightarrow> ha_encrypted x = ao_encrypt a))"

definition audio_end :: "worker_env \<Rightarrow> string \<Rightarrow> job_meta \<Rightarrow> audio_options \<Rightarrow> outcome \<Rightarrow> bool" where
  "audio_end W i meta a out \<longleftrightarrow>
     (\<exists>r st. audio_consistent a r \<and>
        (audio_done a r \<and> ar_failure r = None \<and> out = complete_job W i meta (ResAudio r) st \<or>
         ar_failure r \<noteq> None \<and> out = fail_job_with_result W i meta (audio_failure_error r) (Some (ResAudio r)) st)) \<or>
     (\<exists>tmp st. ao_waveform a \<and>
        generate_waveform (we_max_slice W) (we_run W (waveform_args tmp)) (ao_waveform_bins a) = Inl WavePanic \<and>
        out = (Some ''panic'', st))"

lemmas audio_set_defs = set_au_source_def set_au_probe_def set_au_package_def set_au_downloads_def set_au_waveform_def

lemmas audio_end_defs = audio_consistent_def audio_done_def au_statuses_def Let_def audio_set_defs
  skip_pending_audio_stages_def skip_if_pending_def mark_failure_def

section \<open>Phase by phase\<close>

text \<open>What holds once the source was probed, with flags for a finished waveform and package phase.\<close>

definition au_phase :: "audio_options \<Rightarrow> bool \<Rightarrow> bool \<Rightarrow> audio_result \<Rightarrow> bool" where
  "au_phase a w p r \<longleftrightarrow>
     (let s = ar_stages r; status = (\<lambda>fin on. if \<not> on then StatusSkipped else if fin then StatusReady else StatusPending) in
      as_status (au_source s) = StatusReady \<and> as_status (au_probe s) = StatusReady \<and> ar_analysis r \<noteq> None \<and>
      ar_failure r = None \<and>
      as_status (au_waveform s) = status w (ao_waveform a) \<and> (ar_waveform r \<noteq> None) = (w \<and> ao_waveform a) \<and>
      as_status (au_package s) = status p (ao_hls a) \<and> (ar_streaming r \<noteq> None) = (p \<and> ao_hls a) \<and>
      (ar_encryption r \<noteq> None) = (p \<and> ao_hls a \<and> ao_encrypt a) \<and>
      (case ar_streaming r of None \<Rightarrow> True | Some x \<Rightarrow> ha_encrypted x = ao_encrypt a) \<and>
      as_status (au_downloads s) = status False (ao_mp3 a \<or> ao_flac a))"

lemma fail_audio_end:
  "audio_consistent a (mark_failure sg c m r) \<Longrightarrow> audio_end W i meta a (fail_audio_process W i meta r sg c m st)"
  unfolding audio_end_def fail_audio_process_def Let_def
  by (rule disjI1, rule exI [of _ "mark_failure sg c m r"], rule exI [of _ st]) (simp add: mark_failure_def)

lemma fail_phase_end:
  "au_phase a False p r \<Longrightarrow> audio_end W i meta a (fail_waveform W i meta c m r st)"
  "au_phase a True False r \<Longrightarrow> audio_end W i meta a (fail_package W i meta c m r st)"
  "au_phase a True True r \<Longrightarrow> audio_end W i meta a (fail_downloads W i meta c m r st)"
  unfolding fail_waveform_def fail_package_def fail_downloads_def
  by (rule fail_audio_end; auto simp: au_phase_def audio_end_defs split: if_splits option.splits)+

lemma finish_audio_end:
  assumes "au_phase a True True r"
    and "map da_format (ar_downloads r) = (if ao_mp3 a then [''mp3''] else []) @ (if ao_flac a then [''flac''] else [])"
  shows "audio_end W i meta a (finish_audio W i meta a r st)"
proof -
  let ?r = "if ao_mp3 a \<or> ao_flac a then set_au_downloads audio_ready r else r"
  have "audio_consistent a ?r" "audio_done a ?r" "ar_failure ?r = None"
    using assms by (auto simp: au_phase_def audio_end_defs split: if_splits option.splits)
  then show ?thesis unfolding audio_end_def finish_audio_def by blast
qed

lemma phase_downloads [simp]: "au_phase a w p (r\<lparr>ar_downloads := ds\<rparr>) = au_phase a w p r"
  by (simp add: au_phase_def)

lemma make_download_end:
  assumes "au_phase a True True r"
    and "\<And>d s. da_format d = fm \<Longrightarrow> audio_end W i meta a (k (r\<lparr>ar_downloads := ar_downloads r @ [d]\<rparr>) s)"
  shows "audio_end W i meta a (make_download W i meta h fm args path br r st k)"
  using assms by (simp add: make_download_def Let_def split_beta fail_phase_end split: sum.split)

lemma audio_downloads_end:
  assumes "au_phase a True True r" "ar_downloads r = []"
  shows "audio_end W i meta a (audio_downloads W i meta h a tmp r st)"
  using assms
  by (simp add: audio_downloads_def Let_def fail_phase_end finish_audio_end make_download_end split: sum.split)

lemma audio_package_end:
  assumes "au_phase a True False r" "ar_downloads r = []"
    and "\<And>r' s. au_phase a True True r' \<Longrightarrow> ar_downloads r' = [] \<Longrightarrow> audio_end W i meta a (k r' s)"
  shows "audio_end W i meta a (audio_package W i meta h a tmp r st k)"
proof (cases "ao_hls a")
  case False
  then have "au_phase a True True r" using assms(1) by (auto simp: au_phase_def Let_def)
  with False assms show ?thesis by (simp add: audio_package_def)
next
  case True
  have plain: "audio_end W i meta a (k (set_au_package audio_ready
      (r\<lparr>ar_streaming := Some (build_audio_streaming h q False), ar_encryption := None\<rparr>)) s)"
    if "\<not> ao_encrypt a" for q s
    using assms True that by (intro assms(3)) (auto simp: au_phase_def audio_set_defs Let_def build_audio_streaming_def)
  have encrypted: "audio_end W i meta a (k (set_au_package audio_ready
      (r\<lparr>ar_streaming := Some (build_audio_streaming h q True), ar_encryption := Some x\<rparr>)) s)"
    if "ao_encrypt a" for q x s
    using assms True that by (intro assms(3)) (auto simp: au_phase_def audio_set_defs Let_def build_audio_streaming_def)
  show ?thesis
    using True plain encrypted fail_phase_end(2) [OF assms(1)]
    by (auto simp: audio_package_def Let_def split_beta split: sum.split)
qed

lemma audio_waveform_end:
  assumes "au_phase a False False r" "ar_downloads r = []"
    and "\<And>r' s. au_phase a True False r' \<Longrightarrow> ar_downloads r' = [] \<Longrightarrow> audio_end W i meta a (k r' s)"
  shows "audio_end W i meta a (audio_waveform W i meta h a tmp r st k)"
proof (cases "ao_waveform a")
  case False
  then have "au_phase a True False r" using assms(1) by (auto simp: au_phase_def Let_def)
  with False assms show ?thesis by (simp add: audio_waveform_def)
next
  case True
  have fin: "audio_end W i meta a (k (set_au_waveform audio_ready (r\<lparr>ar_waveform := Some x\<rparr>)) s)" for x s
    using assms True by (intro assms(3)) (auto simp: au_phase_def audio_set_defs Let_def)
  show ?thesis
  proof (cases "generate_waveform (we_max_slice W) (we_run W (waveform_args tmp)) (ao_waveform_bins a)")
    case (Inl e)
    then show ?thesis
      using True fail_phase_end(1) [OF assms(1)]
      by (auto simp: audio_waveform_def audio_end_def [of W i meta a "(Some ''panic'', st)"])
  next
    case (Inr peaks)
    then show ?thesis
      using True fin fail_phase_end(1) [OF assms(1)]
      by (auto simp: audio_waveform_def Let_def split_beta split: sum.split)
  qed
qed

lemma handle_audio_end:
  "audio_end W i \<lparr>jm_type = type_audio_transcode, jm_hash = h, jm_callback = cb\<rparr> a (handle_audio W i h s a cb st)"
proof -
  let ?r0 = "new_audio_result (ao_hls a) (ao_mp3 a \<or> ao_flac a) (ao_waveform a)"
  have src: "audio_end W i meta a (fail_audio_process W i meta
      (skip_pending_audio_stages b (set_au_source (audio_failed c m) ?r0)) sg c m st1)" for meta b c m sg st1
    by (rule fail_audio_end) (simp add: audio_end_defs new_audio_result_def)
  have prb: "audio_end W i meta a (fail_probe W i meta c m (set_au_source audio_ready ?r0) st1)" for meta c m st1
    unfolding fail_probe_def by (rule fail_audio_end) (simp add: audio_end_defs new_audio_result_def)
  have start: "au_phase a False False ((set_au_probe audio_ready (set_au_source audio_ready ?r0))\<lparr>ar_analysis := Some p\<rparr>)"
    "ar_downloads ((set_au_probe audio_ready (set_au_source audio_ready ?r0))\<lparr>ar_analysis := Some p\<rparr>) = []" for p
    by (simp_all add: au_phase_def audio_set_defs new_audio_result_def Let_def)
  show ?thesis
    by (auto simp: handle_audio_def Let_def src prb split: sum.split
      intro!: audio_waveform_end [OF start] audio_package_end audio_downloads_end)
qed

section \<open>The row an audio job leaves\<close>

text \<open>
  C14. Unless the waveform code panics, an audio job ends in one of two ways. Either every stage that was
  asked for is ready and the others are skipped, the downloads are the ones asked for, the stream is
  encrypted exactly when that was asked for, and the row is completed; or the row is failed with the
  failure its result records. No stage is left pending, and analysis, waveform and stream are recorded
  exactly for finished stages.
\<close>

theorem audio_job_outcome:
  assumes "handle_audio W i h s a cb st = (err, st')" and "err \<noteq> Some ''panic''"
    and "get_job i (wk_rows st) = Some x" and "we_db_ok W OpCompletion" "we_db_ok W OpFailure"
  shows "\<exists>r y. get_job i (wk_rows st') = Some y \<and> j_results y = Some (ResAudio r) \<and> audio_consistent a r \<and>
    (if ar_failure r = None then err = None \<and> j_status y = ''completed'' \<and> audio_done a r
     else err = Some (audio_failure_error r) \<and> j_status y = ''failed'' \<and> j_error y = err)"
proof -
  let ?meta = "\<lparr>jm_type = type_audio_transcode, jm_hash = h, jm_callback = cb\<rparr>"
  have "worker_frame st i h (snd (handle_audio W i h s a cb st))" by (rule fr.I_audio [OF worker_frame_refl refl])
  then obtain y where y: "get_job i (wk_rows (snd (err, st'))) = Some y"
    unfolding assms(1) by (rule get_job_frame [OF _ assms(3)]) blast
  have "audio_end W i ?meta a (err, st')"
    using handle_audio_end [of W i h cb a s st] by (simp add: assms(1))
  then obtain r st1 where r: "audio_consistent a r"
    and e: "audio_done a r \<and> ar_failure r = None \<and> (err, st') = complete_job W i ?meta (ResAudio r) st1 \<or>
         ar_failure r \<noteq> None \<and>
         (err, st') = fail_job_with_result W i ?meta (audio_failure_error r) (Some (ResAudio r)) st1"
    using assms(2) by (auto simp: audio_end_def)
  from e show ?thesis
  proof (elim disjE conjE)
    assume d: "audio_done a r" "ar_failure r = None" and c: "(err, st') = complete_job W i ?meta (ResAudio r) st1"
    have "err = None" using c by (simp add: complete_job_def)
    moreover note end_row(1) [OF assms(4,5) y c] y r d
    ultimately show ?thesis by (intro exI [of _ r] exI [of _ y]) simp
  next
    assume d: "ar_failure r \<noteq> None"
      and c: "(err, st') = fail_job_with_result W i ?meta (audio_failure_error r) (Some (ResAudio r)) st1"
    have "err = Some (audio_failure_error r)" using c by (simp add: fail_job_with_result_def)
    moreover note end_row(2) [OF assms(4,5) y c] y r d
    ultimately show ?thesis by (intro exI [of _ r] exI [of _ y]) simp
  qed
qed

definition demo_audio_options :: audio_options where
  "demo_audio_options = \<lparr>ao_hls = False, ao_encrypt = False, ao_mp3 = True, ao_flac = False, ao_waveform = False,
     ao_waveform_bins = 0, ao_mp3_bitrate = ''320k''\<rparr>"

theorem audio_job_outcome_witness:
  "\<exists>r y. get_job ''j1'' (wk_rows (snd (handle_audio demo_worker ''j1'' ''h'' ''gone'' demo_audio_options []
       (demo_worker_state type_audio_transcode)))) = Some y \<and> j_results y = Some (ResAudio r) \<and>
     audio_consistent demo_audio_options r"
proof -
  let ?out = "handle_audio demo_worker ''j1'' ''h'' ''gone'' demo_audio_options [] (demo_worker_state type_audio_transcode)"
  have "fst ?out \<noteq> Some ''panic''"
    by (simp add: handle_audio_def Let_def demo_worker_def fail_audio_process_def fail_job_with_result_def
      audio_failure_error_def mark_failure_def)
  from audio_job_outcome [OF prod.collapse [symmetric] this demo_worker_simps(2) demo_worker_simps(1,1)]
  show ?thesis by blast
qed

section \<open>A panic\<close>

text \<open>
  The number of waveform bins has no upper bound. When it is more than the runtime can allocate the
  handler panics after the probe: the row stays in the processing state, which counts as live, and no
  webhook is sent. Requests for the same job are then answered with this row and retrying it is refused.
\<close>

theorem waveform_panic_leaves_job_processing:
  assumes "ao_waveform a" and "ao_waveform_bins a > we_max_slice W" "we_max_slice W \<ge> 0"
    and "we_download W s = Inr tmp" and "audio_probe (mt_parse_float (we_tools W)) tmp (we_probe W) = Inr p"
    and "supported (pr_format p)" and "we_run W (waveform_args tmp) = Inr data" "4 \<le> length data"
    and "get_job i (wk_rows st) = Some x" and "we_db_ok W OpStatus"
  shows "\<exists>st' y. handle_audio W i h s a cb st = (Some ''panic'', st') \<and> get_job i (wk_rows st') = Some y \<and>
    j_status y = ''processing'' \<and> is_active y \<and> j_error y = None \<and> wk_calls st' = wk_calls st \<and>
    retry_job E draws True i \<lparr>js_rows = wk_rows st', js_tasks = []\<rparr> =
      (Inl (if i = [] then (400, ''missing job id'') else (409, ''only failed jobs can be retried'')),
       \<lparr>js_rows = wk_rows st', js_tasks = []\<rparr>)"
proof -
  have "samples data \<noteq> []" using assms(8) length_samples [of data] by (cases "samples data") auto
  then have w: "generate_waveform (we_max_slice W) (we_run W (waveform_args tmp)) (ao_waveform_bins a) = Inl WavePanic"
    using assms by (simp add: generate_waveform_def Let_def)
  let ?st = "set_progress W i 25 (set_progress W i 10 (mark_processing W i st))"
  have o: "handle_audio W i h s a cb st = (Some ''panic'', ?st)"
    using assms(1,4-6) w by (simp add: handle_audio_def audio_waveform_def Let_def)
  have "\<exists>y. get_job i (wk_rows ?st) = Some y \<and> j_status y = ''processing'' \<and> j_error y = None"
    using assms(9,10)
    by (simp add: set_progress_def mark_processing_def db_update_def update_job_progress_def update_job_status_def get_job_update)
  then obtain y where y: "get_job i (wk_rows ?st) = Some y" "j_status y = ''processing''" "j_error y = None" by blast
  moreover have "wk_calls ?st = wk_calls st" by (simp add: set_progress_def mark_processing_def db_update_def)
  ultimately show ?thesis using o by (auto simp: is_active_def retry_job_def)
qed

theorem waveform_panic_leaves_job_processing_witness:
  "\<exists>st'. handle_audio demo_worker ''j1'' ''h'' ''s.mp3''
     (demo_audio_options\<lparr>ao_waveform := True, ao_waveform_bins := 2 ^ 50\<rparr>) [] (demo_worker_state type_audio_transcode) =
     (Some ''panic'', st')"
proof -
  let ?a = "demo_audio_options\<lparr>ao_waveform := True, ao_waveform_bins := 2 ^ 50\<rparr>"
  have "\<exists>p. audio_probe (mt_parse_float (we_tools demo_worker)) ''/tmp/v'' (we_probe demo_worker) = Inr p \<and> supported (pr_format p)"
    by (simp add: audio_probe_def demo_worker_def audio_stream_of_def Let_def infer_probe_format_def trim_space_def
      is_space_def to_lower_def lower_char_def detect_source_format_def path_ext_def trim_prefix_def has_prefix_def
      supported_iff)
  then obtain p where "audio_probe (mt_parse_float (we_tools demo_worker)) ''/tmp/v'' (we_probe demo_worker) = Inr p"
    "supported (pr_format p)" by blast
  from waveform_panic_leaves_job_processing [of ?a demo_worker "''s.mp3''" "''/tmp/v''" p "''frame''" "''j1''"
    "demo_worker_state type_audio_transcode" "demo_row ''j1'' type_audio_transcode" "''h''" "[]", OF _ _ _ _ this]
  show ?thesis by (auto simp: demo_worker_def)
qed

end
