(* ===== verification/Webhook.thy ===== *)
theory Webhook
  imports WorkerDeps
begin

text \<open>
  Delivery of webhook callbacks, \<open>internal/webhook/client.go\<close>: up to five signed POST requests with a
  doubling pause between them, under a time-out per request and a deadline for all of them, and the
  callback status the row gets in the end. Times are milliseconds; what the endpoint answers to the
  n-th request, and when, is the environment.
\<close>

section \<open>The client\<close>

definition max_retries :: nat where "max_retries = 5"

definition request_timeout :: nat where "request_timeout = 10000"

definition delivery_timeout :: nat where "delivery_timeout = 300000"

datatype callback_reply = NoReply | Reply nat

text \<open>
  \<open>wh_headers\<close> is when the response headers arrive, \<open>wh_body\<close> how long the body takes after them. A body
  that does not end in time is only logged.
\<close>

record webhook_env =
  wh_mac :: mac
  wh_secret :: string
  wh_request_ok :: "string \<Rightarrow> bool"
  wh_reply :: "nat \<Rightarrow> callback_reply"
  wh_headers :: "nat \<Rightarrow> nat"
  wh_body :: "nat \<Rightarrow> nat"
  wh_json :: "webhook_call \<Rightarrow> (string, string) result"
  wh_db_ok :: bool

record callback_request =
  cq_url :: string
  cq_body :: string
  cq_signature :: string

definition reply_accepted :: "callback_reply \<Rightarrow> bool" where
  "reply_accepted r = (case r of NoReply \<Rightarrow> False | Reply code \<Rightarrow> 200 \<le> code \<and> code < 300)"

text \<open>Whether the request was accepted, the time after it, and the request if one was made.\<close>

definition send_callback ::
    "webhook_env \<Rightarrow> string \<Rightarrow> string \<Rightarrow> string \<Rightarrow> nat \<Rightarrow> nat \<Rightarrow> bool \<times> nat \<times> callback_request list" where
  "send_callback E url body sg attempt elapsed =
     (if \<not> wh_request_ok E url \<or> elapsed \<ge> delivery_timeout then (False, elapsed, [])
      else let req = \<lparr>cq_url = url, cq_body = body, cq_signature = sg\<rparr>;
               limit = min request_timeout (delivery_timeout - elapsed) in
           if wh_headers E attempt \<ge> limit then (False, elapsed + limit, [req])
           else (reply_accepted (wh_reply E attempt),
                 elapsed + min (wh_headers E attempt + wh_body E attempt) limit, [req]))"

datatype delivery = Delivered | Exhausted | Canceled

text \<open>The loop: \<open>Canceled\<close> when the deadline passes during a pause.\<close>

function deliver_from ::
    "webhook_env \<Rightarrow> string \<Rightarrow> string \<Rightarrow> string \<Rightarrow> nat \<Rightarrow> nat \<Rightarrow> nat \<Rightarrow> delivery \<times> nat \<times> callback_request list" where
  "deliver_from E url body sg attempt backoff elapsed =
     (if attempt > max_retries then (Exhausted, elapsed, [])
      else case send_callback E url body sg attempt elapsed of
        (ok, t, rs) \<Rightarrow>
          if ok then (Delivered, t, rs)
          else if attempt < max_retries then
            if t + backoff \<ge> delivery_timeout then (Canceled, delivery_timeout, rs)
            else (case deliver_from E url body sg (attempt + 1) (2 * backoff) (t + backoff) of
                    (d, t', rs') \<Rightarrow> (d, t', rs @ rs'))
          else (Exhausted, t, rs))"
  by pat_completeness auto
termination
  by (relation "measure (\<lambda>(E, url, body, sg, attempt, backoff, elapsed). Suc max_retries - attempt)") auto

declare deliver_from.simps [simp del]

text \<open>A statement after the deadline fails; the cancelled branch uses a context of its own.\<close>

definition mark_status :: "webhook_env \<Rightarrow> bool \<Rightarrow> string \<Rightarrow> string \<Rightarrow> jobs \<Rightarrow> jobs" where
  "mark_status E alive i status rows = (if wh_db_ok E \<and> alive then update_callback_status i status rows else rows)"

definition deliver :: "webhook_env \<Rightarrow> webhook_call \<Rightarrow> jobs \<Rightarrow> callback_request list \<times> jobs" where
  "deliver E c rows =
     (if wc_url c = [] then ([], rows)
      else case wh_json E c of
        Inl m \<Rightarrow> ([], mark_status E True (wc_job c) ''callback_failed'' rows)
      | Inr body \<Rightarrow>
          (case deliver_from E (wc_url c) body (sign_webhook (wh_mac E) (wh_secret E) body) 1 1000 0 of
             (d, t, rs) \<Rightarrow>
               (rs, mark_status E (d = Canceled \<or> t < delivery_timeout) (wc_job c)
                      (if d = Delivered then ''sent'' else ''callback_failed'') rows)))"

section \<open>What a delivery amounts to\<close>

text \<open>The endpoint accepts the n-th request: a 2xx status arrives within the time-out.\<close>

definition accepts :: "webhook_env \<Rightarrow> nat \<Rightarrow> bool" where
  "accepts E n \<longleftrightarrow> reply_accepted (wh_reply E n) \<and> wh_headers E n < request_timeout"

text \<open>Until which attempt requests are made, and whether the last one was accepted.\<close>

definition delivery_spec :: "webhook_env \<Rightarrow> nat \<Rightarrow> delivery \<times> nat" where
  "delivery_spec E first =
     (case find (accepts E) [first..<Suc max_retries] of
        Some n \<Rightarrow> (Delivered, Suc n - first)
      | None \<Rightarrow> (Exhausted, Suc max_retries - first))"

lemma send_callback_ok:
  assumes "wh_request_ok E url" and "elapsed + request_timeout \<le> delivery_timeout"
  shows "\<exists>t \<le> elapsed + request_timeout. send_callback E url body sg n elapsed =
    (accepts E n, t, [\<lparr>cq_url = url, cq_body = body, cq_signature = sg\<rparr>])"
proof -
  have "min request_timeout (delivery_timeout - elapsed) = request_timeout" "elapsed < delivery_timeout"
    using assms(2) by (simp_all add: request_timeout_def delivery_timeout_def)
  then show ?thesis using assms(1)
    by (auto simp: send_callback_def accepts_def Let_def)
qed

lemma find_upt_Some:
  assumes "find P [a..<b] = Some n"
  shows "a \<le> n \<and> n < b \<and> P n \<and> (\<forall>k. a \<le> k \<and> k < n \<longrightarrow> \<not> P k)"
proof -
  obtain i where i: "i < b - a" "n = a + i" "P n" "\<And>j. j < i \<Longrightarrow> \<not> P (a + j)"
    using assms by (auto simp: find_Some_iff)
  have "\<not> P k" if "a \<le> k" "k < n" for k
    using i(4) [of "k - a"] i(2) that by simp
  with i(1-3) show ?thesis by auto
qed

lemma delivery_spec_step:
  assumes "n \<le> max_retries"
  shows "accepts E n \<Longrightarrow> delivery_spec E n = (Delivered, 1)"
    "\<not> accepts E n \<Longrightarrow> delivery_spec E n = map_prod id Suc (delivery_spec E (Suc n))"
proof -
  have l: "[n..<Suc max_retries] = n # [Suc n..<Suc max_retries]" using assms by (simp add: upt_conv_Cons)
  show "delivery_spec E n = (Delivered, 1)" if "accepts E n"
    using that unfolding delivery_spec_def l by simp
  show "delivery_spec E n = map_prod id Suc (delivery_spec E (Suc n))" if "\<not> accepts E n"
  proof (cases "find (accepts E) [Suc n..<Suc max_retries]")
    case None
    then show ?thesis using that assms unfolding delivery_spec_def l by (simp add: Suc_diff_le)
  next
    case (Some m)
    have "Suc n \<le> m" using find_upt_Some [OF Some] by simp
    then show ?thesis using that Some unfolding delivery_spec_def l by (simp add: Suc_diff_le)
  qed
qed

text \<open>
  With the pauses of 1, 2, 4 and 8 seconds and five time-outs of ten seconds, a delivery lasts at most 65
  seconds: the deadline of five minutes is never met.
\<close>

lemma deliver_from_spec:
  assumes "wh_request_ok E url" and "n \<le> max_retries"
    and "elapsed + (Suc max_retries - n) * request_timeout + backoff * (2 ^ (max_retries - n) - 1) \<le> 65000"
  shows "\<exists>t \<le> 65000. deliver_from E url body sg n backoff elapsed =
    (fst (delivery_spec E n), t,
     replicate (snd (delivery_spec E n)) \<lparr>cq_url = url, cq_body = body, cq_signature = sg\<rparr>)"
  using assms(2,3)
proof (induction "max_retries - n" arbitrary: n backoff elapsed)
  case 0
  then have n: "n = max_retries" by simp
  obtain t where t: "t \<le> elapsed + request_timeout" "send_callback E url body sg n elapsed =
      (accepts E n, t, [\<lparr>cq_url = url, cq_body = body, cq_signature = sg\<rparr>])"
    using send_callback_ok [OF assms(1), of elapsed body sg n] 0 n
    by (auto simp: request_timeout_def delivery_timeout_def)
  then show ?case using 0 n
    by (subst deliver_from.simps) (auto simp: delivery_spec_def request_timeout_def)
next
  case (Suc k)
  have n: "n < max_retries" "k = max_retries - Suc n" using Suc.hyps(2) by simp_all
  have p: "(2::nat) ^ (max_retries - n) = 2 * 2 ^ k" using Suc.hyps(2) by (metis power_Suc)
  have q: "Suc max_retries - n = Suc (Suc k)" using n by simp
  have e: "elapsed + Suc (Suc k) * request_timeout + backoff * (2 * 2 ^ k - 1) \<le> 65000"
    using Suc.prems(2) unfolding p q .
  obtain t where t: "t \<le> elapsed + request_timeout" "send_callback E url body sg n elapsed =
      (accepts E n, t, [\<lparr>cq_url = url, cq_body = body, cq_signature = sg\<rparr>])"
    using send_callback_ok [OF assms(1), of elapsed body sg n] e
    by (auto simp: request_timeout_def delivery_timeout_def)
  show ?case
  proof (cases "accepts E n")
    case True
    with t n e show ?thesis
      by (subst deliver_from.simps) (auto simp: delivery_spec_step)
  next
    case False
    obtain m where "(2::nat) ^ k = Suc m" by (metis not0_implies_Suc power_not_zero zero_neq_numeral)
    then have b: "backoff * (2 * 2 ^ k - 1) = backoff + 2 * backoff * (2 ^ k - 1)"
      by (simp add: algebra_simps)
    have e': "t + backoff + Suc k * request_timeout + 2 * backoff * (2 ^ k - 1) \<le> 65000"
      using e t(1) unfolding b by simp
    have k: "max_retries - Suc n = k" "Suc max_retries - Suc n = Suc k" using n by simp_all
    obtain t' where t': "t' \<le> 65000" "deliver_from E url body sg (Suc n) (2 * backoff) (t + backoff) =
      (fst (delivery_spec E (Suc n)), t',
       replicate (snd (delivery_spec E (Suc n))) \<lparr>cq_url = url, cq_body = body, cq_signature = sg\<rparr>)"
      using Suc.hyps(1) [OF n(2), of "t + backoff" "2 * backoff"] n(1) e' unfolding k by auto
    have "\<not> t + backoff \<ge> delivery_timeout" using e' by (simp add: delivery_timeout_def)
    with t t' n(1) False show ?thesis
      by (subst deliver_from.simps) (auto simp: delivery_spec_step)
  qed
qed

lemma no_request: "\<not> wh_request_ok E url \<Longrightarrow> send_callback E url body sg n elapsed = (False, elapsed, [])"
  by (simp add: send_callback_def)

lemma deliver_from_no_request:
  "\<not> wh_request_ok E url \<Longrightarrow> deliver_from E url body sg 1 1000 0 = (Exhausted, 15000, [])"
  by (simp add: deliver_from.simps no_request max_retries_def delivery_timeout_def)

text \<open>
  C22. A callback is never given up early and never sent without end. Whatever the endpoint does,
  a delivery makes the requests of the specification: all the same, up to and including the first one
  accepted, five at most; each carries a signature of its body that the receiver can verify; and the
  row says \<open>sent\<close> exactly when one was accepted, \<open>callback_failed\<close> otherwise.
\<close>

theorem webhook_delivery_outcome:
  assumes "wc_url c \<noteq> []" and "wh_json E c = Inr body" and "wh_request_ok E (wc_url c)"
  shows "\<exists>sg n. verify_webhook (wh_mac E) (wh_secret E) sg body \<and> 1 \<le> n \<and> n \<le> 5 \<and>
    fst (deliver E c rows) = replicate n \<lparr>cq_url = wc_url c, cq_body = body, cq_signature = sg\<rparr> \<and>
    (\<forall>k. 1 \<le> k \<and> k < n \<longrightarrow> \<not> accepts E k) \<and> (n < 5 \<longrightarrow> accepts E n) \<and>
    (wh_db_ok E \<longrightarrow> snd (deliver E c rows) =
       update_callback_status (wc_job c) (if accepts E n then ''sent'' else ''callback_failed'') rows)"
proof -
  let ?sg = "sign_webhook (wh_mac E) (wh_secret E) body"
  let ?rq = "\<lparr>cq_url = wc_url c, cq_body = body, cq_signature = ?sg\<rparr>"
  obtain t where t: "t \<le> 65000" and d: "deliver_from E (wc_url c) body ?sg 1 1000 0 =
      (fst (delivery_spec E 1), t, replicate (snd (delivery_spec E 1)) ?rq)"
    using deliver_from_spec [OF assms(3), of 1 0 1000 body ?sg]
    by (auto simp: max_retries_def request_timeout_def)
  have alive: "t < delivery_timeout" using t by (simp add: delivery_timeout_def)
  have D: "deliver E c rows = (replicate (snd (delivery_spec E 1)) ?rq,
      mark_status E True (wc_job c) (if fst (delivery_spec E 1) = Delivered then ''sent'' else ''callback_failed'') rows)"
    using assms(1,2) d alive by (simp add: deliver_def)
  have v: "verify_webhook (wh_mac E) (wh_secret E) ?sg body" by (simp add: verify_webhook_def)
  show ?thesis
  proof (cases "find (accepts E) [1..<Suc max_retries]")
    case None
    then have "\<not> accepts E k" if "1 \<le> k" "k \<le> 5" for k
      using that by (auto simp: find_None_iff max_retries_def simp del: upt_Suc)
    moreover have "delivery_spec E 1 = (Exhausted, 5)"
      unfolding delivery_spec_def None by (simp add: max_retries_def)
    ultimately show ?thesis using v by (intro exI [of _ ?sg] exI [of _ 5]) (simp add: D mark_status_def)
  next
    case (Some n)
    note n = find_upt_Some [OF Some]
    have "delivery_spec E 1 = (Delivered, n)" unfolding delivery_spec_def Some by simp
    then show ?thesis using v n
      by (intro exI [of _ ?sg] exI [of _ n]) (simp add: D mark_status_def max_retries_def)
  qed
qed

text \<open>
  C23. A delivery always ends, within 65 seconds and after at most five requests: the deadline of five
  minutes never cuts it short.
\<close>

theorem webhook_delivery_in_time:
  "case deliver_from E url body sg 1 1000 0 of (d, t, rs) \<Rightarrow> d \<noteq> Canceled \<and> t \<le> 65000 \<and> length rs \<le> 5"
proof (cases "wh_request_ok E url")
  case True
  have "fst (delivery_spec E 1) \<noteq> Canceled \<and> snd (delivery_spec E 1) \<le> 5"
    using find_upt_Some [of "accepts E" 1 "Suc max_retries"]
    by (auto simp: delivery_spec_def max_retries_def simp del: upt_Suc split: option.split)
  moreover obtain t where "t \<le> 65000" "deliver_from E url body sg 1 1000 0 =
      (fst (delivery_spec E 1), t,
       replicate (snd (delivery_spec E 1)) \<lparr>cq_url = url, cq_body = body, cq_signature = sg\<rparr>)"
    using deliver_from_spec [OF True, of 1 0 1000 body sg] by (auto simp: max_retries_def request_timeout_def)
  ultimately show ?thesis by simp
qed (use deliver_from_no_request [of E url body sg] in simp)

definition demo_webhook_env :: webhook_env where
  "demo_webhook_env =
     \<lparr>wh_mac = (\<lambda>k m. m @ k), wh_secret = ''s'', wh_request_ok = (\<lambda>u. True),
      wh_reply = (\<lambda>n. Reply (if n = 2 then 204 else 500)), wh_headers = (\<lambda>n. 20), wh_body = (\<lambda>n. 0),
      wh_json = (\<lambda>c. Inr ''{}''), wh_db_ok = True\<rparr>"

definition demo_call :: webhook_call where
  "demo_call = \<lparr>wc_job = ''j1'', wc_url = ''http://app/cb'', wc_type = type_video_cover, wc_hash = ''h'',
     wc_status = ''completed'', wc_error = [], wc_results = None\<rparr>"

theorem webhook_delivery_outcome_witness:
  "length (fst (deliver demo_webhook_env demo_call [])) = 2"
proof -
  have "wc_url demo_call \<noteq> []" "wh_json demo_webhook_env demo_call = Inr ''{}''"
    "wh_request_ok demo_webhook_env (wc_url demo_call)"
    by (simp_all add: demo_call_def demo_webhook_env_def)
  from webhook_delivery_outcome [OF this, of "[]"] obtain sg n where n: "1 \<le> n" "n \<le> 5"
    "fst (deliver demo_webhook_env demo_call []) =
       replicate n \<lparr>cq_url = wc_url demo_call, cq_body = ''{}'', cq_signature = sg\<rparr>"
    "\<And>k. 1 \<le> k \<Longrightarrow> k < n \<Longrightarrow> \<not> accepts demo_webhook_env k" "n < 5 \<Longrightarrow> accepts demo_webhook_env n" by blast
  have a: "accepts demo_webhook_env k \<longleftrightarrow> k = 2" for k
    by (simp add: accepts_def demo_webhook_env_def reply_accepted_def request_timeout_def)
  have "n = 2" using n(1,2,5) n(4) [of 2] unfolding a by (cases "n < 5") auto
  with n(3) show ?thesis by simp
qed

end
