(* ===== verification/JobSystem.thy ===== *)
theory JobSystem
  imports FullWorkflow AudioWorkflow Cleanup Webhook
begin

text \<open>
  The job endpoints, the workers and the cleanup on one state, as a step relation: requests, retries,
  runs of queued tasks, deliveries of the webhook calls they started, and cleanups in any order, with any
  faults. The ids asynq gives to new tasks are fresh. A task can run again after it failed, as asynq does
  until its retries are used up; the parameter \<open>rerun\<close> switches this off.
\<close>

section \<open>The system\<close>

record system =
  sy_jobs :: job_state
  sy_media :: "string \<Rightarrow> object option"
  sy_keys :: "key_row list"
  sy_calls :: "webhook_call list"

definition worker_part :: "system \<Rightarrow> worker_state" where
  "worker_part s =
     \<lparr>wk_rows = js_rows (sy_jobs s), wk_media = sy_media s, wk_keys = sy_keys s, wk_calls = sy_calls s\<rparr>"

definition set_worker_part :: "worker_state \<Rightarrow> system \<Rightarrow> system" where
  "set_worker_part w s =
     s\<lparr>sy_jobs := (sy_jobs s)\<lparr>js_rows := wk_rows w\<rparr>, sy_media := wk_media w, sy_keys := wk_keys w, sy_calls := wk_calls w\<rparr>"

definition task_ids :: "system \<Rightarrow> string set" where
  "task_ids s = tk_id ` set (js_tasks (sy_jobs s))"

inductive sys_step :: "job_env \<Rightarrow> bool \<Rightarrow> system \<Rightarrow> system \<Rightarrow> bool" for E :: job_env and rerun :: bool where
  Create: "i \<notin> task_ids s \<Longrightarrow> create_request E F i r (sy_jobs s) = (res, js') \<Longrightarrow> sys_step E rerun s (s\<lparr>sy_jobs := js'\<rparr>)"
| Retry: "range (fst \<circ> draws) \<inter> task_ids s = {} \<Longrightarrow> inj (fst \<circ> draws) \<Longrightarrow>
    retry_job E draws ok k (sy_jobs s) = (res2, js') \<Longrightarrow> sys_step E rerun s (s\<lparr>sy_jobs := js'\<rparr>)"
| Work: "t \<in> set (js_tasks (sy_jobs s)) \<Longrightarrow>
    rerun \<or> (\<forall>x \<in> set (js_rows (sy_jobs s)). j_id x = tk_id t \<longrightarrow> is_active x) \<Longrightarrow>
    run_payload W (T :: unit image_tools) (tk_id t) (tk_payload t) (worker_part s) = (err, w) \<Longrightarrow>
    sys_step E rerun s (set_worker_part w s)"
| Deliver: "sy_calls s = cs @ c # cs' \<Longrightarrow> deliver H c (js_rows (sy_jobs s)) = (sent, rows) \<Longrightarrow>
    sys_step E rerun s (s\<lparr>sy_jobs := (sy_jobs s)\<lparr>js_rows := rows\<rparr>, sy_calls := cs @ cs'\<rparr>)"
| Clean: "cl_jobs cl = js_rows (sy_jobs s) \<Longrightarrow> cl_keys cl = sy_keys s \<Longrightarrow>
    cleanup_handle C insp h cl = (answer, cl') \<Longrightarrow> set (cl_objects cl) = dom (sy_media s) \<Longrightarrow>
    sys_step E rerun s (s\<lparr>sy_jobs := (sy_jobs s)\<lparr>js_rows := cl_jobs cl'\<rparr>, sy_keys := cl_keys cl',
      sy_media := (\<lambda>k. if k \<in> set (cl_objects cl') then sy_media s k else None)\<rparr>)"

definition sys_init :: system where
  "sys_init = \<lparr>sy_jobs = \<lparr>js_rows = [], js_tasks = []\<rparr>, sy_media = (\<lambda>k. None), sy_keys = [], sy_calls = []\<rparr>"

inductive sys_reachable :: "job_env \<Rightarrow> bool \<Rightarrow> system \<Rightarrow> bool" for E :: job_env and rerun :: bool where
  Init: "sys_reachable E rerun sys_init"
| Step: "sys_reachable E rerun s \<Longrightarrow> sys_step E rerun s s' \<Longrightarrow> sys_reachable E rerun s'"

section \<open>Rows and tasks agree\<close>

definition row_ok :: "job_row \<Rightarrow> bool" where
  "row_ok x \<longleftrightarrow>
     j_status x \<in> {''queued'', ''processing'', ''completed'', ''failed''} \<and> 0 \<le> j_progress x \<and> j_progress x \<le> 100 \<and>
     pred_option (\<lambda>r. results_type r = j_type x) (j_results x) \<and>
     j_callback_status x \<in> {''pending'', ''sent'', ''callback_failed''} \<and>
     (j_status x = ''completed'' \<longrightarrow> j_results x \<noteq> None \<and> j_error x = None) \<and>
     (j_status x = ''failed'' \<longrightarrow> j_error x \<noteq> None)"

definition row_matches :: "task \<Rightarrow> job_row \<Rightarrow> bool" where
  "row_matches t x \<longleftrightarrow>
     tk_id t = j_id x \<and> payload_type (tk_payload t) = j_type x \<and>
     payload_request (tk_payload t) = (j_hash x, j_source x, j_callback_url x)"

text \<open>
  Ids are unique; every row has its task; retries refer to rows that are there; a row is well typed: one
  of four statuses, a progress in percent, results of its type, one of three callback statuses; a
  completed row has results and no error, a failed one has an error.
\<close>

definition jobs_inv :: "job_state \<Rightarrow> bool" where
  "jobs_inv st \<longleftrightarrow>
     distinct (map tk_id (js_tasks st)) \<and> distinct (map j_id (js_rows st)) \<and>
     (\<forall>x \<in> set (js_rows st). row_ok x \<and> (\<exists>t \<in> set (js_tasks st). row_matches t x)) \<and>
     (\<forall>x \<in> set (js_rows st). \<forall>k. j_retry_of x = Some k \<longrightarrow> k \<in> j_id ` set (js_rows st))"

lemma jobs_invD:
  assumes "jobs_inv st"
  shows "distinct (map tk_id (js_tasks st))" "distinct (map j_id (js_rows st))"
    "x \<in> set (js_rows st) \<Longrightarrow> row_ok x" "x \<in> set (js_rows st) \<Longrightarrow> \<exists>t \<in> set (js_tasks st). row_matches t x"
    "x \<in> set (js_rows st) \<Longrightarrow> j_retry_of x = Some k \<Longrightarrow> k \<in> j_id ` set (js_rows st)"
  using assms by (auto simp: jobs_inv_def)

lemma jobs_invI:
  assumes "js_tasks st = ts" "js_rows st = rows" "distinct (map tk_id ts)" "distinct (map j_id rows)"
    "\<And>x. x \<in> set rows \<Longrightarrow> row_ok x" "\<And>x. x \<in> set rows \<Longrightarrow> \<exists>t \<in> set ts. row_matches t x"
    "\<And>x k. x \<in> set rows \<Longrightarrow> j_retry_of x = Some k \<Longrightarrow> k \<in> j_id ` set rows"
  shows "jobs_inv st"
  using assms unfolding jobs_inv_def by blast

lemma create_job_Some:
  "create_job p rows = Some rows' \<Longrightarrow>
     rows' = rows @ [row_of_params p] \<and> cj_id p \<notin> j_id ` set rows \<and>
     (case cj_retry_of p of None \<Rightarrow> True | Some k \<Rightarrow> k \<in> j_id ` set rows)"
  by (auto simp: create_job_def split: if_splits option.splits)

lemma enqueue_new_inv:
  assumes "jobs_inv st" and "i \<notin> tk_id ` set (js_tasks st)" and "enqueue_new E F i r fp ro st = (res, st')"
  shows "jobs_inv st' \<and> tk_id ` set (js_tasks st') \<subseteq> insert i (tk_id ` set (js_tasks st))"
proof (cases res)
  case (Inl e)
  then show ?thesis using enqueue_new_Inl assms by blast
next
  case (Inr info)
  obtain n p where p: "build_payload r = Inr p" and t: "js_tasks st' = js_tasks st @ [enqueue i n (je_large E) p]"
    and rows: "js_rows st' = (case (if jf_insert_ok F then create_job (job_params i r fp ro) (js_rows st) else None) of
                      Some rows' \<Rightarrow> rows' | None \<Rightarrow> js_rows st)"
    by (rule enqueue_new_Inr [OF assms(3) [unfolded Inr]])
  let ?x = "row_of_params (job_params i r fp ro)"
  consider "js_rows st' = js_rows st"
    | "create_job (job_params i r fp ro) (js_rows st) = Some (js_rows st')"
    using rows by (auto split: option.splits if_splits)
  then have "jobs_inv st'"
  proof cases
    case 1
    then show ?thesis using assms(1,2) t by (auto simp: jobs_inv_def)
  next
    case 2
    note c = create_job_Some [OF 2]
    have m: "row_matches (enqueue i n (je_large E) p) ?x"
      using build_payload_ok [OF p] by (simp add: row_matches_def)
    have "row_ok ?x" by (simp add: row_ok_def)
    moreover have "k \<in> j_id ` set (js_rows st')" if "j_retry_of ?x = Some k" for k
      using that c by (auto split: option.splits)
    ultimately show ?thesis
      using assms(1,2) t c m by (auto simp: jobs_inv_def split: option.splits)
  qed
  then show ?thesis using t by auto
qed

lemma create_or_reuse_inv:
  assumes "jobs_inv st" and "i \<notin> tk_id ` set (js_tasks st)" and "create_or_reuse_job E F i r fp ro st = (res, st')"
  shows "jobs_inv st' \<and> tk_id ` set (js_tasks st') \<subseteq> insert i (tk_id ` set (js_tasks st))"
  using assms enqueue_new_inv [OF assms(1,2)]
  by (auto simp: create_or_reuse_job_def split: if_splits option.splits)

text \<open>Creating and retrying end in \<open>create_or_reuse_job\<close>; what it keeps they keep.\<close>

lemma create_request_via:
  assumes "create_request E F i r st = (res, st')" and "I st"
    and "\<And>F r ro res st'. create_or_reuse_job E F i r (request_fingerprint E r) ro st = (res, st') \<Longrightarrow> I st'"
  shows "I st'"
  using assms
  by (auto simp: create_request_def Let_def split: sum.splits if_splits option.splits prod.splits)

lemma retry_create_via:
  assumes "retry_create E draws src rs st = (res, st')" and "I draws st"
    and "\<And>ds r s res s'. I ds s \<Longrightarrow>
      create_or_reuse_job E (snd (ds 0)) (fst (ds 0)) r (request_fingerprint E r) src s = (res, s') \<Longrightarrow> I (\<lambda>n. ds (Suc n)) s'"
  shows "\<exists>ds. I ds st'"
  using assms(1,2)
proof (induction rs arbitrary: draws st res st')
  case Nil
  then show ?case by auto
next
  case (Cons r0 rs)
  show ?case
  proof (cases "canonicalize_request r0")
    case (Inl e)
    with Cons.prems show ?thesis by auto
  next
    case (Inr r)
    obtain res1 st1 where c: "create_or_reuse_job E (snd (draws 0)) (fst (draws 0)) r (request_fingerprint E r) src st = (res1, st1)"
      by (metis prod.exhaust)
    have i: "I (\<lambda>n. draws (Suc n)) st1" by (rule assms(3) [OF Cons.prems(2) c])
    show ?thesis
    proof (cases res1)
      case Inl2: (Inl e)
      with Cons.prems(1) Inr c i show ?thesis by auto
    next
      case Inr2: (Inr info)
      obtain res2 st2 where r: "retry_create E (\<lambda>n. draws (Suc n)) src rs st1 = (res2, st2)" by (metis prod.exhaust)
      have "st' = st2" using Cons.prems(1) Inr c Inr2 r by (auto split: sum.splits)
      with Cons.IH [OF r i] show ?thesis by simp
    qed
  qed
qed

lemma retry_job_via:
  assumes "retry_job E draws ok k st = (res, st')" and "I draws st"
    and "\<And>ds src r s res s'. I ds s \<Longrightarrow>
      create_or_reuse_job E (snd (ds 0)) (fst (ds 0)) r (request_fingerprint E r) src s = (res, s') \<Longrightarrow> I (\<lambda>n. ds (Suc n)) s'"
  shows "\<exists>ds. I ds st'"
proof -
  consider "st' = st" | src rs res2 where "retry_create E draws src rs st = (res2, st')"
    using assms(1) by (auto simp: retry_job_def split: if_splits option.splits sum.splits prod.splits)
  then show ?thesis
  proof cases
    case 2
    show ?thesis by (rule retry_create_via [OF 2, of I]) (fact assms(2), rule assms(3))
  qed (use assms(2) in blast)
qed

lemma row_ok_update: "worker_update (j_type x) f \<Longrightarrow> row_ok x \<Longrightarrow> row_ok (f x)"
  by (induction rule: worker_update.induct) (simp_all add: row_ok_def)

definition rows_ok :: "string \<Rightarrow> string \<Rightarrow> worker_state \<Rightarrow> bool" where
  "rows_ok i ty st = list_all (\<lambda>x. row_ok x \<and> (j_id x = i \<longrightarrow> j_type x = ty)) (wk_rows st)"

interpretation ok: worker_inv "rows_ok i ty" W i h ty for i ty W h
proof unfold_locales
  fix st f assume "rows_ok i ty st" and f: "worker_update ty f"
  moreover have "row_ok (f x)" if "row_ok x" "j_type x = ty" for x
    using row_ok_update [of x f] that f by simp
  moreover have "j_type (f x) = j_type x" for x
    using worker_update_columns [OF f] by (simp add: status_update_def)
  ultimately show "rows_ok i ty (st\<lparr>wk_rows := update_job i f (wk_rows st)\<rparr>)"
    by (auto simp: rows_ok_def list_all_iff update_job_def)
qed (simp_all add: rows_ok_def)

text \<open>A status update keeps the columns the agreement speaks about.\<close>

lemma jobs_inv_update:
  assumes "jobs_inv js" and f: "status_update f" "rows = update_job i f (js_rows js)"
    and "\<And>x. x \<in> set rows \<Longrightarrow> row_ok x"
  shows "jobs_inv (js\<lparr>js_rows := rows\<rparr>)"
proof -
  have ids: "map j_id rows = map j_id (js_rows js)" using f by (simp add: status_update_def)
  then have ids': "j_id ` set rows = j_id ` set (js_rows js)" by (metis set_map)
  have old: "\<exists>y \<in> set (js_rows js). j_retry_of x = j_retry_of y \<and> (\<forall>t. row_matches t x = row_matches t y)"
    if "x \<in> set rows" for x
    using that f by (auto simp: update_job_def status_update_def row_matches_def split: if_splits)
  show ?thesis
  proof (rule jobs_invI [of _ "js_tasks js" "rows"])
    show "distinct (map tk_id (js_tasks js))" by (rule jobs_invD(1) [OF assms(1)])
    show "distinct (map j_id rows)" unfolding ids by (rule jobs_invD(2) [OF assms(1)])
    show "row_ok x" if "x \<in> set rows" for x by (rule assms(4) [OF that])
    show "\<exists>t \<in> set (js_tasks js). row_matches t x" if "x \<in> set rows" for x
      using old [OF that] jobs_invD(4) [OF assms(1)] by blast
    show "k \<in> j_id ` set rows" if x: "x \<in> set rows" "j_retry_of x = Some k" for x k
    proof -
      obtain y where "y \<in> set (js_rows js)" "j_retry_of x = j_retry_of y" using old [OF x(1)] by blast
      with x(2) jobs_invD(5) [OF assms(1)] ids' show ?thesis by simp
    qed
  qed simp_all
qed

lemma deliver_rows:
  "\<exists>f. status_update f \<and> snd (deliver H c rows) = update_job (wc_job c) f rows \<and> (\<forall>x. row_ok x \<longrightarrow> row_ok (f x)) \<and>
     (\<forall>x. is_active (f x) = is_active x)"
proof -
  have keep: "\<exists>f. status_update f \<and> mark_status H alive i st rows = update_job i f rows \<and> (\<forall>x. row_ok x \<longrightarrow> row_ok (f x)) \<and>
     (\<forall>x. is_active (f x) = is_active x)" if "st \<in> {''sent'', ''callback_failed''}" for alive i st
  proof (cases "wh_db_ok H \<and> alive")
    case True
    with that show ?thesis
      by (intro exI [of _ "\<lambda>r. r\<lparr>j_callback_status := st\<rparr>"])
        (auto simp: mark_status_def update_callback_status_def status_update_def row_ok_def is_active_def)
  next
    case False
    then show ?thesis by (intro exI [of _ "\<lambda>r. r"]) (auto simp: mark_status_def status_update_def)
  qed
  show ?thesis
  proof (cases "wc_url c = []")
    case True
    then show ?thesis by (intro exI [of _ "\<lambda>r. r"]) (simp add: deliver_def status_update_def)
  next
    case False
    have "\<exists>alive st. st \<in> {''sent'', ''callback_failed''} \<and> snd (deliver H c rows) = mark_status H alive (wc_job c) st rows"
      using False by (auto simp: deliver_def split: sum.split prod.split)
    with keep show ?thesis by metis
  qed
qed

lemma jobs_inv_delete:
  assumes "jobs_inv js"
  shows "jobs_inv (js\<lparr>js_rows := delete_jobs_by_hash h (js_rows js)\<rparr>)"
proof -
  let ?gone = "j_id ` set (list_jobs_by_hash h (js_rows js))"
  let ?f = "\<lambda>r. if (case j_retry_of r of None \<Rightarrow> False | Some i \<Rightarrow> i \<in> ?gone) then r\<lparr>j_retry_of := None\<rparr> else r"
  have rows: "delete_jobs_by_hash h (js_rows js) = map ?f (filter (\<lambda>r. j_hash r \<noteq> h) (js_rows js))"
    by (simp add: delete_jobs_by_hash_def Let_def)
  have cols: "j_id (?f r) = j_id r" "row_ok (?f r) = row_ok r" "row_matches t (?f r) = row_matches t r" for r t
    by (simp_all add: row_ok_def row_matches_def)
  have "map j_id (delete_jobs_by_hash h (js_rows js)) = map j_id (filter (\<lambda>r. j_hash r \<noteq> h) (js_rows js))"
    by (simp add: rows comp_def cols(1))
  then have dist: "distinct (map j_id (delete_jobs_by_hash h (js_rows js)))"
    using jobs_invD(2) [OF assms] by (simp add: distinct_map_filter)
  have rowsok: "row_ok x \<and> (\<exists>t \<in> set (js_tasks js). row_matches t x)"
    if x: "x \<in> set (delete_jobs_by_hash h (js_rows js))" for x
  proof -
    from x obtain y where y: "y \<in> set (js_rows js)" "x = ?f y" unfolding rows by auto
    show ?thesis unfolding y(2) cols using jobs_invD(3,4) [OF assms y(1)] by blast
  qed
  have refs: "k \<in> j_id ` set (delete_jobs_by_hash h (js_rows js))"
    if x: "x \<in> set (delete_jobs_by_hash h (js_rows js))" "j_retry_of x = Some k" for x k
  proof -
    from x(1) obtain y where y: "y \<in> set (js_rows js)" "x = ?f y" unfolding rows by auto
    with x(2) have k: "j_retry_of y = Some k" "k \<notin> ?gone" by (auto split: if_splits option.splits)
    with y jobs_invD(5) [OF assms] obtain z where "z \<in> set (js_rows js)" "j_id z = k" by force
    with k(2) have "z \<in> set (filter (\<lambda>r. j_hash r \<noteq> h) (js_rows js))" by (auto simp: list_jobs_by_hash_def)
    then have "?f z \<in> set (delete_jobs_by_hash h (js_rows js))" unfolding rows set_map by (rule imageI)
    from imageI [OF this, of j_id] show ?thesis unfolding cols \<open>j_id z = k\<close> .
  qed
  show ?thesis
    by (rule jobs_invI [of _ "js_tasks js" "delete_jobs_by_hash h (js_rows js)"])
      (simp, simp, fact jobs_invD(1) [OF assms], fact dist, (use rowsok refs in blast)+)
qed

lemma cleanup_jobs:
  assumes "cleanup_handle C insp h c = (answer, c')"
  shows "cl_jobs c' = cl_jobs c \<or> cl_jobs c' = delete_jobs_by_hash h (cl_jobs c)"
proof -
  have "cl_jobs (snd (delete_jobs C h (snd (delete_encryption_key C h (clean_critical C insp h c))))) \<in>
      {cl_jobs c, delete_jobs_by_hash h (cl_jobs c)}"
    by (simp add: delete_jobs_def split: option.split)
  moreover have "c' \<in> {c, clean_critical C insp h c,
      snd (delete_jobs C h (snd (delete_encryption_key C h (clean_critical C insp h c))))}"
    using assms cleanup_cases [of C insp h c] by (auto simp: cleanup_handle_def split_beta split: if_splits)
  ultimately show ?thesis by auto
qed

definition draws_inv :: "(nat \<Rightarrow> string \<times> job_faults) \<Rightarrow> job_state \<Rightarrow> bool" where
  "draws_inv ds st \<longleftrightarrow> jobs_inv st \<and> inj (fst \<circ> ds) \<and> range (fst \<circ> ds) \<inter> tk_id ` set (js_tasks st) = {}"

lemma create_or_reuse_draws:
  assumes "draws_inv ds st" and "create_or_reuse_job E F (fst (ds 0)) r fp ro st = (res, st')"
  shows "draws_inv (\<lambda>n. ds (Suc n)) st'"
proof -
  have d: "inj (fst \<circ> ds)" "range (fst \<circ> ds) \<inter> tk_id ` set (js_tasks st) = {}" "jobs_inv st"
    using assms(1) by (simp_all add: draws_inv_def)
  have "fst (ds 0) \<notin> tk_id ` set (js_tasks st)" using d(2) by (metis comp_apply disjoint_iff rangeI)
  note j = create_or_reuse_inv [OF d(3) this assms(2)]
  have new: "fst (ds (Suc n)) \<noteq> fst (ds 0)" for n
    using injD [OF d(1), of "Suc n" 0] by auto
  have "fst (ds (Suc n)) \<notin> tk_id ` set (js_tasks st')" for n
  proof
    assume "fst (ds (Suc n)) \<in> tk_id ` set (js_tasks st')"
    with j new [of n] have "fst (ds (Suc n)) \<in> tk_id ` set (js_tasks st)" by blast
    moreover have "fst (ds (Suc n)) \<in> range (fst \<circ> ds)" by (metis comp_apply rangeI)
    ultimately show False using d(2) by blast
  qed
  then have "range (fst \<circ> (\<lambda>n. ds (Suc n))) \<inter> tk_id ` set (js_tasks st') = {}" by auto
  moreover have "inj (fst \<circ> (\<lambda>n. ds (Suc n)))"
    using d(1) by (auto simp: inj_def)
  ultimately show ?thesis using j by (simp add: draws_inv_def)
qed

lemma sys_step_inv:
  assumes "sys_step E rerun s s'" and "jobs_inv (sy_jobs s)"
  shows "jobs_inv (sy_jobs s')"
  using assms
proof (induction rule: sys_step.induct)
  case (Create i s F r res js')
  have "jobs_inv js'"
  proof (rule create_request_via [OF Create(2), of jobs_inv])
    show "jobs_inv (sy_jobs s)" by (rule Create(3))
    fix F r ro res st'
    assume "create_or_reuse_job E F i r (request_fingerprint E r) ro (sy_jobs s) = (res, st')"
    with Create(1,3) show "jobs_inv st'" using create_or_reuse_inv by (simp add: task_ids_def)
  qed
  then show ?case by simp
next
  case (Retry draws s ok k res2 js')
  have "draws_inv draws (sy_jobs s)" using Retry(1,2,4) by (simp add: draws_inv_def task_ids_def)
  then have "\<exists>ds. draws_inv ds js'"
    by (rule retry_job_via [OF Retry(3), of draws_inv]) (rule create_or_reuse_draws)
  then show ?case by (auto simp: draws_inv_def)
next
  case (Work t s W T err w)
  have w: "w = snd (run_payload W T (tk_id t) (tk_payload t) (worker_part s))" using Work(3) by simp
  have "worker_frame (worker_part s) (tk_id t) (payload_hash (tk_payload t)) w"
    unfolding w by (rule run_payload_frame)
  moreover have "rows_ok (tk_id t) (payload_type (tk_payload t)) w"
  proof -
    have "j_type x = payload_type (tk_payload t)" if x: "x \<in> set (js_rows (sy_jobs s))" "j_id x = tk_id t" for x
    proof -
      obtain t' where t': "t' \<in> set (js_tasks (sy_jobs s))" "row_matches t' x"
        using jobs_invD(4) [OF Work(4) x(1)] by blast
      with x(2) Work(1) jobs_invD(1) [OF Work(4)] have "t' = t"
        by (simp add: row_matches_def distinct_map inj_on_def)
      with t'(2) show ?thesis by (simp add: row_matches_def)
    qed
    then show ?thesis
      unfolding w using jobs_invD(3) [OF Work(4)]
      by (intro ok.run_payload_keeps [of _ _ _ "tk_payload t" "payload_hash (tk_payload t)"])
        (simp_all add: worker_part_def rows_ok_def list_all_iff)
  qed
  ultimately show ?case
    using jobs_inv_update [OF Work(4)]
    by (auto simp: worker_frame_def rows_ok_def list_all_iff set_worker_part_def worker_part_def)
next
  case (Deliver s cs c cs' H sent rows)
  obtain f where f: "status_update f" "rows = update_job (wc_job c) f (js_rows (sy_jobs s))"
    "\<And>x. row_ok x \<Longrightarrow> row_ok (f x)"
    using deliver_rows [of H c "js_rows (sy_jobs s)"] Deliver(2) by auto
  have "row_ok x" if "x \<in> set rows" for x
    using that f(2,3) jobs_invD(3) [OF Deliver(3)] by (auto simp: update_job_def)
  with jobs_inv_update [OF Deliver(3) f(1,2)] show ?case by simp
next
  case (Clean cl s C insp h answer cl')
  from cleanup_jobs [OF Clean(3)] Clean(1,5) jobs_inv_delete [OF Clean(5), of h] show ?case by auto
qed

lemma sys_reachable_inv: "sys_reachable E rerun s \<Longrightarrow> jobs_inv (sy_jobs s)"
proof (induction rule: sys_reachable.induct)
  case Init
  show ?case by (rule jobs_invI [of _ "[]" "[]"]) (simp_all add: sys_init_def)
next
  case (Step s s')
  show ?case by (rule sys_step_inv [OF Step(2,3)])
qed

lemma jobs_inv_agree:
  assumes "jobs_inv st" and "x \<in> set (js_rows st)"
  shows "get_job (j_id x) (js_rows st) = Some x \<and>
    (\<exists>!t. t \<in> set (js_tasks st) \<and> tk_id t = j_id x) \<and>
    (\<exists>t \<in> set (js_tasks st). row_matches t x) \<and>
    (\<forall>k. j_retry_of x = Some k \<longrightarrow> get_job k (js_rows st) \<noteq> None)"
proof -
  note i = jobs_invD [OF assms(1)]
  obtain t where t: "t \<in> set (js_tasks st)" "row_matches t x" using i(4) [OF assms(2)] by blast
  then have id: "tk_id t = j_id x" by (simp add: row_matches_def)
  have "\<exists>!t. t \<in> set (js_tasks st) \<and> tk_id t = j_id x"
  proof (rule ex1I [of _ t])
    show "u = t" if "u \<in> set (js_tasks st) \<and> tk_id u = j_id x" for u
      using that t(1) id i(1) by (simp add: distinct_map inj_on_def)
  qed (simp add: t(1) id)
  moreover have "get_job k (js_rows st) \<noteq> None" if k: "j_retry_of x = Some k" for k
  proof -
    obtain y where "y \<in> set (js_rows st)" "j_id y = k" using i(5) [OF assms(2) k] by force
    with get_job_unique [OF i(2), of y] show ?thesis by simp
  qed
  moreover have "\<exists>t \<in> set (js_tasks st). row_matches t x" using t by blast
  ultimately show ?thesis using get_job_unique [OF i(2) assms(2)] by simp
qed

text \<open>
  Whatever requests, retries, task runs (repeated or not), webhook deliveries and cleanups happen, in any order and with
  any faults, table and queues agree: ids are unique, every row has a queued task of its id and type
  for the same hash, source and callback, and retries refer to rows that exist.
\<close>

theorem reachable_jobs_agree:
  assumes "sys_reachable E rerun s" and "x \<in> set (js_rows (sy_jobs s))"
  shows "get_job (j_id x) (js_rows (sy_jobs s)) = Some x \<and>
    (\<exists>!t. t \<in> set (js_tasks (sy_jobs s)) \<and> tk_id t = j_id x) \<and>
    (\<exists>t \<in> set (js_tasks (sy_jobs s)). row_matches t x) \<and>
    (\<forall>k. j_retry_of x = Some k \<longrightarrow> get_job k (js_rows (sy_jobs s)) \<noteq> None)"
  by (rule jobs_inv_agree [OF sys_reachable_inv [OF assms(1)] assms(2)])

text \<open>
  C5. Rows are well typed in every such state: the status is one of four, the progress a percentage, the
  callback status one of three, and the results are of the kind the job type has. Completed rows have
  results and no error, failed rows have an error.
\<close>

theorem reachable_rows_typed:
  assumes "sys_reachable E rerun s" and "x \<in> set (js_rows (sy_jobs s))"
  shows "j_status x \<in> {''queued'', ''processing'', ''completed'', ''failed''} \<and> 0 \<le> j_progress x \<and> j_progress x \<le> 100 \<and>
    j_callback_status x \<in> {''pending'', ''sent'', ''callback_failed''} \<and>
    (\<forall>r. j_results x = Some r \<longrightarrow> results_type r = j_type x) \<and>
    (j_status x = ''completed'' \<longrightarrow> j_results x \<noteq> None \<and> j_error x = None) \<and>
    (j_status x = ''failed'' \<longrightarrow> j_error x \<noteq> None)"
  using jobs_invD(3) [OF sys_reachable_inv [OF assms(1)] assms(2)] by (auto simp: row_ok_def)

definition demo_row_queued :: job_row where
  "demo_row_queued = row_of_params (job_params ''j1'' demo_job_request (request_fingerprint demo_job_env demo_job_request) [])"

definition demo_system :: system where
  "demo_system = sys_init\<lparr>sy_jobs := \<lparr>js_rows = [demo_row_queued],
     js_tasks = [enqueue ''j1'' 10 100 (PTranscode ''h'' ''s.mov'' False [])]\<rparr>\<rparr>"

lemma demo_system_reachable: "sys_reachable demo_job_env rerun demo_system"
proof (rule sys_reachable.Step [OF sys_reachable.Init])
  have "create_request demo_job_env no_faults ''j1'' demo_job_request (sy_jobs sys_init) =
      (Inr (202, \<lparr>jr_id = Some ''j1'', jr_hash = ''h'', jr_status = ''queued'', jr_results = None\<rparr>), sy_jobs demo_system)"
    by (simp add: demo_create no_faults_def sys_init_def demo_system_def demo_row_queued_def)
  from sys_step.Create [OF _ this] show "sys_step demo_job_env rerun sys_init demo_system"
    by (simp add: task_ids_def sys_init_def demo_system_def)
qed

theorem reachable_jobs_agree_witness:
  "get_job ''j1'' (js_rows (sy_jobs demo_system)) = Some demo_row_queued"
proof -
  have "demo_row_queued \<in> set (js_rows (sy_jobs demo_system))" "j_id demo_row_queued = ''j1''"
    by (simp_all add: demo_system_def demo_row_queued_def)
  from reachable_jobs_agree [OF demo_system_reachable [of True] this(1)] this(2) show ?thesis by simp
qed

theorem reachable_rows_typed_witness:
  "j_status demo_row_queued \<in> {''queued'', ''processing'', ''completed'', ''failed''} \<and> j_progress demo_row_queued \<le> 100"
proof -
  have "demo_row_queued \<in> set (js_rows (sy_jobs demo_system))" by (simp add: demo_system_def demo_row_queued_def)
  from reachable_rows_typed [OF demo_system_reachable [of True] this] show ?thesis by simp
qed

section \<open>One live job per request\<close>

lemma create_or_reuse_ok:
  assumes "jobs_ok (js_rows st)" and "create_or_reuse_job E F i r fp ro st = (res, st')"
  shows "jobs_ok (js_rows st')"
proof (cases "js_rows st' = js_rows st")
  case False
  have n: "get_active_job fp (js_rows st) = None" and e: "enqueue_new E F i r fp ro st = (res, st')"
    using assms(2) False by (auto simp: create_or_reuse_job_def split: if_splits option.splits)
  obtain info where "res = Inr info" using e False enqueue_new_Inl by (cases res) blast+
  then obtain n' p where "js_rows st' = (case (if jf_insert_ok F then create_job (job_params i r fp ro) (js_rows st) else None) of
                      Some rows' \<Rightarrow> rows' | None \<Rightarrow> js_rows st)"
    using e by (metis enqueue_new_Inr)
  with False have "create_job (job_params i r fp ro) (js_rows st) = Some (js_rows st')"
    by (auto split: option.splits if_splits)
  from create_job_ok [OF assms(1) _ this] n show ?thesis by simp
qed (use assms(1) in simp)

lemma delete_jobs_ok:
  assumes "jobs_ok rows"
  shows "jobs_ok (delete_jobs_by_hash h rows)"
proof -
  let ?gone = "j_id ` set (list_jobs_by_hash h rows)"
  let ?f = "\<lambda>r. if (case j_retry_of r of None \<Rightarrow> False | Some i \<Rightarrow> i \<in> ?gone) then r\<lparr>j_retry_of := None\<rparr> else r"
  have rows: "delete_jobs_by_hash h rows = map ?f (filter (\<lambda>r. j_hash r \<noteq> h) rows)"
    by (simp add: delete_jobs_by_hash_def Let_def)
  have cols: "j_id (?f r) = j_id r" "is_active (?f r) = is_active r" "j_fingerprint (?f r) = j_fingerprint r" for r
    by (simp_all add: is_active_def)
  have "distinct (map j_id (filter (\<lambda>r. j_hash r \<noteq> h) rows))"
    using assms by (simp add: jobs_ok_def distinct_map_filter)
  moreover have "map j_id (delete_jobs_by_hash h rows) = map j_id (filter (\<lambda>r. j_hash r \<noteq> h) rows)"
    by (simp add: rows comp_def cols(1))
  ultimately have "distinct (map j_id (delete_jobs_by_hash h rows))" by simp
  moreover have "a = b" if ab: "a \<in> set (delete_jobs_by_hash h rows)" "b \<in> set (delete_jobs_by_hash h rows)"
    "is_active a" "is_active b" "j_fingerprint a = j_fingerprint b" for a b
  proof -
    obtain x y where x: "x \<in> set rows" "a = ?f x" and y: "y \<in> set rows" "b = ?f y"
      using ab(1,2) unfolding rows by auto
    have "x = y"
      using assms x(1) y(1) ab(3-5) unfolding x(2) y(2) cols jobs_ok_def by blast
    then show ?thesis by (simp add: x(2) y(2))
  qed
  ultimately show ?thesis unfolding jobs_ok_def by blast
qed

lemma sys_step_ok:
  assumes "sys_step E rerun s s'" and "\<not> rerun" and "jobs_ok (js_rows (sy_jobs s))"
  shows "jobs_ok (js_rows (sy_jobs s'))"
  using assms
proof (induction rule: sys_step.induct)
  case (Create i s F r res js')
  have "jobs_ok (js_rows js')"
    by (rule create_request_via [OF Create(2), of "\<lambda>st. jobs_ok (js_rows st)"])
      (use Create(4) create_or_reuse_ok in blast)+
  then show ?case by simp
next
  case (Retry draws s ok k res2 js')
  have "\<exists>ds :: nat \<Rightarrow> string \<times> job_faults. jobs_ok (js_rows js')"
    by (rule retry_job_via [OF Retry(3), of "\<lambda>ds st. jobs_ok (js_rows st)"])
      (use Retry(5) create_or_reuse_ok in blast)+
  then show ?case by simp
next
  case (Work t s W T err w)
  have w: "w = snd (run_payload W T (tk_id t) (tk_payload t) (worker_part s))" using Work(3) by simp
  have "worker_frame (worker_part s) (tk_id t) (payload_hash (tk_payload t)) w"
    unfolding w by (rule run_payload_frame)
  then obtain f where f: "status_update f" "wk_rows w = update_job (tk_id t) f (js_rows (sy_jobs s))"
    by (auto simp: worker_frame_def worker_part_def)
  have "jobs_ok (update_job (tk_id t) f (js_rows (sy_jobs s)))"
    by (rule update_job_ok [OF Work(5)]) (use f(1) Work(2,4) in \<open>auto simp: status_update_def\<close>)
  with f show ?case by (simp add: set_worker_part_def)
next
  case (Deliver s cs c cs' H sent rows)
  obtain f where f: "status_update f" "rows = update_job (wc_job c) f (js_rows (sy_jobs s))"
    "\<And>x. is_active (f x) = is_active x"
    using deliver_rows [of H c "js_rows (sy_jobs s)"] Deliver(2) by auto
  have "jobs_ok (update_job (wc_job c) f (js_rows (sy_jobs s)))"
    by (rule update_job_ok [OF Deliver(4)]) (use f(1,3) in \<open>auto simp: status_update_def\<close>)
  with f(2) show ?case by simp
next
  case (Clean cl s C insp h answer cl')
  from cleanup_jobs [OF Clean(3)] Clean(1,6) delete_jobs_ok [OF Clean(6), of h] show ?case by auto
qed

lemma sys_reachable_ok: "sys_reachable E rerun s \<Longrightarrow> \<not> rerun \<Longrightarrow> jobs_ok (js_rows (sy_jobs s))"
proof (induction rule: sys_reachable.induct)
  case Init
  show ?case by (simp add: sys_init_def jobs_ok_def)
next
  case (Step s s')
  show ?case by (rule sys_step_ok [OF Step(2) Step(4) Step(3) [OF Step(4)]])
qed



section \<open>Failed tasks that run again\<close>

definition cover_request :: normalized where
  "cover_request = demo_normalized ''video:cover'' []"

lemma cover_request_ok:
  "validate_request (je_parse_url demo_job_env) cover_request = Inr ()"
  "canonicalize_request cover_request = Inr cover_request"
  "build_payload cover_request = Inr (PCover ''h'' ''s.mov'' 0 [])"
  "source_size_for_request demo_job_env cover_request = Inr 0"
  by (simp_all add: cover_request_def demo_normalized_def validate_request_def validate_callback_url_def valid_job_types_def
    task_types trim_space_def validate_job_options_def drop_value_def decode_cover_def strict_def known_fields_def
    canonicalize_request_def canonical_options_def encode_cover_def enc_float_def build_payload_def
    source_size_for_request_def demo_job_env_def enqueue_failed_def)

definition cover_row :: "string \<Rightarrow> job_row" where
  "cover_row i = row_of_params (job_params i cover_request (request_fingerprint demo_job_env cover_request) [])"

lemma create_cover:
  assumes "get_active_job (request_fingerprint demo_job_env cover_request) (js_rows st) = None" and "i \<notin> j_id ` set (js_rows st)"
  shows "\<exists>res. create_request demo_job_env no_faults i cover_request st =
    (res, \<lparr>js_rows = js_rows st @ [cover_row i], js_tasks = js_tasks st @ [enqueue i 0 100 (PCover ''h'' ''s.mov'' 0 [])]\<rparr>)"
proof -
  have h: "je_large demo_job_env = 100" by (simp add: demo_job_env_def)
  have "create_job (job_params i cover_request (request_fingerprint demo_job_env cover_request) []) (js_rows st) =
      Some (js_rows st @ [cover_row i])"
    using create_job_fresh [OF assms(2), of "[]"] by (simp add: cover_row_def)
  then show ?thesis using assms(1)
    by (simp add: create_request_def create_or_reuse_job_def enqueue_new_def enqueue_task_def cover_request_ok h no_faults_def Let_def)
qed

definition failing_worker :: worker_env where
  "failing_worker = demo_worker\<lparr>we_download := (\<lambda>k. Inl ''time-out'')\<rparr>"

definition cover_failed :: "job_row \<Rightarrow> job_row" where
  "cover_failed r = r\<lparr>j_status := ''failed'', j_error := Some ''download source: time-out'', j_results := None\<rparr>"

lemma cover_fails:
  "wk_rows (snd (run_payload failing_worker T i (PCover ''h'' ''s.mov'' 0 []) w)) = update_job i cover_failed (wk_rows w)"
  by (simp add: failing_worker_def demo_worker_def handle_cover_def fail_job_def fail_job_with_result_def start_webhook_def
    mark_processing_def db_update_def update_job_failure_def update_job_status_def update_job_comp comp_def cover_failed_def [abs_def] Let_def)

definition cover_completed :: "job_row \<Rightarrow> job_row" where
  "cover_completed r = r\<lparr>j_status := ''completed'', j_progress := 100, j_error := None,
     j_results := Some (ResCover \<lparr>ca_key = ''videos/h/h/cover.jpg'', ca_format = ''jpg'', ca_size = length ''frame''\<rparr>)\<rparr>"

lemma cover_completed_active: "is_active (cover_completed r)"
  by (simp add: cover_completed_def is_active_def)

lemma cover_succeeds:
  "wk_rows (snd (run_payload demo_worker T i (PCover ''h'' ''s.mov'' 0 []) w)) = update_job i cover_completed (wk_rows w)"
  by (simp add: demo_worker_def handle_cover_def complete_job_def start_webhook_def extract_cover_def upload_bytes_def
    mark_processing_def db_update_def update_job_completion_def update_job_status_def set_progress_def update_job_progress_def
    update_job_comp comp_def worker_video_key_def cover_completed_def [abs_def] Let_def)

lemma work_cover:
  assumes "sys_reachable demo_job_env True s" and "t \<in> set (js_tasks (sy_jobs s))"
    and "tk_payload t = PCover ''h'' ''s.mov'' 0 []"
    and "\<And>w. wk_rows (snd (run_payload W (T :: unit image_tools) (tk_id t) (PCover ''h'' ''s.mov'' 0 []) w)) =
      update_job (tk_id t) f (wk_rows w)"
  shows "\<exists>s'. sys_reachable demo_job_env True s' \<and> js_tasks (sy_jobs s') = js_tasks (sy_jobs s) \<and>
    js_rows (sy_jobs s') = update_job (tk_id t) f (js_rows (sy_jobs s))"
proof -
  let ?r = "run_payload W T (tk_id t) (tk_payload t) (worker_part s)"
  have "sys_step demo_job_env True s (set_worker_part (snd ?r) s)"
    by (rule sys_step.Work [OF assms(2), of _ W T "fst ?r"]) simp_all
  from sys_reachable.Step [OF assms(1) this] show ?thesis
    using assms(4) [of "worker_part s"]
    by (intro exI [of _ "set_worker_part (snd ?r) s"]) (simp add: set_worker_part_def worker_part_def assms(3))
qed

lemma create_cover_step:
  assumes "sys_reachable demo_job_env True s" and "i \<notin> task_ids s"
    and "get_active_job (request_fingerprint demo_job_env cover_request) (js_rows (sy_jobs s)) = None"
    and "i \<notin> j_id ` set (js_rows (sy_jobs s))"
  shows "\<exists>s'. sys_reachable demo_job_env True s' \<and> js_rows (sy_jobs s') = js_rows (sy_jobs s) @ [cover_row i] \<and>
    js_tasks (sy_jobs s') = js_tasks (sy_jobs s) @ [enqueue i 0 100 (PCover ''h'' ''s.mov'' 0 [])]"
proof -
  obtain res where "create_request demo_job_env no_faults i cover_request (sy_jobs s) =
      (res, \<lparr>js_rows = js_rows (sy_jobs s) @ [cover_row i],
        js_tasks = js_tasks (sy_jobs s) @ [enqueue i 0 100 (PCover ''h'' ''s.mov'' 0 [])]\<rparr>)"
    using create_cover [OF assms(3,4)] by blast
  from sys_reachable.Step [OF assms(1) sys_step.Create [OF assms(2) this]] show ?thesis by auto
qed

text \<open>
  Running a failed task again breaks this, and asynq does run it again: every task is queued with three
  retries. A worker marks the row failed at the first error; a new request for the same work then
  gets a job of its own; the repeated task succeeds and completes the first row, so the same request has
  two live jobs.
\<close>

theorem rerun_makes_two_live_jobs:
  "\<exists>s x y. sys_reachable demo_job_env True s \<and> js_rows (sy_jobs s) = [x, y] \<and> j_id x \<noteq> j_id y \<and>
     is_active x \<and> is_active y \<and> j_fingerprint x = j_fingerprint y"
proof -
  let ?p = "PCover ''h'' ''s.mov'' 0 []" and ?fp = "request_fingerprint demo_job_env cover_request"
  let ?t = "\<lambda>i. enqueue i 0 100 ?p"
  note simps = get_active_job_def is_active_def cover_row_def cover_failed_def update_job_def task_ids_def
  have row: "j_id (cover_row i) = i" "j_fingerprint (cover_row i) = ?fp" "is_active (cover_row i)" for i
    by (simp_all add: cover_row_def is_active_def)
  obtain s1 where s1: "sys_reachable demo_job_env True s1" "js_rows (sy_jobs s1) = [cover_row ''j1'']"
      "js_tasks (sy_jobs s1) = [?t ''j1'']"
    using create_cover_step [OF sys_reachable.Init, of "''j1''"] by (auto simp: sys_init_def simps)
  obtain s2 where s2: "sys_reachable demo_job_env True s2" "js_rows (sy_jobs s2) = [cover_failed (cover_row ''j1'')]"
      "js_tasks (sy_jobs s2) = [?t ''j1'']"
    using work_cover [OF s1(1) _ _ cover_fails, of "?t ''j1''"] by (auto simp: s1 row update_job_def)
  obtain s3 where s3: "sys_reachable demo_job_env True s3"
      "js_rows (sy_jobs s3) = [cover_failed (cover_row ''j1''), cover_row ''j2'']"
      "js_tasks (sy_jobs s3) = [?t ''j1'', ?t ''j2'']"
    using create_cover_step [OF s2(1), of "''j2''"] by (auto simp: s2 simps)
  obtain s4 where s4: "sys_reachable demo_job_env True s4"
      "js_rows (sy_jobs s4) = [cover_completed (cover_failed (cover_row ''j1'')), cover_row ''j2'']"
    using work_cover [OF s3(1) _ _ cover_succeeds, of "?t ''j1''"] by (auto simp: s3 row cover_failed_def update_job_def)
  show ?thesis
    by (rule exI [of _ s4], intro exI conjI, rule s4(1), rule s4(2))
      (simp_all add: row cover_completed_active, simp_all add: cover_completed_def cover_failed_def row)
qed

end
