(* ===== verification/ApiSystem.thy ===== *)
theory ApiSystem
  imports ServerApi JobSystem
begin

text \<open>
  The API as part of the system: what a request does to jobs, keys and media is a step of \<open>JobSystem\<close> or
  nothing, so that what holds in reachable states holds after any run of API requests.
\<close>

definition api_view :: "api_state \<Rightarrow> system \<Rightarrow> bool" where
  "api_view st s \<longleftrightarrow>
     sy_jobs s = api_jobs st \<and> sy_keys s = cl_keys (as_clean st) \<and> set (cl_objects (as_clean st)) = dom (sy_media s)"

text \<open>The ids asynq draws during a request are new and different.\<close>

definition fresh_draws :: "api_request \<Rightarrow> system \<Rightarrow> bool" where
  "fresh_draws q s \<longleftrightarrow> inj (fst \<circ> aq_draws q) \<and> range (fst \<circ> aq_draws q) \<inter> task_ids s = {}"

lemma clean_critical_sub: "k \<in> set (cl_objects (clean_critical F insp h c)) \<Longrightarrow> k \<in> set (cl_objects c)"
proof -
  have "cl_objects (snd (cancel_tasks F insp h c)) = cl_objects c"
    by (simp add: cancel_tasks_def split_beta split: option.split)
  then show "k \<in> set (cl_objects (clean_critical F insp h c)) \<Longrightarrow> k \<in> set (cl_objects c)"
    unfolding clean_critical_def by (metis delete_tracked_objects(1) delete_media_objects_ok(1))
qed

lemma cleanup_objects_sub: "k \<in> set (cl_objects (snd (cleanup_handle F insp h c))) \<Longrightarrow> k \<in> set (cl_objects c)"
proof -
  assume k: "k \<in> set (cl_objects (snd (cleanup_handle F insp h c)))"
  have "cl_objects (snd (cleanup_handle F insp h c)) \<in> {cl_objects c, cl_objects (clean_critical F insp h c)}"
    using cleanup_cases [of F insp h c]
    by (cases "critical_done F insp h c")
      (simp_all add: cleanup_handle_def split_beta delete_jobs_def delete_encryption_key_def split: option.split)
  with k clean_critical_sub show ?thesis by (metis empty_iff insert_iff)
qed

lemma api_jobs_set [simp]: "api_jobs (set_api_jobs js st) = js"
  by (simp add: api_jobs_def set_api_jobs_def)

lemma set_api_jobs_view: "api_view st s \<Longrightarrow> api_view (set_api_jobs js st) (s\<lparr>sy_jobs := js\<rparr>)"
  by (simp add: api_view_def) (simp add: set_api_jobs_def)

lemma create_step:
  assumes "create_audio J F i raw (sy_jobs s) = (r, js) \<or> create_video J F i raw (sy_jobs s) = (r, js)" and "i \<notin> task_ids s"
  shows "s\<lparr>sy_jobs := js\<rparr> = s \<or> sys_step J rerun s (s\<lparr>sy_jobs := js\<rparr>)"
proof -
  have "js = sy_jobs s \<or> (\<exists>q. create_request J F i q (sy_jobs s) = (r, js))"
    using assms(1) by (auto simp: create_audio_def create_video_def split: sum.splits)
  then show ?thesis using sys_step.Create [OF assms(2)] by auto
qed

lemma run_call_step:
  assumes "api_view st s" and "fresh_draws q s"
  shows "\<exists>s'. api_view (snd (run_call E q st)) s' \<and> (s' = s \<or> sys_step (ap_jobs E) rerun s s')"
proof (cases "aq_call q")
  case (CallCreateAudio raw)
  have v: "sy_jobs s = api_jobs st" using assms(1) by (simp add: api_view_def)
  obtain r js where c: "create_audio (ap_jobs E) (aq_faults q) (fst (aq_draws q 0)) raw (api_jobs st) = (r, js)"
    by (metis prod.exhaust)
  moreover have "fst (aq_draws q 0) \<notin> task_ids s" using assms(2) by (auto simp: fresh_draws_def)
  ultimately have "s\<lparr>sy_jobs := js\<rparr> = s \<or> sys_step (ap_jobs E) rerun s (s\<lparr>sy_jobs := js\<rparr>)"
    using create_step [of "ap_jobs E" "aq_faults q" "fst (aq_draws q 0)" raw s r js rerun] v by simp
  with set_api_jobs_view [OF assms(1), of js] c CallCreateAudio show ?thesis
    by (intro exI [of _ "s\<lparr>sy_jobs := js\<rparr>"]) (simp add: run_call_def)
next
  case (CallCreateVideo raw)
  have v: "sy_jobs s = api_jobs st" using assms(1) by (simp add: api_view_def)
  obtain r js where c: "create_video (ap_jobs E) (aq_faults q) (fst (aq_draws q 0)) raw (api_jobs st) = (r, js)"
    by (metis prod.exhaust)
  moreover have "fst (aq_draws q 0) \<notin> task_ids s" using assms(2) by (auto simp: fresh_draws_def)
  ultimately have "s\<lparr>sy_jobs := js\<rparr> = s \<or> sys_step (ap_jobs E) rerun s (s\<lparr>sy_jobs := js\<rparr>)"
    using create_step [of "ap_jobs E" "aq_faults q" "fst (aq_draws q 0)" raw s r js rerun] v by simp
  with set_api_jobs_view [OF assms(1), of js] c CallCreateVideo show ?thesis
    by (intro exI [of _ "s\<lparr>sy_jobs := js\<rparr>"]) (simp add: run_call_def)
next
  case (CallStatus i)
  with assms(1) show ?thesis by (intro exI [of _ s]) (simp add: run_call_def)
next
  case (CallRetry i)
  obtain r js where c: "retry_job (ap_jobs E) (aq_draws q) (aq_read_ok q) i (sy_jobs s) = (r, js)"
    by (metis prod.exhaust)
  have "sys_step (ap_jobs E) rerun s (s\<lparr>sy_jobs := js\<rparr>)"
    using sys_step.Retry [OF _ _ c] assms(2) by (simp add: fresh_draws_def)
  with set_api_jobs_view [OF assms(1), of js] c CallRetry assms(1) show ?thesis
    by (intro exI [of _ "s\<lparr>sy_jobs := js\<rparr>"]) (simp add: run_call_def api_view_def split: sum.split)
next
  case (CallCleanup h)
  let ?c = "as_clean st"
  obtain r c' where c: "cleanup_handle (aq_clean q) (ap_inspector E) h ?c = (r, c')" by (metis prod.exhaust)
  let ?s = "s\<lparr>sy_jobs := (sy_jobs s)\<lparr>js_rows := cl_jobs c'\<rparr>, sy_keys := cl_keys c',
      sy_media := (\<lambda>k. if k \<in> set (cl_objects c') then sy_media s k else None)\<rparr>"
  have v: "sy_jobs s = api_jobs st" "sy_keys s = cl_keys ?c" "set (cl_objects ?c) = dom (sy_media s)"
    using assms(1) by (simp_all add: api_view_def)
  have "sys_step (ap_jobs E) rerun s ?s"
    by (rule sys_step.Clean [OF _ _ c]) (simp_all add: v api_jobs_def)
  moreover have "sy_media s k \<noteq> None" if "k \<in> set (cl_objects c')" for k
    using cleanup_objects_sub [of k "aq_clean q" "ap_inspector E" h ?c] c v(3) that by (simp add: dom_def)
  then have "set (cl_objects c') = dom (\<lambda>k. if k \<in> set (cl_objects c') then sy_media s k else None)"
    by (simp add: dom_def set_eq_iff)
  ultimately show ?thesis
    using c CallCleanup by (intro exI [of _ ?s]) (simp add: run_call_def api_view_def api_jobs_def v)
qed

lemma api_view_counters [simp]: "api_view (st\<lparr>as_counters := c\<rparr>) s = api_view st s"
  by (simp add: api_view_def api_jobs_def)



end
