(* ===== verification/Interleaving.thy ===== *)
theory Interleaving
  imports JobSystem
begin

text \<open>
  Requests that overlap. The handler of \<open>JobSystem\<close> creates a job in one step; \<open>createOrReuseJob\<close> of
  \<open>internal/handler/job.go\<close> is three statements on two stores: it looks for an active job, queues the task,
  and inserts the row. Here each is a step of its own, and other requests, workers, deliveries and
  cleanups run in between.
\<close>

section \<open>A creation in steps\<close>

datatype creator_pc =
    Looking
  | Queueing
  | Inserting string
  | Finished "(http_failure, job_info) result"

record creator =
  cr_request :: normalized
  cr_retry_of :: string
  cr_pc :: creator_pc

definition creator_fp :: "job_env \<Rightarrow> creator \<Rightarrow> string" where
  "creator_fp E c = request_fingerprint E (cr_request c)"

definition creator_row :: "job_env \<Rightarrow> creator \<Rightarrow> string \<Rightarrow> job_row" where
  "creator_row E c i = row_of_params (job_params i (cr_request c) (creator_fp E c) (cr_retry_of c))"

text \<open>\<open>i\<close> is the id asynq draws if the step queues a task.\<close>

definition creator_step :: "job_env \<Rightarrow> job_faults \<Rightarrow> string \<Rightarrow> creator \<Rightarrow> job_state \<Rightarrow> creator \<times> job_state" where
  "creator_step E F i c st =
     (case cr_pc c of
        Looking \<Rightarrow>
          if \<not> jf_recheck_ok F then (c\<lparr>cr_pc := Finished (Inl (500, ''database error''))\<rparr>, st)
          else (case get_active_job (creator_fp E c) (js_rows st) of
            Some x \<Rightarrow>
              (c\<lparr>cr_pc := Finished (Inr \<lparr>ji_id = j_id x, ji_type = j_type x, ji_status = j_status x, ji_retry_of = []\<rparr>)\<rparr>, st)
          | None \<Rightarrow> (c\<lparr>cr_pc := Queueing\<rparr>, st))
      | Queueing \<Rightarrow>
          (case enqueue_task E (jf_queue_ok F) i (cr_request c) of
             Inl e \<Rightarrow> (c\<lparr>cr_pc := Finished (Inl e)\<rparr>, st)
           | Inr t \<Rightarrow> (c\<lparr>cr_pc := Inserting i\<rparr>, st\<lparr>js_tasks := js_tasks st @ [t]\<rparr>))
      | Inserting j \<Rightarrow>
          (c\<lparr>cr_pc := Finished (Inr \<lparr>ji_id = j, ji_type = nr_type (cr_request c), ji_status = ''queued'',
                                   ji_retry_of = cr_retry_of c\<rparr>)\<rparr>,
           st\<lparr>js_rows :=
             (case (if jf_insert_ok F
                    then create_job (job_params j (cr_request c) (creator_fp E c) (cr_retry_of c)) (js_rows st) else None) of
                Some rows \<Rightarrow> rows | None \<Rightarrow> js_rows st)\<rparr>)
      | Finished r \<Rightarrow> (c, st))"

definition start_creator :: "normalized \<Rightarrow> string \<Rightarrow> creator" where
  "start_creator r ro = \<lparr>cr_request = r, cr_retry_of = ro, cr_pc = Looking\<rparr>"

definition run_alone :: "job_env \<Rightarrow> job_faults \<Rightarrow> string \<Rightarrow> creator \<Rightarrow> job_state \<Rightarrow> creator \<times> job_state" where
  "run_alone E F i c st =
     (case creator_step E F i c st of (c1, st1) \<Rightarrow>
      case creator_step E F i c1 st1 of (c2, st2) \<Rightarrow> creator_step E F i c2 st2)"

text \<open>
  The atomic creation of the model is the stepwise one with nothing in between: run alone, a
  creation ends after three steps with the answer and the state of \<open>createOrReuseJob\<close>.
\<close>

theorem creation_run_alone:
  "create_or_reuse_job E F i r (request_fingerprint E r) ro st = (res, st') \<longleftrightarrow>
   run_alone E F i (start_creator r ro) st = (\<lparr>cr_request = r, cr_retry_of = ro, cr_pc = Finished res\<rparr>, st')"
  by (auto simp: create_or_reuse_job_def enqueue_new_def run_alone_def creator_step_def start_creator_def creator_fp_def
      split: option.split sum.split)

section \<open>The interleaved system\<close>

record race =
  rc_sys :: system
  rc_creators :: "creator list"

inductive race_step :: "job_env \<Rightarrow> bool \<Rightarrow> race \<Rightarrow> race \<Rightarrow> bool" for E :: job_env and rerun :: bool where
  Start: "race_step E rerun s (s\<lparr>rc_creators := rc_creators s @ [start_creator r ro]\<rparr>)"
| Advance: "k < length (rc_creators s) \<Longrightarrow> i \<notin> task_ids (rc_sys s) \<Longrightarrow>
    creator_step E F i (rc_creators s ! k) (sy_jobs (rc_sys s)) = (c, js) \<Longrightarrow>
    race_step E rerun s \<lparr>rc_sys = (rc_sys s)\<lparr>sy_jobs := js\<rparr>, rc_creators = (rc_creators s)[k := c]\<rparr>"
| Other: "sys_step E rerun (rc_sys s) t \<Longrightarrow> race_step E rerun s (s\<lparr>rc_sys := t\<rparr>)"

inductive race_reachable :: "job_env \<Rightarrow> bool \<Rightarrow> race \<Rightarrow> bool" for E :: job_env and rerun :: bool where
  Init: "race_reachable E rerun \<lparr>rc_sys = sys_init, rc_creators = []\<rparr>"
| Step: "race_reachable E rerun s \<Longrightarrow> race_step E rerun s s' \<Longrightarrow> race_reachable E rerun s'"

section \<open>Steps of the system and waiting creations\<close>

text \<open>A step keeps the tasks, and a row it adds has an id that was not drawn before.\<close>

definition grows :: "job_state \<Rightarrow> job_state \<Rightarrow> bool" where
  "grows st st' \<longleftrightarrow>
     set (js_tasks st) \<subseteq> set (js_tasks st') \<and>
     j_id ` set (js_rows st') \<inter> tk_id ` set (js_tasks st) \<subseteq> j_id ` set (js_rows st)"

lemma grows_refl [simp]: "grows st st"
  by (auto simp: grows_def)

lemma insert_fresh: "R' \<subseteq> insert i R \<Longrightarrow> R \<inter> T \<subseteq> R0 \<Longrightarrow> i \<notin> T \<Longrightarrow> R' \<inter> T \<subseteq> R0"
  by blast

lemma create_or_reuse_grows:
  assumes "create_or_reuse_job E F i r fp ro st = (res, st')" and "grows st0 st" and "i \<notin> tk_id ` set (js_tasks st0)"
  shows "grows st0 st'"
proof -
  have "grows st0 st'" if e: "enqueue_new E F i r fp ro st = (res2, st')" for res2
  proof (cases res2)
    case (Inl e)
    then show ?thesis using enqueue_new_Inl assms(2) e by blast
  next
    case (Inr info)
    obtain n p where "js_tasks st' = js_tasks st @ [enqueue i n (je_large E) p]"
      and rows: "js_rows st' = (case (if jf_insert_ok F then create_job (job_params i r fp ro) (js_rows st) else None) of
                      Some rows' \<Rightarrow> rows' | None \<Rightarrow> js_rows st)"
      by (rule enqueue_new_Inr [OF e [unfolded Inr]])
    then have t: "set (js_tasks st) \<subseteq> set (js_tasks st')" by auto
    have "j_id ` set (js_rows st') \<subseteq> insert i (j_id ` set (js_rows st))"
      unfolding rows by (auto split: option.splits if_splits dest!: create_job_Some)
    note r = insert_fresh [OF this _ assms(3)]
    show ?thesis
      using assms(2) t r unfolding grows_def by (meson subset_trans)
  qed
  with assms(1,2) show ?thesis by (auto simp: create_or_reuse_job_def split: if_splits option.splits)
qed

lemma update_job_id_set: "(\<And>r. j_id (f r) = j_id r) \<Longrightarrow> j_id ` set (update_job i f rows) = j_id ` set rows"
  by (metis list.set_map update_job_ids)

lemma sys_step_grows: "sys_step E rerun s s' \<Longrightarrow> grows (sy_jobs s) (sy_jobs s')"
proof (induction rule: sys_step.induct)
  case (Create i s F r res js')
  have "grows (sy_jobs s) js'"
    by (rule create_request_via [OF Create(2), of "grows (sy_jobs s)", OF grows_refl])
      (erule create_or_reuse_grows, simp, use Create(1) in \<open>simp add: task_ids_def\<close>)
  then show ?case by simp
next
  case (Retry draws s ok k res2 js')
  let ?I = "\<lambda>(ds :: nat \<Rightarrow> string \<times> job_faults) st. grows (sy_jobs s) st \<and> range (fst \<circ> ds) \<inter> tk_id ` set (js_tasks (sy_jobs s)) = {}"
  have "\<exists>ds. ?I ds js'"
  proof (rule retry_job_via [OF Retry(3), of ?I])
    show "?I draws (sy_jobs s)" using Retry(1) by (simp add: task_ids_def)
    fix ds src r st res st'
    assume i: "?I ds st" and c: "create_or_reuse_job E (snd (ds 0)) (fst (ds 0)) r (request_fingerprint E r) src st = (res, st')"
    have d: "fst (ds n) \<notin> tk_id ` set (js_tasks (sy_jobs s))" for n
      using i by (metis comp_apply disjoint_iff rangeI)
    with i create_or_reuse_grows [OF c] show "?I (\<lambda>n. ds (Suc n)) st'" by auto
  qed
  then show ?case by simp
next
  case (Work t s W T err w)
  have "worker_frame (worker_part s) (tk_id t) (payload_hash (tk_payload t)) w"
    using run_payload_frame [of "worker_part s" "tk_id t" "tk_payload t" W T] Work(3) by simp
  then obtain f where "status_update f" "wk_rows w = update_job (tk_id t) f (js_rows (sy_jobs s))"
    by (auto simp: worker_frame_def worker_part_def)
  then show ?case by (simp add: grows_def set_worker_part_def update_job_id_set status_update_def)
next
  case (Deliver s cs c cs' H sent rows)
  then obtain f where "status_update f" "rows = update_job (wc_job c) f (js_rows (sy_jobs s))"
    using deliver_rows [of H c "js_rows (sy_jobs s)"] by auto
  then show ?case by (simp add: grows_def update_job_id_set status_update_def)
next
  case (Clean cl s C insp h answer cl')
  have sub: "j_id ` set (delete_jobs_by_hash h rows) \<subseteq> j_id ` set rows" for rows
    by (auto simp: delete_jobs_by_hash_def Let_def)
  have "j_id ` set (cl_jobs cl') \<subseteq> j_id ` set (js_rows (sy_jobs s))"
    using cleanup_jobs [OF Clean(3)] unfolding Clean(1) by (rule disjE) (simp_all add: sub)
  then show ?case unfolding grows_def by (simp add: le_infI1)
qed

section \<open>What overlapping requests keep\<close>

text \<open>The row a creation is about to insert has its task, and nobody else has its id.\<close>

definition race_inv :: "job_env \<Rightarrow> race \<Rightarrow> bool" where
  "race_inv E s \<longleftrightarrow>
     jobs_inv (sy_jobs (rc_sys s)) \<and>
     (\<forall>k < length (rc_creators s). \<forall>i. cr_pc (rc_creators s ! k) = Inserting i \<longrightarrow>
        i \<notin> j_id ` set (js_rows (sy_jobs (rc_sys s))) \<and>
        (\<exists>t \<in> set (js_tasks (sy_jobs (rc_sys s))). row_matches t (creator_row E (rc_creators s ! k) i)) \<and>
        (\<forall>l < length (rc_creators s). cr_pc (rc_creators s ! l) = Inserting i \<longrightarrow> l = k))"

lemma race_invD:
  assumes "race_inv E s"
  shows "jobs_inv (sy_jobs (rc_sys s))"
    "k < length (rc_creators s) \<Longrightarrow> cr_pc (rc_creators s ! k) = Inserting i \<Longrightarrow> i \<notin> j_id ` set (js_rows (sy_jobs (rc_sys s)))"
    "k < length (rc_creators s) \<Longrightarrow> cr_pc (rc_creators s ! k) = Inserting i \<Longrightarrow>
       \<exists>t \<in> set (js_tasks (sy_jobs (rc_sys s))). row_matches t (creator_row E (rc_creators s ! k) i)"
    "k < length (rc_creators s) \<Longrightarrow> cr_pc (rc_creators s ! k) = Inserting i \<Longrightarrow> l < length (rc_creators s) \<Longrightarrow>
       cr_pc (rc_creators s ! l) = Inserting i \<Longrightarrow> l = k"
  using assms unfolding race_inv_def by blast+

lemma row_ids_have_tasks: "jobs_inv st \<Longrightarrow> j_id ` set (js_rows st) \<subseteq> tk_id ` set (js_tasks st)"
proof
  fix i assume "jobs_inv st" and "i \<in> j_id ` set (js_rows st)"
  then obtain x where x: "x \<in> set (js_rows st)" "i = j_id x" by blast
  with jobs_invD(4) [OF \<open>jobs_inv st\<close> x(1)] show "i \<in> tk_id ` set (js_tasks st)"
    by (metis imageI row_matches_def)
qed

lemma creator_row_simps [simp]:
  "j_id (creator_row E c i) = i" "row_ok (creator_row E c i)" "creator_row E (c\<lparr>cr_pc := p\<rparr>) i = creator_row E c i"
  by (simp_all add: creator_row_def creator_fp_def row_ok_def)

lemma insert_row_inv:
  assumes "jobs_inv st" and "t \<in> set (js_tasks st)" and "row_matches t (creator_row E c i)"
    and "create_job (job_params i (cr_request c) (creator_fp E c) (cr_retry_of c)) (js_rows st) = Some rows"
  shows "jobs_inv (st\<lparr>js_rows := rows\<rparr>)"
proof -
  have r: "rows = js_rows st @ [creator_row E c i]" "i \<notin> j_id ` set (js_rows st)"
    using create_job_Some [OF assms(4)] by (simp_all add: creator_row_def)
  have "k \<in> j_id ` set rows" if "j_retry_of (creator_row E c i) = Some k" for k
    using that create_job_Some [OF assms(4)] by (auto simp: creator_row_def)
  moreover have "k \<in> j_id ` set rows" if "x \<in> set (js_rows st)" "j_retry_of x = Some k" for x k
    using jobs_invD(5) [OF assms(1) that] r(1) by auto
  ultimately show ?thesis
    using jobs_invD(1-4) [OF assms(1)] assms(2,3) r
    by (intro jobs_invI [of _ "js_tasks st" rows]) auto
qed

lemma enqueue_task_matches:
  assumes "enqueue_task E ok i (cr_request c) = Inr t"
  shows "row_matches t (creator_row E c i)"
  using assms build_payload_ok [of "cr_request c"]
  by (auto simp: enqueue_task_def bind_result_Inr_iff row_matches_def creator_row_def split: if_splits)

lemma waiting_id_drawn:
  assumes "race_inv E s" and "k < length (rc_creators s)" and "cr_pc (rc_creators s ! k) = Inserting i"
  shows "i \<in> task_ids (rc_sys s)"
  using race_invD(3) [OF assms] by (auto simp: row_matches_def task_ids_def)

lemma race_inv_advance:
  assumes inv: "race_inv E s" and k: "k < length (rc_creators s)" and js: "jobs_inv js"
    and mono: "set (js_tasks (sy_jobs (rc_sys s))) \<subseteq> set (js_tasks js)"
    and keep: "\<And>i. i \<in> task_ids (rc_sys s) \<Longrightarrow> i \<notin> j_id ` set (js_rows (sy_jobs (rc_sys s))) \<Longrightarrow>
      cr_pc (rc_creators s ! k) \<noteq> Inserting i \<Longrightarrow> i \<notin> j_id ` set (js_rows js)"
    and new: "\<And>i. cr_pc c = Inserting i \<Longrightarrow> i \<notin> task_ids (rc_sys s) \<and> i \<notin> j_id ` set (js_rows js) \<and>
      (\<exists>t \<in> set (js_tasks js). row_matches t (creator_row E c i))"
  shows "race_inv E \<lparr>rc_sys = (rc_sys s)\<lparr>sy_jobs := js\<rparr>, rc_creators = (rc_creators s)[k := c]\<rparr>"
proof -
  let ?cs = "rc_creators s"
  have "i \<notin> j_id ` set (js_rows js) \<and> (\<exists>t \<in> set (js_tasks js). row_matches t (creator_row E (?cs[k := c] ! l) i)) \<and>
      (\<forall>m < length ?cs. cr_pc (?cs[k := c] ! m) = Inserting i \<longrightarrow> m = l)"
    if l: "l < length ?cs" "cr_pc (?cs[k := c] ! l) = Inserting i" for l i
  proof (cases "l = k")
    case True
    with l k have n: "cr_pc c = Inserting i" by simp
    have "m = k" if "m < length ?cs" "cr_pc (?cs[k := c] ! m) = Inserting i" for m
      using that new [OF n] waiting_id_drawn [OF inv that(1)] by (cases "m = k") auto
    with new [OF n] True k show ?thesis by simp
  next
    case False
    with l(2) have p: "cr_pc (?cs ! l) = Inserting i" by simp
    note d = waiting_id_drawn [OF inv l(1) p]
    have "cr_pc (?cs ! k) \<noteq> Inserting i" using race_invD(4) [OF inv l(1) p k] False by blast
    then have "i \<notin> j_id ` set (js_rows js)" using keep d race_invD(2) [OF inv l(1) p] by blast
    moreover have "m = l" if "m < length ?cs" "cr_pc (?cs[k := c] ! m) = Inserting i" for m
      using that new d race_invD(4) [OF inv l(1) p that(1)] by (cases "m = k") auto
    ultimately show ?thesis using race_invD(3) [OF inv l(1) p] mono False by auto
  qed
  with js show ?thesis unfolding race_inv_def by simp
qed

lemma race_step_inv:
  assumes "race_step E rerun s s'" and "race_inv E s"
  shows "race_inv E s'"
  using assms
proof (induction rule: race_step.induct)
  case (Start s r ro)
  have "cr_pc (start_creator r ro) \<noteq> Inserting i" for i by (simp add: start_creator_def)
  with Start show ?case by (auto simp: race_inv_def nth_append less_Suc_eq)
next
  case (Other s t)
  have g: "grows (sy_jobs (rc_sys s)) (sy_jobs t)" by (rule sys_step_grows [OF Other(1)])
  have j: "jobs_inv (sy_jobs t)" by (rule sys_step_inv [OF Other(1) race_invD(1) [OF Other(2)]])
  have "i \<notin> j_id ` set (js_rows (sy_jobs t))"
    if "k < length (rc_creators s)" "cr_pc (rc_creators s ! k) = Inserting i" for k i
    using g race_invD(2) [OF Other(2) that] waiting_id_drawn [OF Other(2) that]
    unfolding grows_def task_ids_def by blast
  moreover have "\<exists>t' \<in> set (js_tasks (sy_jobs t)). row_matches t' (creator_row E (rc_creators s ! k) i)"
    if "k < length (rc_creators s)" "cr_pc (rc_creators s ! k) = Inserting i" for k i
    using g race_invD(3) [OF Other(2) that] unfolding grows_def by blast
  ultimately show ?case using j race_invD(4) [OF Other(2)] unfolding race_inv_def by auto
next
  case (Advance k s i F c js)
  let ?c = "rc_creators s ! k" and ?st = "sy_jobs (rc_sys s)"
  note inv = race_invD(1) [OF Advance(4)]
  have ids: "i' \<notin> j_id ` set (js_rows ?st)" if "i' \<notin> task_ids (rc_sys s)" for i'
    using that row_ids_have_tasks [OF inv] by (auto simp: task_ids_def)
  show ?case
  proof (cases "cr_pc ?c")
    case (Inserting j)
    consider "js = ?st" | rows where "js = ?st\<lparr>js_rows := rows\<rparr>"
        "create_job (job_params j (cr_request ?c) (creator_fp E ?c) (cr_retry_of ?c)) (js_rows ?st) = Some rows"
      using Advance(3) Inserting by (auto simp: creator_step_def split: option.splits if_splits)
    moreover have "cr_pc c \<noteq> Inserting i'" for i' using Advance(3) Inserting by (auto simp: creator_step_def)
    ultimately show ?thesis
    proof cases
      case 2
      obtain t where t: "t \<in> set (js_tasks ?st)" "row_matches t (creator_row E ?c j)"
        using race_invD(3) [OF Advance(4,1) Inserting] by blast
      have "jobs_inv js" unfolding 2(1) by (rule insert_row_inv [OF inv t 2(2)])
      moreover have "j_id ` set rows = insert j (j_id ` set (js_rows ?st))"
        using create_job_Some [OF 2(2)] by simp
      ultimately show ?thesis
        using \<open>\<And>i'. cr_pc c \<noteq> Inserting i'\<close> 2(1) Inserting by (intro race_inv_advance [OF Advance(4,1)]) auto
    qed (intro race_inv_advance [OF Advance(4,1)], use inv in auto)
  next
    case Queueing
    consider e where "cr_pc c = Finished e" "js = ?st"
      | t where "c = ?c\<lparr>cr_pc := Inserting i\<rparr>" "js = ?st\<lparr>js_tasks := js_tasks ?st @ [t]\<rparr>"
          "enqueue_task E (jf_queue_ok F) i (cr_request ?c) = Inr t"
      using Advance(3) Queueing by (auto simp: creator_step_def split: sum.splits)
    then show ?thesis
    proof cases
      case (2 t)
      have m: "row_matches t (creator_row E c i)" using enqueue_task_matches [OF 2(3)] 2(1) by simp
      then have "tk_id t = i" by (simp add: row_matches_def)
      then have "jobs_inv js"
        using inv Advance(2) unfolding 2(2) jobs_inv_def by (auto simp: task_ids_def)
      then show ?thesis
        using m 2(1,2) Advance(2) ids by (intro race_inv_advance [OF Advance(4,1)]) auto
    qed (intro race_inv_advance [OF Advance(4,1)], use inv in auto)
  next
    case Looking
    then have "js = ?st" "cr_pc c \<noteq> Inserting i'" for i'
      using Advance(3) by (auto simp: creator_step_def split: option.splits if_splits)
    then show ?thesis using inv by (intro race_inv_advance [OF Advance(4,1)]) auto
  next
    case (Finished r)
    then have "js = ?st" "cr_pc c \<noteq> Inserting i'" for i' using Advance(3) by (auto simp: creator_step_def)
    then show ?thesis using inv by (intro race_inv_advance [OF Advance(4,1)]) auto
  qed
qed

lemma race_reachable_inv: "race_reachable E rerun s \<Longrightarrow> race_inv E s"
proof (induction rule: race_reachable.induct)
  case Init
  have "jobs_inv (sy_jobs sys_init)" by (rule sys_reachable_inv [OF sys_reachable.Init])
  then show ?case by (simp add: race_inv_def)
qed (rule race_step_inv)


section \<open>What overlapping requests lose\<close>

definition cover_creator :: "creator_pc \<Rightarrow> creator" where
  "cover_creator p = (start_creator cover_request [])\<lparr>cr_pc := p\<rparr>"

definition cover_done :: "string \<Rightarrow> creator" where
  "cover_done i = cover_creator (Finished (Inr \<lparr>ji_id = i, ji_type = nr_type cover_request, ji_status = ''queued'', ji_retry_of = []\<rparr>))"

lemma cover_creator_simps [simp]:
  "cr_pc (cover_creator p) = p" "cr_request (cover_creator p) = cover_request" "cr_retry_of (cover_creator p) = []"
  "(cover_creator p)\<lparr>cr_pc := q\<rparr> = cover_creator q" "start_creator cover_request [] = cover_creator Looking"
  by (simp_all add: cover_creator_def start_creator_def)

lemma cover_look:
  "get_active_job (request_fingerprint demo_job_env cover_request) (js_rows st) = None \<Longrightarrow>
   creator_step demo_job_env no_faults i (cover_creator Looking) st = (cover_creator Queueing, st)"
  by (simp add: creator_step_def creator_fp_def no_faults_def)

lemma cover_queue:
  "creator_step demo_job_env no_faults i (cover_creator Queueing) st =
   (cover_creator (Inserting i), st\<lparr>js_tasks := js_tasks st @ [enqueue i 0 100 (PCover ''h'' ''s.mov'' 0 [])]\<rparr>)"
proof -
  have "je_large demo_job_env = 100" by (simp add: demo_job_env_def)
  then show ?thesis by (simp add: creator_step_def enqueue_task_def cover_request_ok no_faults_def)
qed

lemma cover_insert:
  assumes "i \<notin> j_id ` set (js_rows st)"
  shows "creator_step demo_job_env no_faults j (cover_creator (Inserting i)) st =
    (cover_done i, st\<lparr>js_rows := js_rows st @ [cover_row i]\<rparr>)"
  using create_job_fresh [OF assms, of "[]"]
  by (simp add: creator_step_def creator_fp_def no_faults_def cover_done_def cover_row_def)

lemma race_advance:
  assumes "race_reachable E rerun \<lparr>rc_sys = s, rc_creators = cs\<rparr>" and "k < length cs" and "i \<notin> task_ids s"
    and "creator_step E F i (cs ! k) (sy_jobs s) = (c, js)"
  shows "race_reachable E rerun \<lparr>rc_sys = s\<lparr>sy_jobs := js\<rparr>, rc_creators = cs[k := c]\<rparr>"
  using race_reachable.Step [OF assms(1) race_step.Advance, of k i F c js] assms(2-4) by simp

lemma race_start:
  assumes "race_reachable E rerun \<lparr>rc_sys = s, rc_creators = cs\<rparr>"
  shows "race_reachable E rerun \<lparr>rc_sys = s, rc_creators = cs @ [start_creator r ro]\<rparr>"
  using race_reachable.Step [OF assms race_step.Start] by simp

lemma race_other:
  assumes "race_reachable E rerun \<lparr>rc_sys = s, rc_creators = cs\<rparr>" and "sys_step E rerun s t"
  shows "race_reachable E rerun \<lparr>rc_sys = t, rc_creators = cs\<rparr>"
  using race_reachable.Step [OF assms(1) race_step.Other, of t] assms(2) by simp

lemma race_look:
  assumes "race_reachable demo_job_env rerun \<lparr>rc_sys = s, rc_creators = cs\<rparr>" and "k < length cs"
    and "cs ! k = cover_creator Looking" and "i \<notin> task_ids s"
    and "get_active_job (request_fingerprint demo_job_env cover_request) (js_rows (sy_jobs s)) = None"
  shows "race_reachable demo_job_env rerun \<lparr>rc_sys = s, rc_creators = cs[k := cover_creator Queueing]\<rparr>"
  using race_advance [OF assms(1,2,4), of no_faults "cover_creator Queueing" "sy_jobs s"] cover_look [OF assms(5)] assms(3) by simp

lemma race_queue:
  assumes "race_reachable demo_job_env rerun \<lparr>rc_sys = s, rc_creators = cs\<rparr>" and "k < length cs"
    and "cs ! k = cover_creator Queueing" and "i \<notin> task_ids s"
  shows "race_reachable demo_job_env rerun
    \<lparr>rc_sys = s\<lparr>sy_jobs := (sy_jobs s)\<lparr>js_tasks := js_tasks (sy_jobs s) @ [enqueue i 0 100 (PCover ''h'' ''s.mov'' 0 [])]\<rparr>\<rparr>,
     rc_creators = cs[k := cover_creator (Inserting i)]\<rparr>"
  using race_advance [OF assms(1,2,4), of no_faults] cover_queue assms(3) by simp

lemma race_insert:
  assumes "race_reachable demo_job_env rerun \<lparr>rc_sys = s, rc_creators = cs\<rparr>" and "k < length cs"
    and "cs ! k = cover_creator (Inserting i)" and "j \<notin> task_ids s" and "i \<notin> j_id ` set (js_rows (sy_jobs s))"
  shows "race_reachable demo_job_env rerun
    \<lparr>rc_sys = s\<lparr>sy_jobs := (sy_jobs s)\<lparr>js_rows := js_rows (sy_jobs s) @ [cover_row i]\<rparr>\<rparr>, rc_creators = cs[k := cover_done i]\<rparr>"
  using race_advance [OF assms(1,2,4), of no_faults] cover_insert [OF assms(5)] assms(3) by simp

text \<open>
  The check for an active job is no lock: two equal requests that both look before either inserts get a
  job each, with no failure anywhere and no task run again.
\<close>

theorem overlapping_requests_make_two_jobs:
  "\<exists>s x y. race_reachable demo_job_env False s \<and> js_rows (sy_jobs (rc_sys s)) = [x, y] \<and> j_id x \<noteq> j_id y \<and>
     is_active x \<and> is_active y \<and> j_fingerprint x = j_fingerprint y \<and> length (js_tasks (sy_jobs (rc_sys s))) = 2"
proof -
  let ?t = "\<lambda>i. enqueue i 0 100 (PCover ''h'' ''s.mov'' 0 [])"
  let ?s = "\<lambda>rows ts. sys_init\<lparr>sy_jobs := \<lparr>js_rows = rows, js_tasks = ts\<rparr>\<rparr>"
  note simps = sys_init_def task_ids_def get_active_job_def
  have r0: "race_reachable demo_job_env False \<lparr>rc_sys = ?s [] [], rc_creators = [cover_creator Looking, cover_creator Looking]\<rparr>"
    using race_start [OF race_start [OF race_reachable.Init [of demo_job_env False], of cover_request "[]"], of cover_request "[]"]
    by (simp add: sys_init_def)
  have r1: "race_reachable demo_job_env False \<lparr>rc_sys = ?s [] [], rc_creators = [cover_creator Queueing, cover_creator Queueing]\<rparr>"
    using race_look [OF race_look [OF r0, where k = 0 and i = "''a''"], where k = 1 and i = "''a''"] by (simp add: simps)
  have r2: "race_reachable demo_job_env False
      \<lparr>rc_sys = ?s [] [?t ''j1''], rc_creators = [cover_creator (Inserting ''j1''), cover_creator Queueing]\<rparr>"
    using race_queue [OF r1, where k = 0 and i = "''j1''"] by (simp add: simps)
  have r3: "race_reachable demo_job_env False
      \<lparr>rc_sys = ?s [] [?t ''j1'', ?t ''j2''], rc_creators = [cover_creator (Inserting ''j1''), cover_creator (Inserting ''j2'')]\<rparr>"
    using race_queue [OF r2, where k = 1 and i = "''j2''"] by (simp add: simps)
  have r4: "race_reachable demo_job_env False
      \<lparr>rc_sys = ?s [cover_row ''j1''] [?t ''j1'', ?t ''j2''], rc_creators = [cover_done ''j1'', cover_creator (Inserting ''j2'')]\<rparr>"
    using race_insert [OF r3, where k = 0 and i = "''j1''" and j = "''a''"] by (simp add: simps)
  have r5: "race_reachable demo_job_env False
      \<lparr>rc_sys = ?s [cover_row ''j1'', cover_row ''j2''] [?t ''j1'', ?t ''j2''], rc_creators = [cover_done ''j1'', cover_done ''j2'']\<rparr>"
    using race_insert [OF r4, where k = 1 and i = "''j2''" and j = "''a''"] by (simp add: simps cover_row_def)
  show ?thesis
    by (rule exI, rule exI [of _ "cover_row ''j1''"], rule exI [of _ "cover_row ''j2''"], rule conjI, rule r5)
      (simp add: cover_row_def is_active_def)
qed

text \<open>
  C4. A task that runs before its row is inserted loses its outcome: whatever the run did, the row is
  inserted as queued without results, counts as active for equal requests, and cannot be retried.
\<close>

theorem early_run_is_lost:
  assumes "race_reachable E rerun s" and "k < length (rc_creators s)" and "cr_pc (rc_creators s ! k) = Inserting i"
    and "cr_retry_of (rc_creators s ! k) = []" and "jf_insert_ok F"
    and "run_payload W (T :: unit image_tools) i p (worker_part (rc_sys s)) = (err, w)"
    and "creator_step E F j (rc_creators s ! k) (sy_jobs (set_worker_part w (rc_sys s))) = (c, js)"
  shows "\<exists>x. get_job i (js_rows js) = Some x \<and> j_status x = ''queued'' \<and> j_results x = None \<and> is_active x \<and>
    isl (fst (retry_job E draws True i js))"
proof -
  let ?st = "sy_jobs (rc_sys s)" and ?c = "rc_creators s ! k"
  note inv = race_reachable_inv [OF assms(1)]
  note free = race_invD(2) [OF inv assms(2,3)]
  obtain f where "wk_rows w = update_job i f (js_rows ?st)"
    using run_payload_frame [of "worker_part (rc_sys s)" i p W T] assms(6) by (auto simp: worker_frame_def worker_part_def)
  moreover have "update_job i f rows = rows" if "i \<notin> j_id ` set rows" for rows
    using that by (induction rows) (auto simp: update_job_def)
  ultimately have w: "wk_rows w = js_rows ?st" using free by simp
  have "create_job (job_params i (cr_request ?c) (creator_fp E ?c) []) (js_rows ?st) = Some (js_rows ?st @ [creator_row E ?c i])"
    using create_job_fresh [OF free, of "[]"] assms(4) by (simp add: creator_row_def)
  then have rows: "js_rows js = js_rows ?st @ [creator_row E ?c i]"
    using assms(3-5,7) w by (auto simp: creator_step_def set_worker_part_def)
  have "find (\<lambda>r. j_id r = i) (js_rows ?st) = None" using free by (auto simp: find_None_iff)
  then have "get_job i (js_rows js) = Some (creator_row E ?c i)" by (simp add: rows get_job_def find_append)
  moreover have "j_status (creator_row E ?c i) = ''queued''" "j_results (creator_row E ?c i) = None"
    by (simp_all add: creator_row_def)
  ultimately show ?thesis by (auto simp: is_active_def retry_job_def)
qed

definition demo_early :: system where
  "demo_early = sys_init\<lparr>sy_jobs := \<lparr>js_rows = [], js_tasks = [enqueue ''j1'' 0 100 (PCover ''h'' ''s.mov'' 0 [])]\<rparr>\<rparr>"

lemma demo_early_reachable:
  "race_reachable demo_job_env False \<lparr>rc_sys = demo_early, rc_creators = [cover_creator (Inserting ''j1'')]\<rparr>"
proof -
  have r0: "race_reachable demo_job_env False \<lparr>rc_sys = sys_init, rc_creators = [cover_creator Looking]\<rparr>"
    using race_start [OF race_reachable.Init [of demo_job_env False], of cover_request "[]"] by simp
  have r1: "race_reachable demo_job_env False \<lparr>rc_sys = sys_init, rc_creators = [cover_creator Queueing]\<rparr>"
    using race_look [OF r0, where k = 0 and i = "''a''"] by (simp add: sys_init_def task_ids_def get_active_job_def)
  show ?thesis
    using race_queue [OF r1, where k = 0 and i = "''j1''"] by (simp add: demo_early_def sys_init_def task_ids_def)
qed

theorem early_run_is_lost_witness:
  "\<forall>T :: unit image_tools. \<exists>w c js x.
     run_payload demo_worker T ''j1'' (PCover ''h'' ''s.mov'' 0 []) (worker_part demo_early) = (None, w) \<and>
     wk_media w ''videos/h/h/cover.jpg'' \<noteq> None \<and>
     creator_step demo_job_env no_faults ''j2'' (cover_creator (Inserting ''j1'')) (sy_jobs (set_worker_part w demo_early)) = (c, js) \<and>
     get_job ''j1'' (js_rows js) = Some x \<and> j_status x = ''queued''"
proof
  fix T :: "unit image_tools"
  let ?r = "run_payload demo_worker T ''j1'' (PCover ''h'' ''s.mov'' 0 []) (worker_part demo_early)"
  let ?c = "creator_step demo_job_env no_faults ''j2'' (cover_creator (Inserting ''j1'')) (sy_jobs (set_worker_part (snd ?r) demo_early))"
  have run: "?r = (None, snd ?r)" "wk_media (snd ?r) ''videos/h/h/cover.jpg'' \<noteq> None"
    by (simp_all add: demo_worker_def handle_cover_def complete_job_def start_webhook_def extract_cover_def upload_bytes_def
      mark_processing_def db_update_def set_progress_def worker_video_key_def Let_def)
  obtain x where "get_job ''j1'' (js_rows (snd ?c)) = Some x" "j_status x = ''queued''"
    using early_run_is_lost [OF demo_early_reachable, of 0 "''j1''" no_faults demo_worker T "PCover ''h'' ''s.mov'' 0 []" None "snd ?r"
        "''j2''" "fst ?c" "snd ?c"] run(1) by (auto simp: no_faults_def)
  with run show "\<exists>w c js x. ?r = (None, w) \<and> wk_media w ''videos/h/h/cover.jpg'' \<noteq> None \<and>
     creator_step demo_job_env no_faults ''j2'' (cover_creator (Inserting ''j1'')) (sy_jobs (set_worker_part w demo_early)) = (c, js) \<and>
     get_job ''j1'' (js_rows js) = Some x \<and> j_status x = ''queued''"
    by (intro exI [of _ "snd ?r"] exI [of _ "fst ?c"] exI [of _ "snd ?c"] exI [of _ x]) simp
qed


end
