(* ===== verification/Config.thy ===== *)
theory Config
  imports Encryption JobRequest
begin

text \<open>
  The configuration, \<open>internal/config/config.go\<close>: normalization and validation of the values that
  \<open>caarlos0/env\<close> read from the environment, and what start-up (\<open>run\<close> of \<open>cmd/vylux/main.go\<close>) makes of
  the secrets. \<open>url.Parse\<close> gives scheme and host or fails; \<open>redis.ParseURL\<close> succeeds or fails.
\<close>

section \<open>The values\<close>

record config =
  cg_port :: int
  cg_mode :: string
  cg_base_url :: string
  cg_database_url :: string
  cg_redis_url :: string
  cg_source_endpoint :: string
  cg_media_endpoint :: string
  cg_hmac_secret :: string
  cg_image_source_key :: string
  cg_api_key :: string
  cg_webhook_secret :: string
  cg_key_token_secret :: string
  cg_encryption_key :: string
  cg_worker_concurrency :: int
  cg_large_worker_concurrency :: int
  cg_worker_metrics_port :: int
  cg_large_file_threshold :: int
  cg_max_file_size :: int
  cg_max_animation_frames :: int
  cg_otel_endpoint :: string
  cg_source_bucket :: string
  cg_media_bucket :: string
  cg_log_level :: string

record url_parsers =
  up_url :: url_parser
  up_redis :: "string \<Rightarrow> bool"

definition normalize_absolute_url :: "string \<Rightarrow> string" where
  "normalize_absolute_url raw = (if raw = [] then [] else trim_right_of (CHR ''/'') (trim_space raw))"

definition normalize_config :: "config \<Rightarrow> config" where
  "normalize_config c =
     c\<lparr>cg_base_url := normalize_absolute_url (cg_base_url c),
       cg_source_endpoint := normalize_absolute_url (cg_source_endpoint c),
       cg_media_endpoint := normalize_absolute_url (cg_media_endpoint c),
       cg_otel_endpoint := (if contains_str (cg_otel_endpoint c) ''://'' then normalize_absolute_url (cg_otel_endpoint c)
                            else cg_otel_endpoint c)\<rparr>"

section \<open>Validation\<close>

text \<open>One constructor per message.\<close>

datatype config_error =
    BadMode string
  | BadHexKey string
  | ShortHexKey string nat
  | SourceKeyLength nat
  | BadUrl string
  | BadScheme string
  | NoHost string
  | BadRedisUrl
  | EndpointWithPath
  | OutOfRange string
  | ThresholdAboveMax

definition validate_hex_key :: "string \<Rightarrow> nat \<Rightarrow> string \<Rightarrow> config_error option" where
  "validate_hex_key s n name =
     (case hex_decode s of
        None \<Rightarrow> Some (BadHexKey name)
      | Some b \<Rightarrow> if length b < n then Some (ShortHexKey name (length s)) else None)"

definition validate_url :: "url_parser \<Rightarrow> string set \<Rightarrow> string \<Rightarrow> string \<Rightarrow> config_error option" where
  "validate_url parse schemes raw name =
     (case parse raw of
        None \<Rightarrow> Some (BadUrl name)
      | Some (scheme, host) \<Rightarrow>
          if to_lower scheme \<notin> schemes then Some (BadScheme name)
          else if host = [] then Some (NoHost name) else None)"

definition validate_http_url :: "url_parser \<Rightarrow> string \<Rightarrow> string \<Rightarrow> config_error option" where
  "validate_http_url parse = validate_url parse {''http'', ''https''}"

definition validate_postgres_url :: "url_parser \<Rightarrow> string \<Rightarrow> config_error option" where
  "validate_postgres_url parse raw = validate_url parse {''postgres'', ''postgresql''} raw ''DATABASE_URL''"

definition validate_redis_url :: "(string \<Rightarrow> bool) \<Rightarrow> string \<Rightarrow> config_error option" where
  "validate_redis_url parse raw = (if parse raw then None else Some BadRedisUrl)"

definition validate_otlp_endpoint :: "url_parser \<Rightarrow> string \<Rightarrow> config_error option" where
  "validate_otlp_endpoint parse raw =
     (let name = ''OTEL_EXPORTER_OTLP_ENDPOINT'' in
      if raw = [] then None
      else if contains_str raw ''://'' then validate_http_url parse raw name
      else if set raw \<inter> set ''/?#'' \<noteq> {} then Some EndpointWithPath
      else case parse (''//'' @ raw) of
        None \<Rightarrow> Some (BadUrl name)
      | Some (scheme, host) \<Rightarrow> if host = [] then Some (NoHost name) else None)"

definition report :: "bool \<Rightarrow> config_error \<Rightarrow> config_error list" where
  "report bad e = (if bad then [e] else [])"

definition report_opt :: "config_error option \<Rightarrow> config_error list" where
  "report_opt e = (case e of None \<Rightarrow> [] | Some x \<Rightarrow> [x])"

definition validate_config :: "url_parsers \<Rightarrow> config \<Rightarrow> config_error list" where
  "validate_config P c =
     report (cg_mode c \<notin> {''all'', ''server'', ''worker''}) (BadMode (cg_mode c)) @
     report_opt (validate_hex_key (cg_hmac_secret c) 32 ''HMAC_SECRET'') @
     (if cg_image_source_key c = [] then []
      else if length (cg_image_source_key c) \<noteq> 64 then [SourceKeyLength (length (cg_image_source_key c))]
      else report_opt (validate_hex_key (cg_image_source_key c) 32 ''IMAGE_SOURCE_KEY'')) @
     report_opt (validate_hex_key (cg_api_key c) 32 ''API_KEY'') @
     report_opt (validate_hex_key (cg_webhook_secret c) 32 ''WEBHOOK_SECRET'') @
     report_opt (validate_hex_key (cg_key_token_secret c) 16 ''KEY_TOKEN_SECRET'') @
     report_opt (validate_hex_key (cg_encryption_key c) 32 ''ENCRYPTION_KEY'') @
     report_opt (validate_postgres_url (up_url P) (cg_database_url c)) @
     report_opt (validate_redis_url (up_redis P) (cg_redis_url c)) @
     (if cg_base_url c = [] then [] else report_opt (validate_http_url (up_url P) (cg_base_url c) ''BASE_URL'')) @
     report_opt (validate_http_url (up_url P) (cg_source_endpoint c) ''SOURCE_S3_ENDPOINT'') @
     report_opt (validate_http_url (up_url P) (cg_media_endpoint c) ''MEDIA_S3_ENDPOINT'') @
     report_opt (validate_otlp_endpoint (up_url P) (cg_otel_endpoint c)) @
     report (cg_port c < 1 \<or> cg_port c > 65535) (OutOfRange ''PORT'') @
     report (cg_worker_metrics_port c < 0 \<or> cg_worker_metrics_port c > 65535) (OutOfRange ''WORKER_METRICS_PORT'') @
     report (cg_worker_concurrency c < 1) (OutOfRange ''WORKER_CONCURRENCY'') @
     report (cg_large_worker_concurrency c < 1) (OutOfRange ''LARGE_WORKER_CONCURRENCY'') @
     report (cg_large_file_threshold c < 1) (OutOfRange ''LARGE_FILE_THRESHOLD'') @
     report (cg_max_file_size c < 1) (OutOfRange ''MAX_FILE_SIZE'') @
     report (cg_max_animation_frames c < 1) (OutOfRange ''MAX_ANIMATION_FRAMES'') @
     report (cg_large_file_threshold c > cg_max_file_size c) ThresholdAboveMax"

lemma report_simps [simp]:
  "report b e = [] \<longleftrightarrow> \<not> b" "report_opt x = [] \<longleftrightarrow> x = None"
  by (simp_all add: report_def report_opt_def split: option.split)

lemma validate_hex_key_None:
  "validate_hex_key s n name = None \<longleftrightarrow> (\<exists>b. hex_decode s = Some b \<and> n \<le> length b)"
  by (auto simp: validate_hex_key_def split: option.splits)

section \<open>Start-up\<close>

text \<open>The cipher objects and the mode of \<open>run\<close>.\<close>

datatype start_error = KeyWrapperError enc_error | SourceCipherError enc_error | UnknownMode string

datatype running = RunAll | RunServer | RunWorker

definition run_mode :: "string \<Rightarrow> (start_error, running) result" where
  "run_mode mode =
     (if mode = ''all'' then Inr RunAll else if mode = ''server'' then Inr RunServer
      else if mode = ''worker'' then Inr RunWorker else Inl (UnknownMode mode))"

definition make_ciphers :: "(string \<Rightarrow> aead) \<Rightarrow> config \<Rightarrow> (start_error, key_wrapper \<times> image_source_cipher) result" where
  "make_ciphers gcm c =
     bind_result (map_err KeyWrapperError (new_key_wrapper gcm (cg_encryption_key c))) (\<lambda>w.
     bind_result (map_err SourceCipherError (new_image_source_cipher gcm (cg_image_source_key c))) (\<lambda>s. Inr (w, s)))"

definition start_up ::
    "(string \<Rightarrow> aead) \<Rightarrow> config \<Rightarrow> (start_error, key_wrapper \<times> image_source_cipher \<times> running) result" where
  "start_up gcm c =
     bind_result (make_ciphers gcm c) (\<lambda>(w, s).
     bind_result (run_mode (cg_mode c)) (\<lambda>m. Inr (w, s, m)))"

text \<open>
  A configuration that validates starts: the ciphers are built from its keys and the mode is known,
  provided the encryption key has the documented 64 digits. The source cipher is on exactly when a key
  for it is set; every secret has the length its purpose needs, and the limits are in their ranges.
\<close>

theorem validated_config_starts:
  assumes "validate_config P c = []" and "length (cg_encryption_key c) = 64"
  shows "(\<exists>w s m. start_up gcm c = Inr (w, s, m) \<and> (enabled s \<longleftrightarrow> cg_image_source_key c \<noteq> [])) \<and>
    (\<forall>k \<in> {cg_hmac_secret c, cg_api_key c, cg_webhook_secret c}. \<exists>b. hex_decode k = Some b \<and> 32 \<le> length b) \<and>
    (\<exists>b. hex_decode (cg_key_token_secret c) = Some b \<and> 16 \<le> length b) \<and>
    1 \<le> cg_large_file_threshold c \<and> cg_large_file_threshold c \<le> cg_max_file_size c \<and>
    1 \<le> cg_port c \<and> cg_port c \<le> 65535"
proof -
  note v = assms(1) [unfolded validate_config_def append_is_Nil_conv report_simps validate_hex_key_None]
  obtain kek where kek: "hex_decode (cg_encryption_key c) = Some kek" using v by blast
  have "length kek = 32" using hex_decode_length [OF kek] assms(2) by simp
  then have w: "\<exists>w. new_key_wrapper gcm (cg_encryption_key c) = Inr w" using kek by (simp add: new_key_wrapper_def)
  have s: "\<exists>s. new_image_source_cipher gcm (cg_image_source_key c) = Inr s \<and> (enabled s \<longleftrightarrow> cg_image_source_key c \<noteq> [])"
  proof (cases "cg_image_source_key c = []")
    case True
    then show ?thesis by (simp add: new_image_source_cipher_def enabled_def)
  next
    case False
    with v have l: "length (cg_image_source_key c) = 64" by (auto split: if_splits)
    with v False obtain b where b: "hex_decode (cg_image_source_key c) = Some b"
      by (auto simp: validate_hex_key_None split: if_splits)
    have "length b = 32" using hex_decode_length [OF b] l by simp
    with b False show ?thesis by (simp add: new_image_source_cipher_def enabled_def)
  qed
  have m: "cg_mode c \<in> {''all'', ''server'', ''worker''}" using v by blast
  have "\<exists>w s m. start_up gcm c = Inr (w, s, m) \<and> (enabled s \<longleftrightarrow> cg_image_source_key c \<noteq> [])"
    using w s m by (auto simp: start_up_def make_ciphers_def run_mode_def)
  moreover have "\<forall>k \<in> {cg_hmac_secret c, cg_api_key c, cg_webhook_secret c}. \<exists>b. hex_decode k = Some b \<and> 32 \<le> length b"
    using v by blast
  moreover have "\<exists>b. hex_decode (cg_key_token_secret c) = Some b \<and> 16 \<le> length b" using v by blast
  moreover have "1 \<le> cg_large_file_threshold c \<and> cg_large_file_threshold c \<le> cg_max_file_size c \<and>
    1 \<le> cg_port c \<and> cg_port c \<le> 65535" using v by linarith
  ultimately show ?thesis by blast
qed

text \<open>
  The proviso is needed. Validation accepts longer keys, although its comment says exactly; with one
  byte more the same configuration still validates, and start-up fails.
\<close>

lemma hex_decode_append: "hex_decode s = Some b \<Longrightarrow> hex_decode (s @ ''00'') = Some (b @ [char_of (0 :: nat)])"
  by (induction s arbitrary: b rule: hex_decode.induct) (auto simp: hex_val_def split: option.splits)

theorem long_encryption_key_validates:
  assumes "validate_config P c = []"
  shows "validate_config P (c\<lparr>cg_encryption_key := cg_encryption_key c @ ''00''\<rparr>) = [] \<and>
    (\<exists>n > 32. start_up gcm (c\<lparr>cg_encryption_key := cg_encryption_key c @ ''00''\<rparr>) = Inl (KeyWrapperError (BadKeyLength n)))"
proof -
  note v = assms [unfolded validate_config_def append_is_Nil_conv report_simps validate_hex_key_None]
  obtain b where b: "hex_decode (cg_encryption_key c) = Some b" "32 \<le> length b" using v by blast
  note l = hex_decode_append [OF b(1)]
  have "validate_hex_key (cg_encryption_key c @ ''00'') 32 ''ENCRYPTION_KEY'' = None"
    using l b(2) by (simp add: validate_hex_key_def)
  then have "validate_config P (c\<lparr>cg_encryption_key := cg_encryption_key c @ ''00''\<rparr>) = []"
    using assms by (auto simp: validate_config_def split: if_splits)
  moreover have "start_up gcm (c\<lparr>cg_encryption_key := cg_encryption_key c @ ''00''\<rparr>) =
      Inl (KeyWrapperError (BadKeyLength (Suc (length b))))"
    using l b(2) by (simp add: start_up_def make_ciphers_def new_key_wrapper_def)
  ultimately show ?thesis using b(2) by (intro conjI exI [of _ "Suc (length b)"]) simp_all
qed

section \<open>A configuration\<close>

definition demo_config :: config where
  "demo_config =
     (let k = hex_encode (replicate 32 (CHR ''k'')) in
      \<lparr>cg_port = 3000, cg_mode = ''all'', cg_base_url = [], cg_database_url = ''postgres://db/v'', cg_redis_url = ''redis://r'',
       cg_source_endpoint = ''http://s3'', cg_media_endpoint = ''http://s3'', cg_hmac_secret = k, cg_image_source_key = [],
       cg_api_key = k, cg_webhook_secret = k, cg_key_token_secret = hex_encode (replicate 16 (CHR ''t'')),
       cg_encryption_key = k, cg_worker_concurrency = 10, cg_large_worker_concurrency = 1, cg_worker_metrics_port = 3001,
       cg_large_file_threshold = 5368709120, cg_max_file_size = 53687091200, cg_max_animation_frames = 1000,
       cg_otel_endpoint = [],
       cg_source_bucket = ''source'', cg_media_bucket = ''media'', cg_log_level = ''INFO''\<rparr>)"

definition demo_parsers :: url_parsers where
  "demo_parsers = \<lparr>up_url = (\<lambda>u. if has_prefix u ''http:'' then Some (''http'', ''s3'') else Some (''postgres'', ''db'')),
     up_redis = (\<lambda>u. True)\<rparr>"

lemma demo_config_valid: "validate_config demo_parsers demo_config = []"
  by (simp add: validate_config_def demo_config_def demo_parsers_def Let_def validate_hex_key_def roundtrip_simps
    validate_postgres_url_def validate_url_def validate_redis_url_def validate_http_url_def validate_otlp_endpoint_def
    has_prefix_def to_lower_def lower_char_def del: hex_encode.simps)

theorem validated_config_starts_witness:
  "\<exists>w s m. start_up (\<lambda>k. plain_aead) demo_config = Inr (w, s, m) \<and> \<not> enabled s"
proof -
  have "length (cg_encryption_key demo_config) = 64" by (simp add: demo_config_def Let_def)
  moreover have "cg_image_source_key demo_config = []" by (simp add: demo_config_def Let_def)
  ultimately show ?thesis using validated_config_starts [OF demo_config_valid, of "\<lambda>k. plain_aead"] by auto
qed

theorem long_encryption_key_validates_witness:
  "\<exists>n > 32. start_up (\<lambda>k. plain_aead) (demo_config\<lparr>cg_encryption_key := cg_encryption_key demo_config @ ''00''\<rparr>) =
     Inl (KeyWrapperError (BadKeyLength n))"
  using long_encryption_key_validates [OF demo_config_valid, of "\<lambda>k. plain_aead"] by blast

end
