(* ===== verification/WorkerPool.thy ===== *)
theory WorkerPool
  imports JobSystem Config
begin

text \<open>
  The worker process: the two asynq servers of \<open>internal/queue/server.go\<close> with the queues each listens
  to, and the handlers \<open>cmd/vylux/main.go\<close> registers. What the handler table answers for a type it does
  not have is a parameter (asynq's not-found handler).
\<close>

section \<open>Pools and handlers\<close>

record worker_pool =
  pl_concurrency :: int
  pl_queues :: "(string \<times> nat) list"

text \<open>The normal and the large pool; the result of \<open>asynq.ParseRedisURI\<close> is an input.\<close>

definition new_worker_server :: "(string \<Rightarrow> bool) \<Rightarrow> config \<Rightarrow> (string, worker_pool \<times> worker_pool) result" where
  "new_worker_server redis_ok c =
     (if \<not> redis_ok (cg_redis_url c) then Inl ''parse redis URL''
      else Inr (\<lparr>pl_concurrency = cg_worker_concurrency c, pl_queues = [(queue_critical, 6), (queue_default, 3)]\<rparr>,
                \<lparr>pl_concurrency = cg_large_worker_concurrency c, pl_queues = [(queue_video_large, 1)]\<rparr>))"

definition listens :: "worker_pool \<Rightarrow> string \<Rightarrow> bool" where
  "listens p q \<longleftrightarrow> q \<in> fst ` set (pl_queues p)"

definition registered_types :: "string list" where
  "registered_types =
     [type_image_thumbnail, type_audio_transcode, type_video_cover, type_video_preview, type_video_transcode, type_video_full]"

definition process_task ::
    "string list \<Rightarrow> (string \<Rightarrow> string) \<Rightarrow> worker_env \<Rightarrow> 'i image_tools \<Rightarrow> task \<Rightarrow> worker_state \<Rightarrow> outcome" where
  "process_task types not_found W T t st =
     (if payload_type (tk_payload t) \<in> set types then run_payload W T (tk_id t) (tk_payload t) st
      else (Some (not_found (payload_type (tk_payload t))), st))"

section \<open>Every task is enqueued by the client\<close>

definition client_task :: "task \<Rightarrow> bool" where
  "client_task t \<longleftrightarrow> (\<exists>sz large. t = enqueue (tk_id t) sz large (tk_payload t))"

lemma client_task_enqueue [simp]: "client_task (enqueue i sz large p)"
  by (auto simp: client_task_def)

definition client_tasks :: "job_state \<Rightarrow> bool" where
  "client_tasks js \<longleftrightarrow> (\<forall>t \<in> set (js_tasks js). client_task t)"

lemma create_or_reuse_client:
  assumes "create_or_reuse_job E F i r fp ro st = (res, st')" and "client_tasks st"
  shows "client_tasks st'"
proof -
  have "client_tasks st'" if "enqueue_new E F i r fp ro st = (res, st')" for res
    using that assms(2) by (cases res) (auto simp: client_tasks_def dest: enqueue_new_Inl elim!: enqueue_new_Inr)
  with assms show ?thesis by (auto simp: create_or_reuse_job_def split: if_splits option.splits)
qed

lemma sys_step_client:
  assumes "sys_step E rerun s s'" and "client_tasks (sy_jobs s)"
  shows "client_tasks (sy_jobs s')"
  using assms
proof (induction rule: sys_step.induct)
  case (Create i s F r res js')
  have "client_tasks js'"
    by (rule create_request_via [OF Create(2), of client_tasks, OF Create(3)]) (rule create_or_reuse_client [OF _ Create(3)])
  then show ?case by simp
next
  case (Retry draws s ok k res2 js')
  have "\<exists>ds :: nat \<Rightarrow> string \<times> job_faults. client_tasks js'"
    by (rule retry_job_via [OF Retry(3), of "\<lambda>ds. client_tasks", OF Retry(4)]) (rule create_or_reuse_client)
  then show ?case by simp
qed (simp_all add: client_tasks_def set_worker_part_def)

lemma sys_reachable_client: "sys_reachable E rerun s \<Longrightarrow> client_tasks (sy_jobs s)"
  by (induction rule: sys_reachable.induct) (simp_all add: sys_step_client, simp add: client_tasks_def sys_init_def)

lemma client_task_queue:
  assumes "client_task t"
  shows "tk_queue t = queue_video_large \<and> tk_max_retry t = 2 \<or>
    tk_queue t \<in> {queue_critical, queue_default} \<and> tk_max_retry t = 3"
proof -
  obtain sz large where "t = enqueue (tk_id t) sz large (tk_payload t)" using assms by (auto simp: client_task_def)
  then have "tk_queue t = tk_queue (enqueue (tk_id t) sz large (tk_payload t))"
    "tk_max_retry t = tk_max_retry (enqueue (tk_id t) sz large (tk_payload t))" by metis+
  then show ?thesis
    by (cases "tk_payload t") (auto simp: video_queue_options_def media_queue_options_def split: if_splits)
qed

lemma payload_type_registered: "payload_type p \<in> set registered_types"
  by (cases p) (simp_all add: registered_types_def)

lemma add_queues_known: "q \<in> set qs \<Longrightarrow> q \<in> set (add_queues qs ns)"
  by (induction qs ns rule: add_queues.induct) auto

lemma cleaner_knows: "q \<in> set known_queues \<Longrightarrow> q \<in> set (queue_names insp)"
  by (auto simp: queue_names_def add_queues_known split: option.split)

section \<open>No task is left unserved\<close>

text \<open>
  C11. Nothing is queued where nobody looks: in every reachable state each task is in a queue of exactly
  one of the two pools of a validated configuration, which has at least one worker, is run by the handler of its type, and is in
  a queue a cleanup searches. The tasks of the large pool are those with two retries.
\<close>

theorem reachable_tasks_served:
  assumes "validate_config P c = []" and "new_worker_server redis_ok c = Inr (normal, large)"
    and "sys_reachable E rerun s" and "t \<in> set (js_tasks (sy_jobs s))"
  shows "listens normal (tk_queue t) \<noteq> listens large (tk_queue t) \<and>
    1 \<le> pl_concurrency normal \<and> 1 \<le> pl_concurrency large \<and>
    (listens large (tk_queue t) \<longleftrightarrow> tk_max_retry t = 2) \<and>
    tk_queue t \<in> set (queue_names insp) \<and>
    process_task registered_types not_found W T t w = run_payload W T (tk_id t) (tk_payload t) w"
proof -
  have "client_task t" using sys_reachable_client [OF assms(3)] assms(4) by (simp add: client_tasks_def)
  note q = client_task_queue [OF this]
  have pools: "pl_queues normal = [(queue_critical, 6), (queue_default, 3)]" "pl_queues large = [(queue_video_large, 1)]"
    "pl_concurrency normal = cg_worker_concurrency c" "pl_concurrency large = cg_large_worker_concurrency c"
    using assms(2) by (auto simp: new_worker_server_def split: if_splits)
  have "1 \<le> cg_worker_concurrency c \<and> 1 \<le> cg_large_worker_concurrency c"
    using assms(1) [unfolded validate_config_def append_is_Nil_conv report_simps] by linarith
  moreover have "tk_queue t \<in> set (queue_names insp)"
    by (rule cleaner_knows) (use q in \<open>auto simp: known_queues_def\<close>)
  moreover have "listens normal (tk_queue t) \<noteq> listens large (tk_queue t) \<and> (listens large (tk_queue t) \<longleftrightarrow> tk_max_retry t = 2)"
    using q by (auto simp: listens_def pools(1,2) queue_critical_def queue_default_def queue_video_large_def)
  ultimately show ?thesis by (simp add: pools(3,4) process_task_def payload_type_registered)
qed

theorem reachable_tasks_served_witness:
  "\<exists>normal large. new_worker_server (\<lambda>u. True) demo_config = Inr (normal, large) \<and>
     listens normal ''default'' \<noteq> listens large ''default'' \<and> ''default'' \<in> set (queue_names None)"
proof -
  obtain normal large where n: "new_worker_server (\<lambda>u. True) demo_config = Inr (normal, large)"
    by (simp add: new_worker_server_def)
  let ?t = "enqueue ''j1'' 10 100 (PTranscode ''h'' ''s.mov'' False [])"
  have "?t \<in> set (js_tasks (sy_jobs demo_system))" "tk_queue ?t = ''default''"
    by (simp_all add: demo_system_def video_queue_options_def queue_default_def)
  with reachable_tasks_served [OF demo_config_valid n demo_system_reachable [of True] this(1), of None] n show ?thesis by auto
qed

end
