(* ===== verification/Startup.thy ===== *)
theory Startup
  imports WorkerPool
begin

text \<open>
  The life of the process: \<open>main\<close> and \<open>run\<close> of \<open>cmd/vylux/main.go\<close> with what they call of
  \<open>internal/tracing/tracing.go\<close>, \<open>internal/db/db.go\<close>, \<open>internal/queue/client.go\<close>, \<open>internal/queue/server.go\<close> and
  \<open>internal/metrics/http.go\<close>. A run is the list of its effects in order, with the error it returns. What
  third-party constructors answer, and how the servers end, are inputs.
\<close>

section \<open>Effects\<close>

datatype resource = Tracing | MigrationDb | Database | RedisClient | QueueClient | QueueInspector

datatype service = HttpServer | WorkerServer | MetricsServer

datatype pool = NormalPool | LargePool

datatype boot_event =
    Opened resource
  | Closed resource
  | Migrated
  | InspectorSet
  | Serving "service list"
  | PoolStarted pool
  | PoolShutdown pool

type_synonym 'e boot = "boot_event list \<times> 'e option"

definition fails_with :: "'e \<Rightarrow> 'e boot" where
  "fails_with e = ([], Some e)"

definition after :: "boot_event list \<Rightarrow> 'e boot \<Rightarrow> 'e boot" where
  "after evs k = (evs @ fst k, snd k)"

text \<open>A call whose error is wrapped and returned.\<close>

definition checked :: "('e \<Rightarrow> 'f) \<Rightarrow> 'e boot \<Rightarrow> 'f boot \<Rightarrow> 'f boot" where
  "checked wrap call k = (case call of (evs, Some e) \<Rightarrow> (evs, Some (wrap e)) | (evs, None) \<Rightarrow> after evs k)"

text \<open>A \<open>defer\<close>: what was opened is closed when the rest of the function has returned.\<close>

definition deferred :: "resource \<Rightarrow> 'e boot \<Rightarrow> 'e boot" where
  "deferred r k = (Opened r # fst k @ [Closed r], snd k)"

section \<open>The world\<close>

text \<open>How the two asynq servers, the metrics listener and the HTTP server end.\<close>

datatype pools_end = PoolsCancelled | NormalFailed string | LargeFailed string

datatype listener_end = ListenerCancelled "string option" | ListenerFailed string | ListenerClosed

datatype exporter_option = WithEndpoint string | WithInsecure | WithUrlPath string

record boot_env =
  bt_resource :: "string option"
  bt_url_path :: "string \<Rightarrow> string"
  bt_exporter :: "exporter_option list \<Rightarrow> string option"
  bt_goose_open :: "string \<Rightarrow> string option"
  bt_goose_up :: "string option"
  bt_pool :: "string \<Rightarrow> string option"
  bt_ping :: "string option"
  bt_s3 :: "string \<Rightarrow> string option"
  bt_asynq_url :: "string \<Rightarrow> bool"
  bt_http :: "string option"
  bt_pools :: pools_end
  bt_metrics :: listener_end
  bt_wait :: "string option list \<Rightarrow> string option"

section \<open>Tracing\<close>

datatype tracing_error =
    TraceResource string
  | ParseEndpoint
  | NoEndpointHost
  | EndpointScheme string
  | CreateExporter string

definition exporter_options ::
    "url_parser \<Rightarrow> (string \<Rightarrow> string) \<Rightarrow> string \<Rightarrow> (tracing_error, exporter_option list) result" where
  "exporter_options parse path raw =
     (if \<not> contains_str raw ''://'' then Inr [WithEndpoint raw]
      else case parse raw of
        None \<Rightarrow> Inl ParseEndpoint
      | Some (scheme, host) \<Rightarrow>
          if host = [] then Inl NoEndpointHost
          else if to_lower scheme \<notin> {''http'', ''https''} then Inl (EndpointScheme scheme)
          else Inr ([WithEndpoint host] @ (if to_lower scheme = ''http'' then [WithInsecure] else []) @
                    (if path raw \<noteq> [] \<and> path raw \<noteq> ''/'' then [WithUrlPath (path raw)] else [])))"

text \<open>The options of the exporter, or none when spans stay local.\<close>

definition init_tracing :: "url_parser \<Rightarrow> boot_env \<Rightarrow> string \<Rightarrow> (tracing_error, exporter_option list option) result" where
  "init_tracing parse B endpoint =
     (case bt_resource B of Some e \<Rightarrow> Inl (TraceResource e)
      | None \<Rightarrow>
          if endpoint = [] then Inr None
          else bind_result (exporter_options parse (bt_url_path B) endpoint) (\<lambda>opts.
            case bt_exporter B opts of Some e \<Rightarrow> Inl (CreateExporter e) | None \<Rightarrow> Inr (Some opts)))"

section \<open>Database and queue\<close>

datatype db_error = GooseOpen string | GooseUp string | CreatePool string | PingPg string

definition migrate :: "boot_env \<Rightarrow> string \<Rightarrow> db_error boot" where
  "migrate B url =
     (case bt_goose_open B url of Some e \<Rightarrow> fails_with (GooseOpen e)
      | None \<Rightarrow> deferred MigrationDb
          (case bt_goose_up B of Some e \<Rightarrow> fails_with (GooseUp e) | None \<Rightarrow> ([Migrated], None)))"

text \<open>The pool stays open when it answers; otherwise it is closed again.\<close>

definition connect_db :: "boot_env \<Rightarrow> string \<Rightarrow> db_error boot" where
  "connect_db B url =
     (case bt_pool B url of Some e \<Rightarrow> fails_with (CreatePool e)
      | None \<Rightarrow>
          (case bt_ping B of Some e \<Rightarrow> ([Opened Database, Closed Database], Some (PingPg e)) | None \<Rightarrow> ([], None)))"

section \<open>Services\<close>

text \<open>\<open>Run\<close> of the worker server: the first of cancellation and a failing pool decides.\<close>

definition run_pools :: "pools_end \<Rightarrow> boot_event list \<times> string option" where
  "run_pools e =
     ([PoolStarted NormalPool, PoolStarted LargePool] @
        (case e of PoolsCancelled \<Rightarrow> [PoolShutdown NormalPool, PoolShutdown LargePool] | NormalFailed x \<Rightarrow> [] | LargeFailed x \<Rightarrow> []),
      (case e of PoolsCancelled \<Rightarrow> None
       | NormalFailed x \<Rightarrow> Some (''asynq normal server: '' @ x)
       | LargeFailed x \<Rightarrow> Some (''asynq large server: '' @ x)))"

definition metrics_start :: "listener_end \<Rightarrow> string option" where
  "metrics_start e =
     (case e of
        ListenerCancelled shutdown \<Rightarrow> map_option (\<lambda>x. ''shutdown metrics server: '' @ x) shutdown
      | ListenerFailed x \<Rightarrow> Some x
      | ListenerClosed \<Rightarrow> None)"

fun service_end :: "boot_env \<Rightarrow> service \<Rightarrow> string option" where
  "service_end B HttpServer = bt_http B"
| "service_end B WorkerServer = snd (run_pools (bt_pools B))"
| "service_end B MetricsServer = metrics_start (bt_metrics B)"

text \<open>One service returns its own error; a group returns what \<open>errgroup.Wait\<close> makes of the errors.\<close>

definition services_end :: "boot_env \<Rightarrow> service list \<Rightarrow> string option" where
  "services_end B ss = (case ss of [s] \<Rightarrow> service_end B s | _ \<Rightarrow> bt_wait B (map (service_end B) ss))"

datatype boot_error =
    InitTracing tracing_error
  | MigrateFailed db_error
  | ConnectFailed db_error
  | StorageFailed string string
  | CiphersFailed start_error
  | ParseRedisUrl
  | QueueClientFailed
  | InspectorFailed
  | CreateWorker string
  | ModeFailed start_error
  | ServiceFailed string

definition serve :: "boot_env \<Rightarrow> service list \<Rightarrow> boot_error boot" where
  "serve B ss =
     (Serving ss # (if WorkerServer \<in> set ss then fst (run_pools (bt_pools B)) else []),
      map_option ServiceFailed (services_end B ss))"

definition run_server :: "boot_env \<Rightarrow> boot_error boot" where
  "run_server B = after [InspectorSet] (serve B [HttpServer])"

definition run_worker :: "boot_env \<Rightarrow> config \<Rightarrow> boot_error boot" where
  "run_worker B c =
     (case new_worker_server (bt_asynq_url B) c of
        Inl e \<Rightarrow> fails_with (CreateWorker e)
      | Inr pools \<Rightarrow>
          if cg_worker_metrics_port c \<le> 0 then serve B [WorkerServer]
          else after [InspectorSet] (serve B [WorkerServer, MetricsServer]))"

definition run_all :: "boot_env \<Rightarrow> config \<Rightarrow> boot_error boot" where
  "run_all B c =
     (case new_worker_server (bt_asynq_url B) c of
        Inl e \<Rightarrow> fails_with (CreateWorker e)
      | Inr pools \<Rightarrow> after [InspectorSet] (serve B [HttpServer, WorkerServer]))"

section \<open>The process\<close>

definition run_process :: "url_parsers \<Rightarrow> (string \<Rightarrow> aead) \<Rightarrow> boot_env \<Rightarrow> config \<Rightarrow> boot_error boot" where
  "run_process P gcm B c =
     (case init_tracing (up_url P) B (cg_otel_endpoint c) of Inl e \<Rightarrow> fails_with (InitTracing e)
      | Inr exporter \<Rightarrow> deferred Tracing
     (checked MigrateFailed (migrate B (cg_database_url c))
     (checked ConnectFailed (connect_db B (cg_database_url c)) (deferred Database
     (case bt_s3 B ''source'' of Some e \<Rightarrow> fails_with (StorageFailed ''source'' e) | None \<Rightarrow>
     (case bt_s3 B ''media'' of Some e \<Rightarrow> fails_with (StorageFailed ''media'' e) | None \<Rightarrow>
     (case make_ciphers gcm c of Inl e \<Rightarrow> fails_with (CiphersFailed e) | Inr ciphers \<Rightarrow>
     (if \<not> up_redis P (cg_redis_url c) then fails_with ParseRedisUrl else deferred RedisClient
     (if \<not> bt_asynq_url B (cg_redis_url c) then fails_with QueueClientFailed else deferred QueueClient
     (if \<not> bt_asynq_url B (cg_redis_url c) then fails_with InspectorFailed else deferred QueueInspector
     (case run_mode (cg_mode c) of
        Inl e \<Rightarrow> fails_with (ModeFailed e)
      | Inr RunAll \<Rightarrow> run_all B c
      | Inr RunServer \<Rightarrow> run_server B
      | Inr RunWorker \<Rightarrow> run_worker B c)))))))))))"

datatype log_level = LevelDebug | LevelWarn | LevelError | LevelInfo

definition setup_logger :: "string \<Rightarrow> log_level" where
  "setup_logger level =
     (let l = to_upper level in
      if l = ''DEBUG'' then LevelDebug else if l = ''WARN'' then LevelWarn else if l = ''ERROR'' then LevelError else LevelInfo)"

definition short_commit :: "string \<Rightarrow> string" where
  "short_commit commit = (if length commit > 7 then take 7 commit else commit)"

definition banner :: "string \<Rightarrow> string \<Rightarrow> config \<Rightarrow> string list" where
  "banner version commit c =
     [[], ''  Vylux '' @ version @ '' ('' @ short_commit commit @ '')'',
      ''  Mode:    '' @ cg_mode c,
      (if cg_mode c = ''worker''
       then (if cg_worker_metrics_port c > 0 then ''  Metrics: http://0.0.0.0:'' @ show_int (cg_worker_metrics_port c)
             else ''  Metrics: disabled'')
       else ''  Listen:  http://0.0.0.0:'' @ show_int (cg_port c)),
      ''  Buckets: source='' @ cg_source_bucket c @ ''  media='' @ cg_media_bucket c,
      ''  Log:     '' @ cg_log_level c, []]"

record flags =
  fl_mode :: string
  fl_version :: bool

record main_result =
  mn_exit :: nat
  mn_invalid :: "config_error list"
  mn_banner :: "string list"
  mn_events :: "boot_event list"

text \<open>\<open>loaded\<close> is what the environment parser read, before \<open>normalize\<close>.\<close>

definition vylux_main ::
    "url_parsers \<Rightarrow> (string \<Rightarrow> aead) \<Rightarrow> boot_env \<Rightarrow> string \<Rightarrow> string \<Rightarrow> flags \<Rightarrow> (string, config) result \<Rightarrow> main_result" where
  "vylux_main P gcm B version commit f loaded =
     (if fl_version f then \<lparr>mn_exit = 0, mn_invalid = [], mn_banner = [], mn_events = []\<rparr>
      else case loaded of
        Inl e \<Rightarrow> \<lparr>mn_exit = 1, mn_invalid = [], mn_banner = [], mn_events = []\<rparr>
      | Inr raw \<Rightarrow>
          (let c = (normalize_config raw)\<lparr>cg_mode := (if fl_mode f \<noteq> [] then fl_mode f else cg_mode raw)\<rparr>;
               errs = validate_config P c in
           if errs \<noteq> [] then \<lparr>mn_exit = 1, mn_invalid = errs, mn_banner = [], mn_events = []\<rparr>
           else let (evs, e) = run_process P gcm B c in
             \<lparr>mn_exit = (if e = None then 0 else 1), mn_invalid = [], mn_banner = banner version commit c, mn_events = evs\<rparr>))"

section \<open>Order of effects\<close>

text \<open>
  The protocol of the process, on the stack of what is open and whether migrations ran: nothing is opened
  twice, the last opened is closed first, the schema is migrated before a pool exists, and nothing is
  served before all of it is open.
\<close>

definition serving_needs :: "resource set" where
  "serving_needs = {Tracing, Database, RedisClient, QueueClient, QueueInspector}"

fun replay :: "resource list \<times> bool \<Rightarrow> boot_event list \<Rightarrow> (resource list \<times> bool) option" where
  "replay s [] = Some s"
| "replay (rs, m) (Opened r # es) = (if r \<in> set rs then None else replay (r # rs, m) es)"
| "replay (rs, m) (Closed r # es) = (case rs of x # xs \<Rightarrow> if x = r then replay (xs, m) es else None | [] \<Rightarrow> None)"
| "replay (rs, m) (Migrated # es) = (if MigrationDb \<in> set rs \<and> Database \<notin> set rs \<and> \<not> m then replay (rs, True) es else None)"
| "replay (rs, m) (InspectorSet # es) = (if QueueInspector \<in> set rs then replay (rs, m) es else None)"
| "replay (rs, m) (Serving ss # es) = (if m \<and> serving_needs \<subseteq> set rs then replay (rs, m) es else None)"
| "replay (rs, m) (PoolStarted p # es) = (if m \<and> serving_needs \<subseteq> set rs then replay (rs, m) es else None)"
| "replay (rs, m) (PoolShutdown p # es) = (if m \<and> serving_needs \<subseteq> set rs then replay (rs, m) es else None)"

lemma replay_append: "replay s (es @ fs) = Option.bind (replay s es) (\<lambda>s'. replay s' fs)"
  by (induction s es rule: replay.induct) (auto split: list.split)

definition keeps :: "resource list \<Rightarrow> bool \<Rightarrow> 'e boot \<Rightarrow> bool" where
  "keeps rs m k \<longleftrightarrow> (\<exists>m'. replay (rs, m) (fst k) = Some (rs, m'))"

lemma keeps_fails [intro!]: "keeps rs m (fails_with e)" "keeps rs m ([], e')"
  by (simp_all add: keeps_def fails_with_def)

lemma keeps_deferred [intro!]: "r \<notin> set rs \<Longrightarrow> keeps (r # rs) m k \<Longrightarrow> keeps rs m (deferred r k)"
  by (auto simp: keeps_def deferred_def replay_append)

lemma keeps_after: "replay (rs, m) evs = Some (rs, m') \<Longrightarrow> keeps rs m' k \<Longrightarrow> keeps rs m (after evs k)"
  by (auto simp: keeps_def after_def replay_append)

lemma keeps_serve: "serving_needs \<subseteq> set rs \<Longrightarrow> keeps rs True (serve B ss)"
  by (auto simp: keeps_def serve_def run_pools_def split: pools_end.split)

lemma keeps_mode:
  assumes "serving_needs \<subseteq> set rs"
  shows "keeps rs True (run_server B)" "keeps rs True (run_worker B c)" "keeps rs True (run_all B c)"
proof -
  have i: "keeps rs True (after [InspectorSet] (serve B ss))" for ss
    using assms by (intro keeps_after [where m' = True] keeps_serve) (auto simp: serving_needs_def)
  show "keeps rs True (run_server B)" "keeps rs True (run_worker B c)" "keeps rs True (run_all B c)"
    using i keeps_serve [OF assms] by (auto simp: run_server_def run_worker_def run_all_def split: sum.split)
qed

lemma keeps_cases:
  "\<lbrakk>\<And>e. x = Inl e \<Longrightarrow> keeps rs m (f e); \<And>y. x = Inr y \<Longrightarrow> keeps rs m (g y)\<rbrakk> \<Longrightarrow> keeps rs m (case x of Inl e \<Rightarrow> f e | Inr y \<Rightarrow> g y)"
  "\<lbrakk>z = None \<Longrightarrow> keeps rs m k; \<And>y. z = Some y \<Longrightarrow> keeps rs m (h y)\<rbrakk> \<Longrightarrow> keeps rs m (case z of None \<Rightarrow> k | Some y \<Rightarrow> h y)"
  "\<lbrakk>b \<Longrightarrow> keeps rs m k; \<not> b \<Longrightarrow> keeps rs m k'\<rbrakk> \<Longrightarrow> keeps rs m (if b then k else k')"
  by (simp_all split: sum.split option.split)

lemma keeps_migrate: "keeps [Tracing] True k \<Longrightarrow> keeps [Tracing] False (checked wrap (migrate B url) k)"
  by (auto simp: migrate_def fails_with_def deferred_def keeps_def checked_def after_def split: option.splits)

lemma keeps_connect: "keeps [Tracing] True k \<Longrightarrow> keeps [Tracing] True (checked wrap (connect_db B url) k)"
  by (auto simp: connect_db_def fails_with_def keeps_def checked_def after_def split: option.splits)

text \<open>
  C34. Whatever fails during start-up or service, the process follows this protocol to the end: every
  resource it opened is closed, in reverse order, and nothing is served before everything is open.
\<close>

theorem process_closes_what_it_opens:
  "\<exists>m. replay ([], False) (fst (run_process P gcm B c)) = Some ([], m)"
proof -
  have mode: "keeps [QueueInspector, QueueClient, RedisClient, Database, Tracing] True
      (case run_mode (cg_mode c) of Inl e \<Rightarrow> fails_with (ModeFailed e) | Inr RunAll \<Rightarrow> run_all B c
       | Inr RunServer \<Rightarrow> run_server B | Inr RunWorker \<Rightarrow> run_worker B c)"
    using keeps_mode [of "[QueueInspector, QueueClient, RedisClient, Database, Tracing]" B]
    by (auto simp: serving_needs_def split: sum.split running.split)
  have "keeps [] False (run_process P gcm B c)"
    unfolding run_process_def
    by (intro mode keeps_cases keeps_fails keeps_deferred keeps_migrate keeps_connect) simp_all
  then show ?thesis by (auto simp: keeps_def)
qed

section \<open>Start-up of a validated configuration\<close>

definition services_of :: "config \<Rightarrow> service list" where
  "services_of c =
     (if cg_mode c = ''all'' then [HttpServer, WorkerServer] else if cg_mode c = ''server'' then [HttpServer]
      else if cg_worker_metrics_port c \<le> 0 then [WorkerServer] else [WorkerServer, MetricsServer])"

fun served :: "boot_event list \<Rightarrow> service list list" where
  "served [] = []"
| "served (Serving ss # es) = ss # served es"
| "served (e # es) = served es"

lemma served_append [simp]: "served (es @ fs) = served es @ served fs"
  by (induction es rule: served.induct) simp_all

text \<open>The third-party constructors succeed and the servers they talk to answer.\<close>

definition healthy :: "boot_env \<Rightarrow> config \<Rightarrow> bool" where
  "healthy B c \<longleftrightarrow>
     bt_resource B = None \<and> (\<forall>opts. bt_exporter B opts = None) \<and>
     bt_goose_open B (cg_database_url c) = None \<and> bt_goose_up B = None \<and>
     bt_pool B (cg_database_url c) = None \<and> bt_ping B = None \<and>
     bt_s3 B ''source'' = None \<and> bt_s3 B ''media'' = None \<and> bt_asynq_url B (cg_redis_url c)"

text \<open>Errors that come from a server or a library, not from the configuration itself.\<close>

fun external :: "boot_error \<Rightarrow> bool" where
  "external (InitTracing (TraceResource x)) = True"
| "external (InitTracing (CreateExporter x)) = True"
| "external (InitTracing e) = False"
| "external (CiphersFailed e) = False"
| "external (ModeFailed e) = False"
| "external ParseRedisUrl = False"
| "external e = True"

lemma exporter_options_validated:
  "validate_otlp_endpoint parse raw = None \<Longrightarrow> raw \<noteq> [] \<Longrightarrow> \<exists>opts. exporter_options parse path raw = Inr opts"
  by (auto simp: validate_otlp_endpoint_def exporter_options_def validate_http_url_def validate_url_def Let_def
      split: if_splits option.splits)

lemma init_tracing_validated:
  assumes "validate_otlp_endpoint parse raw = None"
  shows "init_tracing parse B raw = Inl e \<Longrightarrow> external (InitTracing e)"
    and "bt_resource B = None \<Longrightarrow> \<forall>opts. bt_exporter B opts = None \<Longrightarrow> \<exists>x. init_tracing parse B raw = Inr x"
  using exporter_options_validated [OF assms, of "bt_url_path B"]
  by (cases "raw = []"; auto simp: init_tracing_def split: option.splits)+

lemma validated_parts:
  assumes "validate_config P c = []" and "length (cg_encryption_key c) = 64"
  shows "validate_otlp_endpoint (up_url P) (cg_otel_endpoint c) = None" "up_redis P (cg_redis_url c)"
    "\<exists>x. make_ciphers gcm c = Inr x"
    "run_mode (cg_mode c) = Inr (if cg_mode c = ''all'' then RunAll else if cg_mode c = ''server'' then RunServer else RunWorker)"
proof -
  note v = assms(1) [unfolded validate_config_def append_is_Nil_conv report_simps]
  show "validate_otlp_endpoint (up_url P) (cg_otel_endpoint c) = None" using v by blast
  have "validate_redis_url (up_redis P) (cg_redis_url c) = None" using v by blast
  then show "up_redis P (cg_redis_url c)" by (simp add: validate_redis_url_def split: if_splits)
  show "\<exists>x. make_ciphers gcm c = Inr x"
    using validated_config_starts [OF assms, of gcm] by (auto simp: start_up_def bind_result_Inr_iff)
  have "cg_mode c \<in> {''all'', ''server'', ''worker''}" using v by blast
  then show "run_mode (cg_mode c) = Inr (if cg_mode c = ''all'' then RunAll else if cg_mode c = ''server'' then RunServer else RunWorker)"
    by (auto simp: run_mode_def)
qed

definition in_mode :: "boot_env \<Rightarrow> config \<Rightarrow> boot_error boot" where
  "in_mode B c = after (if services_of c = [WorkerServer] then [] else [InspectorSet]) (serve B (services_of c))"

lemma healthy_run:
  assumes "validate_config P c = []" and "length (cg_encryption_key c) = 64" and "healthy B c"
  shows "run_process P gcm B c =
    deferred Tracing (after [Opened MigrationDb, Migrated, Closed MigrationDb]
      (deferred Database (deferred RedisClient (deferred QueueClient (deferred QueueInspector (in_mode B c))))))"
proof -
  note h = assms(3) [unfolded healthy_def]
  note v = validated_parts [OF assms(1,2)]
  obtain x where "init_tracing (up_url P) B (cg_otel_endpoint c) = Inr x"
    using init_tracing_validated(2) [OF v(1)] h by blast
  moreover obtain y where "make_ciphers gcm c = Inr y" using v(3) by blast
  ultimately show ?thesis
    using h v(2,4)
    by (simp add: run_process_def migrate_def connect_db_def checked_def deferred_def after_def in_mode_def services_of_def
        run_all_def run_server_def run_worker_def new_worker_server_def)
qed

lemma deferred_error: "snd (deferred r k) = snd k" "snd (after evs k) = snd k"
  by (simp_all add: deferred_def after_def)

definition blames_others :: "boot_error boot \<Rightarrow> bool" where
  "blames_others k \<longleftrightarrow> (\<forall>e. snd k = Some e \<longrightarrow> external e)"

lemma blames_others_rules:
  "external e \<Longrightarrow> blames_others (fails_with e)"
  "blames_others k \<Longrightarrow> blames_others (deferred r k)"
  "blames_others k \<Longrightarrow> blames_others (after evs k)"
  "blames_others k \<Longrightarrow> blames_others (checked MigrateFailed m k)"
  "blames_others k \<Longrightarrow> blames_others (checked ConnectFailed m k)"
  "blames_others (serve B ss)"
  by (auto simp: blames_others_def fails_with_def deferred_error checked_def serve_def split: prod.splits option.splits)

lemma blames_others_cases:
  "\<lbrakk>\<And>e. x = Inl e \<Longrightarrow> blames_others (f e); \<And>y. x = Inr y \<Longrightarrow> blames_others (g y)\<rbrakk> \<Longrightarrow>
   blames_others (case x of Inl e \<Rightarrow> f e | Inr y \<Rightarrow> g y)"
  "\<lbrakk>z = None \<Longrightarrow> blames_others k; \<And>y. z = Some y \<Longrightarrow> blames_others (h y)\<rbrakk> \<Longrightarrow>
   blames_others (case z of None \<Rightarrow> k | Some y \<Rightarrow> h y)"
  "\<lbrakk>b \<Longrightarrow> blames_others k; \<not> b \<Longrightarrow> blames_others k'\<rbrakk> \<Longrightarrow> blames_others (if b then k else k')"
  "blames_others k1 \<Longrightarrow> blames_others k2 \<Longrightarrow> blames_others k3 \<Longrightarrow>
   blames_others (case mo of RunAll \<Rightarrow> k1 | RunServer \<Rightarrow> k2 | RunWorker \<Rightarrow> k3)"
  by (simp_all split: sum.split option.split running.split)

lemma validated_blames_others:
  assumes "validate_config P c = []" and "length (cg_encryption_key c) = 64"
  shows "blames_others (run_process P gcm B c)"
proof -
  note v = validated_parts [OF assms]
  have "make_ciphers gcm c \<noteq> Inl e" for e using v(3) [of gcm] by auto
  with v(2,4) init_tracing_validated(1) [OF v(1)] show ?thesis
    unfolding run_process_def run_all_def run_server_def run_worker_def
    by (intro blames_others_cases blames_others_rules) auto
qed


text \<open>
  \<open>Run\<close> returns when one of its two pools fails, without shutting down the other: the database is closed
  under the tasks the other pool still runs.
\<close>

theorem failed_pool_abandons_other:
  assumes "validate_config P c = []" and "length (cg_encryption_key c) = 64" and "healthy B c"
    and "cg_mode c \<noteq> ''server''" and "bt_pools B = NormalFailed x"
  shows "\<exists>before later. fst (run_process P gcm B c) = before @ PoolStarted LargePool # later \<and>
    PoolShutdown LargePool \<notin> set (before @ later) \<and> Closed Database \<in> set later"
proof -
  let ?pre = "[Opened Tracing, Opened MigrationDb, Migrated, Closed MigrationDb, Opened Database, Opened RedisClient, Opened QueueClient,
     Opened QueueInspector] @ (if services_of c = [WorkerServer] then [] else [InspectorSet]) @ [Serving (services_of c), PoolStarted NormalPool]"
  let ?post = "[Closed QueueInspector, Closed QueueClient, Closed RedisClient, Closed Database, Closed Tracing]"
  have "WorkerServer \<in> set (services_of c)" using assms(4) by (simp add: services_of_def)
  then have "fst (run_process P gcm B c) = ?pre @ PoolStarted LargePool # ?post"
    unfolding healthy_run [OF assms(1-3)] by (simp add: in_mode_def deferred_def after_def serve_def run_pools_def assms(5))
  then show ?thesis by (intro exI [of _ ?pre] exI [of _ ?post]) simp
qed

section \<open>A start-up\<close>

definition demo_boot :: boot_env where
  "demo_boot =
     \<lparr>bt_resource = None, bt_url_path = (\<lambda>u. []), bt_exporter = (\<lambda>os. None), bt_goose_open = (\<lambda>u. None), bt_goose_up = None,
      bt_pool = (\<lambda>u. None), bt_ping = None, bt_s3 = (\<lambda>r. None), bt_asynq_url = (\<lambda>u. True), bt_http = None,
      bt_pools = PoolsCancelled, bt_metrics = ListenerClosed, bt_wait = (\<lambda>es. Option.bind (find (\<lambda>e. e \<noteq> None) es) id)\<rparr>"


end
