(* ===== verification/Routes.thy ===== *)
theory Routes
  imports ServerApi
begin

text \<open>
  The routes that \<open>registerRoutes\<close> of \<open>internal/server/server.go\<close> declares, with their middleware in the order
  Echo runs it. A parameter takes one segment of the path and a star the rest. Echo prefers some of the
  routes that match over others; the table does not need that, since at most one matches.
\<close>

section \<open>The table\<close>

datatype http_method = GET | POST | DELETE

datatype segment = Lit string | Param string | Star

datatype route_endpoint =
    EpHealthz | EpReadyz | EpMetrics
  | EpImage | EpOriginal | EpThumb | EpStream
  | EpCreateAudio | EpCreateVideo | EpGetStatus | EpRetryJob | EpCleanupMedia
  | EpKeyDelivery

datatype middleware =
    CachePublic
  | ApiKey
  | RateLimited string nat nat

record route =
  rt_method :: http_method
  rt_path :: "segment list"
  rt_endpoint :: route_endpoint
  rt_middleware :: "middleware list"

definition route :: "http_method \<Rightarrow> segment list \<Rightarrow> route_endpoint \<Rightarrow> middleware list \<Rightarrow> route" where
  "route m p e ms = \<lparr>rt_method = m, rt_path = p, rt_endpoint = e, rt_middleware = ms\<rparr>"

definition job_limit :: middleware where
  "job_limit = RateLimited ''jobs'' 30 60"

text \<open>A route of the group \<open>/api\<close>.\<close>

definition api_route :: "http_method \<Rightarrow> segment list \<Rightarrow> route_endpoint \<Rightarrow> middleware list \<Rightarrow> route" where
  "api_route m p e ms = route m (Lit ''api'' # p) e (ApiKey # ms)"

definition register_routes :: "bool \<Rightarrow> route list" where
  "register_routes encrypted_sources =
     [route GET [Lit ''healthz''] EpHealthz [],
      route GET [Lit ''readyz''] EpReadyz [],
      route GET [Lit ''metrics''] EpMetrics []] @
     (if encrypted_sources
      then [route GET [Lit ''img'', Param ''sig'', Param ''opts'', Param ''source''] EpImage [CachePublic],
            route GET [Lit ''original'', Param ''sig'', Param ''source''] EpOriginal [CachePublic]]
      else [route GET [Lit ''img'', Param ''sig'', Param ''opts'', Star] EpImage [CachePublic],
            route GET [Lit ''original'', Param ''sig'', Star] EpOriginal [CachePublic]]) @
     [route GET [Lit ''thumb'', Param ''sig'', Star] EpThumb [CachePublic],
      api_route POST [Lit ''audio'', Lit ''jobs''] EpCreateAudio [job_limit],
      api_route POST [Lit ''video'', Lit ''jobs''] EpCreateVideo [job_limit],
      api_route GET [Lit ''jobs'', Param ''id''] EpGetStatus [],
      api_route POST [Lit ''jobs'', Param ''id'', Lit ''retry''] EpRetryJob [job_limit],
      route GET [Lit ''stream'', Param ''hash'', Star] EpStream [CachePublic],
      api_route DELETE [Lit ''media'', Param ''hash''] EpCleanupMedia [],
      route GET [Lit ''api'', Lit ''key'', Param ''id''] EpKeyDelivery [RateLimited ''key'' 120 60]]"

section \<open>Matching\<close>

fun matches :: "segment list \<Rightarrow> string list \<Rightarrow> bool" where
  "matches [] [] = True"
| "matches [] (x # xs) = False"
| "matches (Star # ps) xs = True"
| "matches (Lit l # ps) (x # xs) = (l = x \<and> matches ps xs)"
| "matches (Param n # ps) (x # xs) = matches ps xs"
| "matches (Lit l # ps) [] = False"
| "matches (Param n # ps) [] = False"

definition serves :: "route \<Rightarrow> http_method \<Rightarrow> string list \<Rightarrow> bool" where
  "serves r m path \<longleftrightarrow> rt_method r = m \<and> matches (rt_path r) path"

text \<open>Two patterns that no path matches both: segments before a star disagree, or the lengths do.\<close>

fun disjoint_patterns :: "segment list \<Rightarrow> segment list \<Rightarrow> bool" where
  "disjoint_patterns (Star # ps) qs = False"
| "disjoint_patterns ps (Star # qs) = False"
| "disjoint_patterns [] [] = False"
| "disjoint_patterns [] (q # qs) = True"
| "disjoint_patterns (p # ps) [] = True"
| "disjoint_patterns (Lit a # ps) (Lit b # qs) = (a \<noteq> b \<or> disjoint_patterns ps qs)"
| "disjoint_patterns (p # ps) (q # qs) = disjoint_patterns ps qs"

lemma disjoint_patterns_sound: "disjoint_patterns ps qs \<Longrightarrow> matches ps path \<Longrightarrow> \<not> matches qs path"
proof (induction ps qs arbitrary: path rule: disjoint_patterns.induct)
qed (case_tac path; auto)+

fun unambiguous :: "route list \<Rightarrow> bool" where
  "unambiguous [] = True"
| "unambiguous (r # rs) =
     (list_all (\<lambda>s. rt_method r \<noteq> rt_method s \<or> disjoint_patterns (rt_path r) (rt_path s)) rs \<and> unambiguous rs)"

lemma unambiguous_once:
  "unambiguous rs \<Longrightarrow> length (filter (\<lambda>r. serves r m path) rs) \<le> 1"
  by (induction rs) (auto simp: list_all_iff serves_def filter_empty_conv dest: disjoint_patterns_sound)

text \<open>The endpoint of an API call, as \<open>ServerApi\<close> serves it.\<close>

fun call_endpoint :: "api_call \<Rightarrow> route_endpoint" where
  "call_endpoint (CallCreateAudio r) = EpCreateAudio"
| "call_endpoint (CallCreateVideo r) = EpCreateVideo"
| "call_endpoint (CallStatus i) = EpGetStatus"
| "call_endpoint (CallRetry i) = EpRetryJob"
| "call_endpoint (CallCleanup h) = EpCleanupMedia"

lemma all_calls:
  "(\<forall>c. P c) \<longleftrightarrow> (\<forall>r. P (CallCreateAudio r)) \<and> (\<forall>r. P (CallCreateVideo r)) \<and> (\<forall>i. P (CallStatus i)) \<and>
     (\<forall>i. P (CallRetry i)) \<and> (\<forall>h. P (CallCleanup h))"
  by (metis api_call.exhaust)

text \<open>
  C35. Routing is unambiguous and guarded: whatever the path, at most one route serves it, so the answer
  does not depend on Echo's priorities; the handlers that read, create, retry or delete jobs and media are
  reached only through the API key check, with the limiter of jobs exactly in front of those that
  \<open>ServerApi\<close> limits; and every other route changes no state of the service by its method.
\<close>

theorem routes_unambiguous_guarded:
  "length (filter (\<lambda>r. serves r m path) (register_routes enc)) \<le> 1 \<and>
   (\<forall>c. \<exists>!r. r \<in> set (register_routes enc) \<and> rt_endpoint r = call_endpoint c) \<and>
   (\<forall>r \<in> set (register_routes enc). \<forall>c. rt_endpoint r = call_endpoint c \<longrightarrow>
      rt_middleware r = ApiKey # (if call_limited c then [job_limit] else [])) \<and>
   (\<forall>r \<in> set (register_routes enc). ApiKey \<notin> set (rt_middleware r) \<longrightarrow> rt_method r = GET)"
proof (intro conjI)
  have "unambiguous (register_routes enc)"
    by (cases enc; simp add: register_routes_def api_route_def route_def)
  then show "length (filter (\<lambda>r. serves r m path) (register_routes enc)) \<le> 1" by (rule unambiguous_once)
  have one: "length (filter (\<lambda>r. rt_endpoint r = call_endpoint c) (register_routes enc)) = 1" for c
    by (cases c; cases enc; simp add: register_routes_def api_route_def route_def)
  show "\<forall>c. \<exists>!r. r \<in> set (register_routes enc) \<and> rt_endpoint r = call_endpoint c"
  proof
    fix c
    obtain r where "filter (\<lambda>r. rt_endpoint r = call_endpoint c) (register_routes enc) = [r]"
      using one [of c] by (auto simp: length_Suc_conv)
    then have "{r \<in> set (register_routes enc). rt_endpoint r = call_endpoint c} = {r}" by (metis list.set(1,2) set_filter)
    then show "\<exists>!r. r \<in> set (register_routes enc) \<and> rt_endpoint r = call_endpoint c"
      unfolding set_eq_iff mem_Collect_eq singleton_iff by metis
  qed
  have "list_all (\<lambda>r. \<forall>c. rt_endpoint r = call_endpoint c \<longrightarrow>
      rt_middleware r = ApiKey # (if call_limited c then [job_limit] else [])) (register_routes enc)"
    by (cases enc; simp add: register_routes_def api_route_def route_def call_limited_def all_calls)
  then show "\<forall>r \<in> set (register_routes enc). \<forall>c. rt_endpoint r = call_endpoint c \<longrightarrow>
      rt_middleware r = ApiKey # (if call_limited c then [job_limit] else [])"
    by (simp add: list_all_iff)
  have "list_all (\<lambda>r. ApiKey \<notin> set (rt_middleware r) \<longrightarrow> rt_method r = GET) (register_routes enc)"
    by (cases enc; simp add: register_routes_def api_route_def route_def)
  then show "\<forall>r \<in> set (register_routes enc). ApiKey \<notin> set (rt_middleware r) \<longrightarrow> rt_method r = GET"
    by (simp add: list_all_iff)
qed

theorem routes_unambiguous_guarded_witness:
  "length (filter (\<lambda>r. serves r POST [''api'', ''jobs'', ''j1'', ''retry'']) (register_routes True)) = 1 \<and>
   (\<exists>r. r \<in> set (register_routes True) \<and> serves r POST [''api'', ''jobs'', ''j1'', ''retry''] \<and> rt_middleware r = [ApiKey, job_limit])"
proof -
  let ?r = "api_route POST [Lit ''jobs'', Param ''id'', Lit ''retry''] EpRetryJob [job_limit]"
  let ?on = "\<lambda>r. serves r POST [''api'', ''jobs'', ''j1'', ''retry'']"
  have r: "?r \<in> set (register_routes True)" "?on ?r" "rt_endpoint ?r = call_endpoint (CallRetry ''j1'')"
    by (simp_all add: register_routes_def serves_def api_route_def route_def)
  then have "filter ?on (register_routes True) \<noteq> []" by (auto simp: filter_empty_conv)
  then have "length (filter ?on (register_routes True)) \<noteq> 0" by simp
  note t = routes_unambiguous_guarded [of POST "[''api'', ''jobs'', ''j1'', ''retry'']" True]
  from t have "length (filter ?on (register_routes True)) \<le> 1" by blast
  moreover from t r(1,3) have "rt_middleware ?r = ApiKey # (if call_limited (CallRetry ''j1'') then [job_limit] else [])" by blast
  then have "rt_middleware ?r = [ApiKey, job_limit]" by (simp add: call_limited_def)
  ultimately show ?thesis using r(1,2) \<open>length (filter ?on (register_routes True)) \<noteq> 0\<close>
    by (intro conjI exI [of _ ?r]) linarith+
qed

section \<open>Error answers\<close>

text \<open>
  The handler of errors: nothing once the response is committed, otherwise the resolved status, or 500, with
  a message unless the method is \<open>HEAD\<close>. \<open>msg\<close> is the message of an \<open>echo.HTTPError\<close>.
\<close>

definition http_error_handler ::
    "(nat \<Rightarrow> string) \<Rightarrow> bool \<Rightarrow> bool \<Rightarrow> nat \<Rightarrow> message option \<Rightarrow> (nat \<times> string option) option" where
  "http_error_handler status_text committed is_head resolved msg =
     (if committed then None
      else
        (let status = (if resolved = 0 then 500 else resolved);
             text = (case msg of None \<Rightarrow> status_text status | Some m \<Rightarrow> http_error_message status_text m status) in
         Some (status, if is_head then None else Some text)))"

lemma http_error_has_text:
  assumes "http_error_handler status_text committed False resolved (Some m) = Some (status, body)" and "status_text 500 \<noteq> []"
  shows "\<exists>text. body = Some text \<and> text \<noteq> []"
  using assms by (auto simp: http_error_handler_def http_error_message_def Let_def split: if_splits message.splits)

end
