(* ===== verification/Observability.thy ===== *)
theory Observability
  imports WorkerPool
begin

text \<open>
  Metrics (\<open>internal/metrics\<close>), trace propagation (\<open>internal/tracing\<close>) and the instrumentation of task handlers
  (\<open>internal/queue/server.go\<close>). Prometheus is a registry of counters, numbers of observations and gauges
  by name and labels; durations are left out. OpenTelemetry is a record of functions on a context.
\<close>

section \<open>The registry\<close>

type_synonym labels = "string list"

record registry =
  rg_counters :: "string \<times> labels \<Rightarrow> nat"
  rg_observed :: "string \<times> labels \<Rightarrow> nat"
  rg_gauges :: "string \<times> labels \<Rightarrow> nat option"

definition count_metric :: "string \<Rightarrow> labels \<Rightarrow> registry \<Rightarrow> registry" where
  "count_metric name ls R = R\<lparr>rg_counters := (rg_counters R)((name, ls) := rg_counters R (name, ls) + 1)\<rparr>"

definition observe_metric :: "string \<Rightarrow> labels \<Rightarrow> registry \<Rightarrow> registry" where
  "observe_metric name ls R = R\<lparr>rg_observed := (rg_observed R)((name, ls) := rg_observed R (name, ls) + 1)\<rparr>"

definition set_gauge :: "string \<Rightarrow> labels \<Rightarrow> nat \<Rightarrow> registry \<Rightarrow> registry" where
  "set_gauge name ls n R = R\<lparr>rg_gauges := (rg_gauges R)((name, ls) \<mapsto> n)\<rparr>"

text \<open>The metrics of the service with their label names; Prometheus panics on labels of another number.\<close>

definition metric_families :: "(string \<times> string list) list" where
  "metric_families =
     [(''vylux_http_requests_total'', [''method'', ''route'', ''status'']),
      (''vylux_http_request_duration_seconds'', [''method'', ''route'', ''status'']),
      (''vylux_image_cache_events_total'', [''layer'', ''result'']),
      (''vylux_image_results_total'', [''result'']),
      (''vylux_image_errors_total'', [''stage'', ''status'']),
      (''vylux_worker_tasks_total'', [''task_type'', ''result'']),
      (''vylux_worker_task_duration_seconds'', [''task_type'', ''result'']),
      (''vylux_readiness_failures_total'', [''check'']),
      (''vylux_queue_tasks'', [''queue'', ''state'']),
      (''vylux_queue_metrics_sync_failures_total'', []),
      (''vylux_storage_operations_total'', [''role'', ''driver'', ''operation'', ''result'']),
      (''vylux_storage_operation_duration_seconds'', [''role'', ''driver'', ''operation'', ''result''])]"

definition well_labelled :: "string \<times> labels \<Rightarrow> bool" where
  "well_labelled k \<longleftrightarrow> map_option length (map_of metric_families (fst k)) = Some (length (snd k))"

definition registry_ok :: "registry \<Rightarrow> bool" where
  "registry_ok R \<longleftrightarrow>
     (\<forall>k. (rg_counters R k > 0 \<or> rg_observed R k > 0 \<or> rg_gauges R k \<noteq> None) \<longrightarrow> well_labelled k)"

definition observe_image_cache :: "string \<Rightarrow> string \<Rightarrow> registry \<Rightarrow> registry" where
  "observe_image_cache layer result = count_metric ''vylux_image_cache_events_total'' [layer, result]"

definition observe_image_result :: "string \<Rightarrow> registry \<Rightarrow> registry" where
  "observe_image_result result = count_metric ''vylux_image_results_total'' [result]"

definition observe_image_error :: "string \<Rightarrow> nat \<Rightarrow> registry \<Rightarrow> registry" where
  "observe_image_error stage status = count_metric ''vylux_image_errors_total'' [stage, show_nat status]"

definition observe_worker_task :: "string \<Rightarrow> string \<Rightarrow> registry \<Rightarrow> registry" where
  "observe_worker_task ty result R =
     observe_metric ''vylux_worker_task_duration_seconds'' [ty, result] (count_metric ''vylux_worker_tasks_total'' [ty, result] R)"

definition observe_storage_operation :: "string \<Rightarrow> string \<Rightarrow> string \<Rightarrow> string \<Rightarrow> registry \<Rightarrow> registry" where
  "observe_storage_operation role driver op result R =
     observe_metric ''vylux_storage_operation_duration_seconds'' [role, driver, op, result]
       (count_metric ''vylux_storage_operations_total'' [role, driver, op, result] R)"

definition observe_readiness_failure :: "string \<Rightarrow> registry \<Rightarrow> registry" where
  "observe_readiness_failure check = count_metric ''vylux_readiness_failures_total'' [check]"

section \<open>HTTP requests\<close>

text \<open>\<open>resolved\<close> is the status that \<open>echo.ResolveResponseStatus\<close> finds, or 0.\<close>

definition response_status :: "nat \<Rightarrow> nat" where
  "response_status resolved = (if resolved > 0 then resolved else 200)"

definition http_middleware ::
    "('s \<Rightarrow> 'e option \<Rightarrow> nat) \<Rightarrow> string \<Rightarrow> string \<Rightarrow> ('s \<Rightarrow> 'e option \<times> 's) \<Rightarrow> 's \<Rightarrow> registry \<Rightarrow> ('e option \<times> 's) \<times> registry" where
  "http_middleware resolve meth path handler s R =
     (case handler s of (err, s') \<Rightarrow>
        (let ls = [meth, (if path = [] then ''unmatched'' else path), show_nat (response_status (resolve s' err))] in
         ((err, s'), observe_metric ''vylux_http_request_duration_seconds'' ls (count_metric ''vylux_http_requests_total'' ls R))))"

section \<open>Queue depth\<close>

record queue_info =
  qi_size :: nat
  qi_pending :: nat
  qi_active :: nat
  qi_scheduled :: nat
  qi_retry :: nat
  qi_archived :: nat
  qi_completed :: nat
  qi_aggregating :: nat

record depth_inspector =
  di_queues :: "string list option"
  di_info :: "string \<Rightarrow> queue_info option"

definition depths :: "queue_info \<Rightarrow> (string \<times> nat) list" where
  "depths i =
     [(''size'', qi_size i), (''pending'', qi_pending i), (''active'', qi_active i), (''scheduled'', qi_scheduled i),
      (''retry'', qi_retry i), (''archived'', qi_archived i), (''completed'', qi_completed i),
      (''aggregating'', qi_aggregating i)]"

definition set_depth :: "string \<Rightarrow> queue_info \<Rightarrow> registry \<Rightarrow> registry" where
  "set_depth q i = fold (\<lambda>(state, n). set_gauge ''vylux_queue_tasks'' [q, state] n) (depths i)"

definition sync_failed :: "registry \<Rightarrow> registry" where
  "sync_failed = count_metric ''vylux_queue_metrics_sync_failures_total'' []"

fun sync_queues :: "(string \<Rightarrow> queue_info option) \<Rightarrow> string list \<Rightarrow> registry \<Rightarrow> registry" where
  "sync_queues info [] R = R"
| "sync_queues info (q # qs) R =
     sync_queues info qs (case info q of None \<Rightarrow> sync_failed R | Some i \<Rightarrow> set_depth q i R)"

definition sync_queue_depth :: "depth_inspector option \<Rightarrow> registry \<Rightarrow> registry" where
  "sync_queue_depth insp R =
     (case insp of None \<Rightarrow> R
      | Some d \<Rightarrow> (case di_queues d of None \<Rightarrow> sync_failed R | Some qs \<Rightarrow> sync_queues (di_info d) qs R))"

section \<open>Trace propagation\<close>

record carrier =
  ca_traceparent :: string
  ca_tracestate :: string

text \<open>\<open>inject\<close> gives the propagation fields of a context, \<open>extract\<close> puts fields into a context.\<close>

record 'c telemetry =
  tl_background :: 'c
  tl_inject :: "'c \<Rightarrow> string \<rightharpoonup> string"
  tl_extract :: "'c \<Rightarrow> (string \<rightharpoonup> string) \<Rightarrow> 'c"
  tl_start :: "'c \<Rightarrow> string \<Rightarrow> 'c"
  tl_trace_id :: "'c \<Rightarrow> string option"

text \<open>The trace id of a valid span context, or the empty string.\<close>

definition trace_id :: "'c telemetry \<Rightarrow> 'c \<Rightarrow> string" where
  "trace_id T ctx = (case tl_trace_id T ctx of None \<Rightarrow> [] | Some i \<Rightarrow> i)"

definition log_fields :: "'c telemetry \<Rightarrow> 'c \<Rightarrow> string list \<Rightarrow> string list" where
  "log_fields T ctx kv = (if trace_id T ctx = [] then kv else [''trace_id'', trace_id T ctx] @ kv)"

definition field :: "(string \<rightharpoonup> string) \<Rightarrow> string \<Rightarrow> string" where
  "field m k = (case m k of None \<Rightarrow> [] | Some v \<Rightarrow> v)"

definition capture_carrier :: "'c telemetry \<Rightarrow> 'c \<Rightarrow> carrier" where
  "capture_carrier T ctx =
     \<lparr>ca_traceparent = field (tl_inject T ctx) ''traceparent'', ca_tracestate = field (tl_inject T ctx) ''tracestate''\<rparr>"

definition carrier_map :: "carrier \<Rightarrow> string \<rightharpoonup> string" where
  "carrier_map c =
     (let m = (if ca_traceparent c \<noteq> [] then [''traceparent'' \<mapsto> ca_traceparent c] else Map.empty) in
      if ca_tracestate c \<noteq> [] then m(''tracestate'' \<mapsto> ca_tracestate c) else m)"

definition context_with_carrier :: "'c telemetry \<Rightarrow> 'c option \<Rightarrow> carrier \<Rightarrow> 'c" where
  "context_with_carrier T ctx c =
     (let ctx = (case ctx of None \<Rightarrow> tl_background T | Some x \<Rightarrow> x) in
      if ca_traceparent c = [] \<and> ca_tracestate c = [] then ctx else tl_extract T ctx (carrier_map c))"

definition background_context :: "'c telemetry \<Rightarrow> 'c \<Rightarrow> 'c" where
  "background_context T parent = context_with_carrier T (Some (tl_background T)) (capture_carrier T parent)"

text \<open>The fields \<open>omitempty\<close> writes into a payload, and what \<open>Unmarshal\<close> reads back; its error is ignored.\<close>

definition carrier_fields :: "carrier \<Rightarrow> optmap" where
  "carrier_fields c =
     (if ca_traceparent c = [] then [] else [(''traceparent'', GStr (ca_traceparent c))]) @
     (if ca_tracestate c = [] then [] else [(''tracestate'', GStr (ca_tracestate c))])"

definition str_field :: "optmap \<Rightarrow> string \<Rightarrow> string" where
  "str_field m k = (case map_of m k of Some (GStr s) \<Rightarrow> s | _ \<Rightarrow> [])"

definition carrier_from_json :: "optmap option \<Rightarrow> carrier" where
  "carrier_from_json payload =
     (case payload of None \<Rightarrow> \<lparr>ca_traceparent = [], ca_tracestate = []\<rparr>
      | Some m \<Rightarrow> \<lparr>ca_traceparent = str_field m ''traceparent'', ca_tracestate = str_field m ''tracestate''\<rparr>)"

text \<open>The server span of a request: its response header, and the context the handler sees.\<close>

definition trace_middleware ::
    "'c telemetry \<Rightarrow> string \<Rightarrow> string \<Rightarrow> (string \<rightharpoonup> string) \<Rightarrow> 'c \<Rightarrow> ('c \<Rightarrow> nat \<times> string option) \<Rightarrow>
     (string \<rightharpoonup> string) \<times> nat \<times> string option" where
  "trace_middleware T route url_path headers ctx handler =
     (let c = tl_start T (tl_extract T ctx headers) (if route = [] then url_path else route) in
      case handler c of (resolved, err) \<Rightarrow>
        (if trace_id T c \<noteq> [] then [''X-Trace-ID'' \<mapsto> trace_id T c] else Map.empty, response_status resolved, err))"

section \<open>Task handlers\<close>

definition instrument_handler ::
    "'c telemetry \<Rightarrow> string \<Rightarrow> ('c \<Rightarrow> 's \<Rightarrow> string option \<times> 's) \<Rightarrow> 'c \<Rightarrow> optmap option \<Rightarrow> 's \<Rightarrow> registry \<Rightarrow>
     (string option \<times> 's) \<times> registry" where
  "instrument_handler T ty handler ctx payload s R =
     (let c = tl_start T (context_with_carrier T (Some ctx) (carrier_from_json payload)) ty in
      case handler c s of (err, s') \<Rightarrow>
        ((err, s'), observe_worker_task ty (if err = None then ''success'' else ''error'') R))"

text \<open>A worker that runs tasks one after the other; \<open>json\<close> is the payload of a task as dynamic value.\<close>

fun run_instrumented ::
    "'c telemetry \<Rightarrow> 'c \<Rightarrow> (task \<Rightarrow> optmap option) \<Rightarrow> worker_env \<Rightarrow> 'i image_tools \<Rightarrow> task list \<Rightarrow> worker_state \<Rightarrow> registry \<Rightarrow>
     (string option list \<times> worker_state) \<times> registry" where
  "run_instrumented T ctx json W I [] st R = (([], st), R)"
| "run_instrumented T ctx json W I (t # ts) st R =
     (case instrument_handler T (payload_type (tk_payload t)) (\<lambda>c. run_payload W I (tk_id t) (tk_payload t)) ctx (json t) st R of
        ((err, st1), R1) \<Rightarrow>
          (case run_instrumented T ctx json W I ts st1 R1 of ((errs, st2), R2) \<Rightarrow> ((err # errs, st2), R2)))"

fun run_plain :: "worker_env \<Rightarrow> 'i image_tools \<Rightarrow> task list \<Rightarrow> worker_state \<Rightarrow> string option list \<times> worker_state" where
  "run_plain W I [] st = ([], st)"
| "run_plain W I (t # ts) st =
     (case run_payload W I (tk_id t) (tk_payload t) st of
        (err, st1) \<Rightarrow> (case run_plain W I ts st1 of (errs, st2) \<Rightarrow> (err # errs, st2)))"

section \<open>Properties\<close>

text \<open>Documented behaviour of the propagator: extracting what was injected restores a valid trace id.\<close>

definition propagates :: "'c telemetry \<Rightarrow> bool" where
  "propagates T \<longleftrightarrow>
     (\<forall>ctx target m. tl_trace_id T ctx \<noteq> None \<longrightarrow>
        field (tl_inject T ctx) ''traceparent'' \<noteq> [] \<and>
        (field m ''traceparent'' = field (tl_inject T ctx) ''traceparent'' \<longrightarrow> tl_trace_id T (tl_extract T target m) = tl_trace_id T ctx)) \<and>
     (\<forall>ctx n. tl_trace_id T ctx \<noteq> None \<longrightarrow> tl_trace_id T (tl_start T ctx n) = tl_trace_id T ctx)"

lemma carrier_roundtrip:
  assumes "''traceparent'' \<notin> fst ` set rest" and "''tracestate'' \<notin> fst ` set rest"
  shows "carrier_from_json (Some (carrier_fields c @ rest)) = c"
proof -
  have "map_of rest ''traceparent'' = None" "map_of rest ''tracestate'' = None"
    using assms by (simp_all add: map_of_eq_None_iff)
  then show ?thesis by (cases c) (simp add: carrier_from_json_def carrier_fields_def str_field_def)
qed

lemma context_keeps_trace:
  assumes "propagates T" and "tl_trace_id T ctx \<noteq> None"
  shows "tl_trace_id T (context_with_carrier T target (capture_carrier T ctx)) = tl_trace_id T ctx"
proof -
  let ?c = "capture_carrier T ctx"
  have p: "field (tl_inject T ctx) ''traceparent'' \<noteq> []" using assms unfolding propagates_def by blast
  then have "field (carrier_map ?c) ''traceparent'' = field (tl_inject T ctx) ''traceparent''"
    by (simp add: carrier_map_def capture_carrier_def field_def [of "Map.empty(_ := _)"] field_def [of "_(_ := _)"] Let_def)
  with assms p show ?thesis
    unfolding propagates_def by (simp add: context_with_carrier_def capture_carrier_def)
qed

text \<open>
  The trace of a request reaches the worker: a task handler sees the trace id of the request that queued
  the task, through the JSON of the payload and whatever context the worker starts from.
\<close>

theorem trace_reaches_worker:
  assumes "propagates T" and "tl_trace_id T request \<noteq> None"
    and "''traceparent'' \<notin> fst ` set rest" and "''tracestate'' \<notin> fst ` set rest"
  shows "fst (instrument_handler T ty (\<lambda>c. handler (tl_trace_id T c)) worker
      (Some (carrier_fields (capture_carrier T request) @ rest)) s R) = handler (tl_trace_id T request) s"
proof -
  let ?c = "context_with_carrier T (Some worker) (capture_carrier T request)"
  have "tl_trace_id T ?c = tl_trace_id T request" by (rule context_keeps_trace [OF assms(1,2)])
  moreover from this have "tl_trace_id T (tl_start T ?c ty) = tl_trace_id T ?c"
    using assms(1,2) unfolding propagates_def by metis
  ultimately show ?thesis
    by (simp add: instrument_handler_def carrier_roundtrip [OF assms(3,4)] split: prod.split)
qed

lemma background_keeps_trace:
  assumes "propagates T" and "tl_trace_id T parent \<noteq> None"
  shows "trace_id T (background_context T parent) = trace_id T parent"
  using context_keeps_trace [OF assms] by (simp add: trace_id_def background_context_def)

lemma count_metric_simps [simp]:
  "rg_counters (count_metric n ls R) k = rg_counters R k + (if k = (n, ls) then 1 else 0)"
  "rg_gauges (count_metric n ls R) = rg_gauges R" "rg_counters (observe_metric n ls R) = rg_counters R" "rg_gauges (observe_metric n ls R) = rg_gauges R"
  "rg_counters (set_gauge n ls v R) = rg_counters R" "rg_gauges (set_gauge n ls v R) k = (if k = (n, ls) then Some v else rg_gauges R k)"
  by (auto simp: count_metric_def observe_metric_def set_gauge_def)

definition task_result :: "string option \<Rightarrow> string" where
  "task_result err = (if err = None then ''success'' else ''error'')"

text \<open>
  Instrumentation does not change what tasks do, and it counts every attempt once: over any run of tasks
  the errors and the state are those without it, and the counter of a type and a result grows by the
  number of tasks of that type that ended so.
\<close>

theorem worker_metrics_count_attempts:
  "run_instrumented T ctx json W I ts st R = ((errs, st'), R') \<Longrightarrow>
   run_plain W I ts st = (errs, st') \<and>
   rg_counters R' (''vylux_worker_tasks_total'', [ty, res]) = rg_counters R (''vylux_worker_tasks_total'', [ty, res]) +
     length (filter (\<lambda>(t, err). payload_type (tk_payload t) = ty \<and> task_result err = res) (zip ts errs))"
proof (induction ts arbitrary: st R errs)
  case (Cons t ts)
  obtain err st1 where r: "run_payload W I (tk_id t) (tk_payload t) st = (err, st1)" by force
  let ?R = "observe_worker_task (payload_type (tk_payload t)) (task_result err) R"
  obtain es st2 R2 where rec: "run_instrumented T ctx json W I ts st1 ?R = ((es, st2), R2)" by (metis prod.exhaust)
  then have e: "errs = err # es" "st2 = st'" "R2 = R'"
    using Cons.prems r by (auto simp: instrument_handler_def task_result_def)
  with Cons.IH [of st1 ?R es] rec r show ?case by (auto simp: observe_worker_task_def)
qed simp

lemma set_gauges_fold:
  "distinct (map fst ds) \<Longrightarrow> rg_gauges (fold (\<lambda>(s, n). set_gauge name [q, s] n) ds R) (name, [p, s]) =
     (if p = q \<and> s \<in> fst ` set ds then map_of ds s else rg_gauges R (name, [p, s]))"
  by (induction ds arbitrary: R) (auto simp: image_iff split: prod.splits)

lemma set_depth_simps:
  "rg_gauges (set_depth q i R) (''vylux_queue_tasks'', [p, s]) =
     (if p = q \<and> s \<in> fst ` set (depths i) then map_of (depths i) s else rg_gauges R (''vylux_queue_tasks'', [p, s]))"
  "rg_counters (set_depth q i R) = rg_counters R"
proof -
  have "distinct (map fst (depths i))" by (simp add: depths_def)
  then show "rg_gauges (set_depth q i R) (''vylux_queue_tasks'', [p, s]) =
     (if p = q \<and> s \<in> fst ` set (depths i) then map_of (depths i) s else rg_gauges R (''vylux_queue_tasks'', [p, s]))"
    unfolding set_depth_def by (rule set_gauges_fold)
  have "rg_counters (fold (\<lambda>(s, n). set_gauge name [q, s] n) ds R) = rg_counters R" for name ds
    by (induction ds arbitrary: R) auto
  then show "rg_counters (set_depth q i R) = rg_counters R" by (simp add: set_depth_def)
qed

text \<open>Every operation labels its metrics as they are declared.\<close>

lemma registry_ok_basic:
  assumes "registry_ok R" and "well_labelled (n, ls)"
  shows "registry_ok (count_metric n ls R)" "registry_ok (observe_metric n ls R)" "registry_ok (set_gauge n ls v R)"
  using assms by (auto simp: registry_ok_def count_metric_def observe_metric_def set_gauge_def)

lemma well_labelled_families:
  "well_labelled (''vylux_http_requests_total'', [a, b, c])" "well_labelled (''vylux_http_request_duration_seconds'', [a, b, c])"
  "well_labelled (''vylux_image_cache_events_total'', [a, b])" "well_labelled (''vylux_image_results_total'', [a])"
  "well_labelled (''vylux_image_errors_total'', [a, b])" "well_labelled (''vylux_worker_tasks_total'', [a, b])"
  "well_labelled (''vylux_worker_task_duration_seconds'', [a, b])" "well_labelled (''vylux_readiness_failures_total'', [a])"
  "well_labelled (''vylux_queue_tasks'', [a, b])" "well_labelled (''vylux_queue_metrics_sync_failures_total'', [])"
  "well_labelled (''vylux_storage_operations_total'', [a, b, c, d])"
  "well_labelled (''vylux_storage_operation_duration_seconds'', [a, b, c, d])"
  by (simp_all add: well_labelled_def metric_families_def)

lemmas registry_ok_intros = registry_ok_basic well_labelled_families

lemma set_depth_ok: "registry_ok R \<Longrightarrow> registry_ok (set_depth q i R)"
proof -
  have "registry_ok R \<Longrightarrow> registry_ok (fold (\<lambda>(s, n). set_gauge ''vylux_queue_tasks'' [q, s] n) ds R)" for ds
    by (induction ds arbitrary: R) (auto intro: registry_ok_intros)
  then show "registry_ok R \<Longrightarrow> registry_ok (set_depth q i R)" by (simp add: set_depth_def)
qed

lemma sync_queues_ok: "registry_ok R \<Longrightarrow> registry_ok (sync_queues info qs R)"
  by (induction info qs R rule: sync_queues.induct) (auto simp: sync_failed_def set_depth_ok registry_ok_intros split: option.split)

theorem metrics_well_labelled:
  assumes "registry_ok R"
  shows "registry_ok (observe_image_cache layer result R)" "registry_ok (observe_image_result result R)"
    "registry_ok (observe_image_error stage status R)" "registry_ok (observe_worker_task ty result R)"
    "registry_ok (observe_storage_operation role driver oper result R)" "registry_ok (observe_readiness_failure check R)"
    "registry_ok (sync_queue_depth insp R)" "registry_ok (snd (http_middleware resolve meth path handler s R))"
    "registry_ok (snd (instrument_handler T ty work ctx payload s R))"
  using assms
  by (auto simp: observe_image_cache_def observe_image_result_def observe_image_error_def observe_worker_task_def
      observe_storage_operation_def observe_readiness_failure_def sync_queue_depth_def sync_failed_def http_middleware_def
      instrument_handler_def Let_def sync_queues_ok registry_ok_intros split: option.split prod.split)

text \<open>A scrape shows the depth of every queue that could be read, keeps the last one of the others, and counts each failure.\<close>

theorem scrape_shows_depths:
  "rg_gauges (sync_queues info qs R) (''vylux_queue_tasks'', [q, s]) =
     (case (if q \<in> set qs then info q else None) of
        Some i \<Rightarrow> (if s \<in> fst ` set (depths i) then map_of (depths i) s else rg_gauges R (''vylux_queue_tasks'', [q, s]))
      | None \<Rightarrow> rg_gauges R (''vylux_queue_tasks'', [q, s])) \<and>
   rg_counters (sync_queues info qs R) (''vylux_queue_metrics_sync_failures_total'', []) =
     rg_counters R (''vylux_queue_metrics_sync_failures_total'', []) + length (filter (\<lambda>q. info q = None) qs)"
  by (induction info qs R rule: sync_queues.induct) (auto simp: set_depth_simps sync_failed_def split: option.split)

end
