(* ===== verification/TempFiles.thy ===== *)
theory TempFiles
  imports VideoWorkers
begin

text \<open>
  How workers fetch their source: \<open>fetchSource\<close>, \<open>prepareTempRoot\<close> and \<open>downloadToTemp\<close> of
  \<open>internal/queue/handlers/deps.go\<close>, on the files of the scratch directory. A read of an object delivers
  bytes and ends well or with an error; \<open>CreateTemp\<close> draws a name for a directory and a pattern.
\<close>

section \<open>The scratch directory\<close>

type_synonym files = "string \<rightharpoonup> string"

record scratch_env =
  se_scratch_dir :: string
  se_mkdir :: "string \<Rightarrow> string option"
  se_get :: "string \<Rightarrow> (string, string \<times> string option) result"
  se_create :: "string \<Rightarrow> string \<Rightarrow> (string, string) result"
  se_close :: "string option"

definition read_all :: "string \<times> string option \<Rightarrow> (string, string) result" where
  "read_all body = (case body of (data, None) \<Rightarrow> Inr data | (data, Some e) \<Rightarrow> Inl e)"

definition fetch_error :: "string \<Rightarrow> string \<Rightarrow> string \<Rightarrow> string" where
  "fetch_error bucket key e = ''fetch '' @ bucket @ ''/'' @ key @ '': '' @ e"

definition fetch_source :: "scratch_env \<Rightarrow> string \<Rightarrow> string \<Rightarrow> (string, string) result" where
  "fetch_source E bucket key = bind_result (map_err (fetch_error bucket key) (se_get E key)) read_all"

definition prepare_temp_root :: "scratch_env \<Rightarrow> string \<Rightarrow> (string, string) result" where
  "prepare_temp_root E dir =
     (let d = (if trim_space dir = [] then se_scratch_dir E else trim_space dir) in
      case se_mkdir E d of None \<Rightarrow> Inr d | Some e \<Rightarrow> Inl (''create scratch dir '' @ d @ '': '' @ e))"

definition remove_file :: "string \<Rightarrow> files \<Rightarrow> files" where
  "remove_file path fs = fs(path := None)"

text \<open>What \<open>io.Copy\<close> delivered is in the file when it fails.\<close>

definition download_to_temp :: "scratch_env \<Rightarrow> string \<Rightarrow> string \<Rightarrow> string \<Rightarrow> files \<Rightarrow> (string, string) result \<times> files" where
  "download_to_temp E bucket key pattern fs =
     (case se_get E key of
        Inl e \<Rightarrow> (Inl (fetch_error bucket key e), fs)
      | Inr (data, err) \<Rightarrow>
          (case prepare_temp_root E [] of
             Inl e \<Rightarrow> (Inl e, fs)
           | Inr dir \<Rightarrow>
               (case se_create E dir pattern of
                  Inl e \<Rightarrow> (Inl (''create temp file: '' @ e), fs)
                | Inr path \<Rightarrow>
                    (let fs1 = fs(path \<mapsto> data) in
                     case err of
                       Some e \<Rightarrow> (Inl (''download to temp: '' @ e), remove_file path fs1)
                     | None \<Rightarrow>
                         (case se_close E of
                            Some e \<Rightarrow> (Inl (''close temp file: '' @ e), remove_file path fs1)
                          | None \<Rightarrow> (Inr path, fs1))))))"

text \<open>
  A download that fails leaves the scratch directory as it was; one that succeeds adds one file with the
  bytes a fetch of the object returns, and the deferred cleanup takes just that file away again.
\<close>

theorem download_leaves_nothing_behind:
  assumes "download_to_temp E bucket key pattern fs = (r, fs')" and "\<And>dir p. se_create E dir pattern = Inr p \<Longrightarrow> fs p = None"
  shows "case r of
      Inl e \<Rightarrow> fs' = fs
    | Inr p \<Rightarrow> fs p = None \<and> (\<exists>data. fetch_source E bucket key = Inr data \<and> fs' = fs(p \<mapsto> data)) \<and> remove_file p fs' = fs"
proof -
  have remove: "(remove_file p (fs(p \<mapsto> data)) = fs) \<longleftrightarrow> fs p = None" for p data
    by (auto simp: remove_file_def fun_eq_iff)
  show ?thesis
    using assms
    by (auto simp: download_to_temp_def fetch_source_def read_all_def remove Let_def split: sum.splits option.splits prod.splits)
qed

section \<open>Workers on the scratch directory\<close>

text \<open>The inputs \<open>we_download\<close>, \<open>we_fetch\<close> and \<open>we_temp_root\<close> of a worker are these functions.\<close>

definition on_scratch :: "scratch_env \<Rightarrow> string \<Rightarrow> string \<Rightarrow> files \<Rightarrow> worker_env \<Rightarrow> worker_env" where
  "on_scratch E bucket pattern fs W =
     W\<lparr>we_download := (\<lambda>key. fst (download_to_temp E bucket key pattern fs)), we_fetch := fetch_source E bucket,
       we_temp_root := prepare_temp_root E []\<rparr>"

text \<open>The body of a handler between its download and its deferred cleanup.\<close>

definition with_cleanup :: "(string, string) result \<times> files \<Rightarrow> files" where
  "with_cleanup d = (case fst d of Inl e \<Rightarrow> snd d | Inr p \<Rightarrow> remove_file p (snd d))"

lemma with_cleanup_restores:
  assumes "\<And>dir p. se_create E dir pattern = Inr p \<Longrightarrow> fs p = None"
  shows "with_cleanup (download_to_temp E bucket key pattern fs) = fs"
proof -
  obtain r fs' where d: "download_to_temp E bucket key pattern fs = (r, fs')" by force
  from download_leaves_nothing_behind [OF this assms] d show ?thesis
    by (auto simp: with_cleanup_def split: sum.splits)
qed

end
