(* ===== verification/MediaTools.thy ===== *)
theory MediaTools
  imports Workers
begin

text \<open>
  How the media tools are run: \<open>internal/mediaexec/cmd.go\<close>, the tool paths of \<open>internal/video/ffexec.go\<close> and
  \<open>internal/audio/ffexec.go\<close>, and the commands of \<open>internal/video/processor.go\<close> and \<open>internal/audio/probe.go\<close> that
  read from ffprobe. Running a process is a function of the binary and its arguments.
\<close>

section \<open>Processes\<close>

record process_result =
  px_stdout :: string
  px_stderr :: string
  px_error :: "string option"

type_synonym exec = "string \<Rightarrow> string list \<Rightarrow> process_result"

definition cmd_error :: "string \<Rightarrow> string \<Rightarrow> string \<Rightarrow> string" where
  "cmd_error bin e stderr = bin @ '': '' @ e @ '': '' @ stderr"

definition cmd_output :: "exec \<Rightarrow> string \<Rightarrow> string list \<Rightarrow> (string, string) result" where
  "cmd_output run bin args =
     (let r = run bin args in
      case px_error r of Some e \<Rightarrow> Inl (cmd_error bin e (px_stderr r)) | None \<Rightarrow> Inr (px_stdout r))"

text \<open>The second component is what a writer given for stderr sees.\<close>

definition cmd_run :: "exec \<Rightarrow> string \<Rightarrow> string list \<Rightarrow> (string, unit) result \<times> string" where
  "cmd_run run bin args =
     (let r = run bin args in
      ((case px_error r of Some e \<Rightarrow> Inl (cmd_error bin e (px_stderr r)) | None \<Rightarrow> Inr ()), px_stderr r))"

record tool_paths =
  tp_ffmpeg :: string
  tp_ffprobe :: string
  tp_packager :: string

definition set_tool_path :: "string \<Rightarrow> string \<Rightarrow> string" where
  "set_tool_path path current = (if path \<noteq> [] then path else current)"

definition tool_paths :: "string \<Rightarrow> string \<Rightarrow> string \<Rightarrow> tool_paths" where
  "tool_paths ffmpeg ffprobe packager =
     \<lparr>tp_ffmpeg = set_tool_path ffmpeg ''ffmpeg'', tp_ffprobe = set_tool_path ffprobe ''ffprobe'',
      tp_packager = set_tool_path packager ''packager''\<rparr>"

section \<open>ffprobe\<close>

definition has_audio_args :: "string \<Rightarrow> string list" where
  "has_audio_args input =
     [''-v'', ''error'', ''-select_streams'', ''a:0'', ''-show_entries'', ''stream=index'', ''-of'', ''csv=p=0'', input]"

definition has_audio :: "exec \<Rightarrow> tool_paths \<Rightarrow> string \<Rightarrow> (string, bool) result" where
  "has_audio run P input =
     bind_result (cmd_output run (tp_ffprobe P) (has_audio_args input)) (\<lambda>out. Inr (trim_space out \<noteq> []))"

definition geometry_args :: "string \<Rightarrow> string list" where
  "geometry_args input =
     [''-v'', ''quiet'', ''-print_format'', ''json'', ''-select_streams'', ''v:0'', ''-show_streams'', input]"

text \<open>The streams of the probe; decoding the JSON is a parameter.\<close>

definition geometry_streams ::
    "(string \<Rightarrow> (string, probe_stream list) result) \<Rightarrow> exec \<Rightarrow> tool_paths \<Rightarrow> string \<Rightarrow> (string, probe_stream list) result" where
  "geometry_streams decode run P input =
     bind_result (cmd_output run (tp_ffprobe P) (geometry_args input)) (\<lambda>out.
       map_err (\<lambda>e. ''parse ffprobe video geometry: '' @ e) (decode out))"

definition probe_args :: "string \<Rightarrow> string list" where
  "probe_args input = [''-v'', ''quiet'', ''-print_format'', ''json'', ''-show_format'', ''-show_streams'', input]"

definition probe_media :: "exec \<Rightarrow> tool_paths \<Rightarrow> string \<Rightarrow> (string, string) result" where
  "probe_media run P input = cmd_output run (tp_ffprobe P) (probe_args input)"

section \<open>The tools of a worker\<close>

record decoders =
  dc_streams :: "string \<Rightarrow> (string, probe_stream list) result"
  dc_probe :: "string \<Rightarrow> (probe_error, ffprobe_output) result"
  dc_probe_failed :: "string \<Rightarrow> probe_error"

definition exec_tools :: "decoders \<Rightarrow> exec \<Rightarrow> tool_paths \<Rightarrow> string \<Rightarrow> media_tools \<Rightarrow> media_tools" where
  "exec_tools D run P input T =
     T\<lparr>mt_streams := geometry_streams (dc_streams D) run P input, mt_has_audio := has_audio run P input,
       mt_ffmpeg := (\<lambda>args. fst (cmd_run run (tp_ffmpeg P) args)), mt_packager := (\<lambda>args. fst (cmd_run run (tp_packager P) args))\<rparr>"

definition exec_worker :: "decoders \<Rightarrow> exec \<Rightarrow> tool_paths \<Rightarrow> string \<Rightarrow> worker_env \<Rightarrow> worker_env" where
  "exec_worker D run P input W =
     W\<lparr>we_run := cmd_output run (tp_ffmpeg P), we_tools := exec_tools D run P input (we_tools W),
       we_probe := bind_result (map_err (dc_probe_failed D) (probe_media run P input)) (dc_probe D)\<rparr>"

lemma exec_worker_simps [simp]:
  "we_run (exec_worker D run P input W) = cmd_output run (tp_ffmpeg P)" "we_download (exec_worker D run P input W) = we_download W"
  "we_db_ok (exec_worker D run P input W) = we_db_ok W" "we_webhook (exec_worker D run P input W) = we_webhook W"
  by (simp_all add: exec_worker_def)

text \<open>
  What a failing tool wrote is not lost: a cover job whose FFmpeg run fails returns an error that names the
  binary, the error and the whole of its stderr, and the row of the job records exactly this text.
\<close>

theorem failed_tool_recorded:
  assumes "we_download W s = Inr tmp" and "we_db_ok W OpFailure" and "get_job i (wk_rows st) = Some row"
    and "px_error (run (tp_ffmpeg P) (cover_args tmp ts)) = Some e" and "ts \<noteq> 0"
  shows "\<exists>st' text row'. handle_cover (exec_worker D run P tmp W) i h s ts cb st = (Some text, st') \<and>
    text = ''extract cover: extract cover at '' @ fixed2 ts @ ''s: '' @
      cmd_error (tp_ffmpeg P) e (px_stderr (run (tp_ffmpeg P) (cover_args tmp ts))) \<and>
    get_job i (wk_rows st') = Some row' \<and> j_status row' = ''failed'' \<and> j_error row' = Some text"
proof -
  let ?W = "exec_worker D run P tmp W"
  let ?text = "''extract cover: extract cover at '' @ fixed2 ts @ ''s: '' @
    cmd_error (tp_ffmpeg P) e (px_stderr (run (tp_ffmpeg P) (cover_args tmp ts)))"
  let ?st = "set_progress ?W i 30 (mark_processing ?W i st)"
  have run: "handle_cover ?W i h s ts cb st = fail_job ?W i \<lparr>jm_type = type_video_cover, jm_hash = h, jm_callback = cb\<rparr> ?text ?st"
    using assms by (simp add: handle_cover_def extract_cover_def cmd_output_def Let_def)
  have "get_job i (wk_rows ?st) \<noteq> None"
    using assms(3) by (simp add: set_progress_def mark_processing_def db_update_def update_job_progress_def update_job_status_def get_job_update)
  then obtain r where "get_job i (wk_rows ?st) = Some r" by blast
  then show ?thesis
    unfolding run using assms(2)
    by (simp add: fail_job_def fail_job_with_result_def start_webhook_def db_update_def update_job_failure_def get_job_update)
qed

end
