(* ===== verification/EncryptedJob.thy ===== *)
theory EncryptedJob
  imports Workers
begin

text \<open>
  Encrypted jobs from the worker to the player: the key the packager gets for the segments of an encrypted
  job is the key the endpoint later gives to the players of that hash.
\<close>

section \<open>What leaves the key table alone\<close>

lemma db_update_keys [simp]: "wk_keys (db_update W op f st) = wk_keys st"
  by (simp add: db_update_def)

lemma start_webhook_keys [simp]: "wk_keys (start_webhook W i meta s e r st) = wk_keys st"
  by (simp add: start_webhook_def)

lemma job_update_keys [simp]:
  "wk_keys (mark_processing W i st) = wk_keys st" "wk_keys (set_progress W i n st) = wk_keys st"
  "wk_keys (snd (complete_job W i meta r st)) = wk_keys st"
  by (simp_all add: mark_processing_def set_progress_def complete_job_def)

lemma job_end [simp]:
  "fst (complete_job W i meta r st) = None" "fst (fail_job_with_result W i meta e res st) \<noteq> None"
  "fst (fail_job W i meta e st) \<noteq> None"
  by (simp_all add: complete_job_def fail_job_with_result_def fail_job_def)

lemma upload_keys [simp]:
  "wk_keys (snd (upload_bytes W k ct d st)) = wk_keys st" "wk_keys (snd (upload_file W k ct p f st)) = wk_keys st"
  by (auto simp: upload_bytes_def upload_file_def split: sum.split)

lemma upload_hls_keys [simp]: "wk_keys (snd (upload_hls_dir W h fs up st)) = wk_keys st"
proof (induction fs arbitrary: up st)
  case (Cons f fs)
  then show ?case by (cases f) (auto simp: Let_def split_beta split: sum.split)
qed simp

lemma upload_audio_hls_keys [simp]: "wk_keys (snd (upload_audio_hls_dir W h dir fs up st)) = wk_keys st"
proof (induction fs arbitrary: up st)
  case (Cons f fs)
  then show ?case by (cases f) (auto simp: Let_def split_beta split: sum.split)
qed simp

lemma finish_keys [simp]:
  "wk_keys (snd (finish_cover W h att x)) = wk_keys (snd x)" "wk_keys (snd (finish_preview W h att x)) = wk_keys (snd x)"
  by (auto simp: finish_cover_def finish_preview_def Let_def split_beta split: sum.split)

lemma full_end [simp]: "fst (fail_full W i meta r st) \<noteq> None" "fst (fail_full_transcode W i meta c m re r st) \<noteq> None"
  by (simp_all add: fail_full_def fail_full_transcode_def)

lemma audio_end [simp]:
  "fst (fail_audio_process W i meta r sg c m st) \<noteq> None" "fst (fail_waveform W i meta c m r st) \<noteq> None"
  "fst (fail_package W i meta c m r st) \<noteq> None" "fst (fail_downloads W i meta c m r st) \<noteq> None"
  "fst (fail_probe W i meta c m r st) \<noteq> None"
  by (simp_all add: fail_audio_process_def fail_waveform_def fail_package_def fail_downloads_def fail_probe_def Let_def)

lemma audio_fails [simp]: "fail_package W i meta c m r st \<noteq> (None, s)" "fail_probe W i meta c m r st \<noteq> (None, s)"
  "fail_waveform W i meta c m r st \<noteq> (None, s)" "fail_audio_process W i meta r sg c m st \<noteq> (None, s)" "fail_downloads W i meta c m r st \<noteq> (None, s)"
  by (simp_all add: prod_eq_iff)

section \<open>Packaging with the key of the set-up\<close>

definition key_arguments :: "material \<Rightarrow> string set" where
  "key_arguments m =
     {''label=:key_id='' @ hex_encode (m_key_id m) @ '':key='' @ hex_encode (m_key m), m_key_uri m}"

definition packaged_with :: "worker_env \<Rightarrow> string \<Rightarrow> string \<Rightarrow> key_row list \<Rightarrow> key_row list \<Rightarrow> bool" where
  "packaged_with W h asset rows rows' \<longleftrightarrow>
     (\<exists>m args. setup_hls_encryption (we_draws W) h asset (we_base_url W) (we_wrapper W) rows = Inr (m, rows') \<and>
        mt_packager (we_tools W) args = Inr () \<and> key_arguments m \<subseteq> set args)"

lemma encryption_args_key: "encryption_args (Some (config_of_material m)) = Inr ea \<Longrightarrow> key_arguments m \<subseteq> set ea"
  by (auto simp: encryption_args_def config_of_material_def key_arguments_def split: if_splits)

lemma transcode_key:
  assumes "transcode T input dir (Some (config_of_material m)) = Inr r"
  shows "\<exists>args. mt_packager T args = Inr () \<and> key_arguments m \<subseteq> set args"
proof -
  obtain title ap enc vs tr args where
    p: "package_args title dir ap enc vs tr 6 (Some (config_of_material m)) = Inr args" "mt_packager T args = Inr ()"
    using assms by (auto simp: transcode_def bind_result_Inr_iff Let_def simp del: encode_codecs.simps)
  then have "key_arguments m \<subseteq> set args"
    by (auto simp: package_args_def bind_result_Inr_iff dest!: encryption_args_key)
  with p show ?thesis by blast
qed

lemma package_hls_key:
  assumes "package_hls T input dir (Some (config_of_material m)) = Inr r"
  shows "\<exists>args. mt_packager T args = Inr () \<and> key_arguments m \<subseteq> set args"
  using assms by (fastforce simp: package_hls_def hls_package_args_def bind_result_Inr_iff Let_def dest!: encryption_args_key)

section \<open>The three encrypted jobs\<close>

lemma setup_encryption_key:
  "setup_encryption W h asset True st = (Inr mat, st') \<Longrightarrow>
   \<exists>m rows. mat = Some m \<and> st' = st\<lparr>wk_keys := rows\<rparr> \<and>
     setup_hls_encryption (we_draws W) h asset (we_base_url W) (we_wrapper W) (wk_keys st) = Inr (m, rows)"
  by (auto simp: setup_encryption_def split: sum.splits)

lemma transcode_job_key:
  assumes "handle_transcode W i h source True cb st = (None, st')"
  shows "packaged_with W h ''video'' (wk_keys st) (wk_keys st')"
proof -
  let ?st2 = "set_progress W i 5 (mark_processing W i st)"
  obtain mat st3 tmp dir r where
    s: "setup_encryption W h ''video'' True ?st2 = (Inr mat, st3)" and
    t: "transcode (we_tools W) tmp dir (map_option config_of_material mat) = Inr r" and
    k: "wk_keys st' = wk_keys st3"
    using assms by (auto simp: handle_transcode_def Let_def split_beta surjective_pairing [symmetric] prod_eq_iff split: sum.splits)
  obtain m rows where m: "mat = Some m" "st3 = ?st2\<lparr>wk_keys := rows\<rparr>"
      "setup_hls_encryption (we_draws W) h ''video'' (we_base_url W) (we_wrapper W) (wk_keys st) = Inr (m, rows)"
    using setup_encryption_key [OF s] by auto
  with t k show ?thesis by (auto simp: packaged_with_def dest!: transcode_key)
qed

lemma full_transcode_key:
  assumes "full_transcode W i meta h True tmp r st = (None, st')"
  shows "packaged_with W h ''video'' (wk_keys st) (wk_keys st')"
proof -
  let ?st1 = "set_progress W i 25 st"
  obtain mat st3 dir x where
    s: "setup_encryption W h ''video'' True ?st1 = (Inr mat, st3)" and
    t: "transcode (we_tools W) tmp dir (map_option config_of_material mat) = Inr x" and
    k: "wk_keys st' = wk_keys st3"
    using assms by (auto simp: full_transcode_def Let_def split_beta prod_eq_iff split: sum.splits)
  obtain m rows where m: "mat = Some m" "st3 = ?st1\<lparr>wk_keys := rows\<rparr>"
      "setup_hls_encryption (we_draws W) h ''video'' (we_base_url W) (we_wrapper W) (wk_keys st) = Inr (m, rows)"
    using setup_encryption_key [OF s] by auto
  with t k show ?thesis by (auto simp: packaged_with_def dest!: transcode_key)
qed

lemma full_job_key:
  assumes "handle_full W i h source f cb st = (None, st')" and "fo_transcode f = Some t" and "to_encrypt t"
  shows "packaged_with W h ''video'' (wk_keys st) (wk_keys st')"
proof -
  obtain meta tmp r st3 where "full_transcode W i meta h True tmp r st3 = (None, st')" "wk_keys st3 = wk_keys st"
    using assms by (auto simp: handle_full_def Let_def split_beta prod_eq_iff split: sum.splits if_splits)
  then show ?thesis using full_transcode_key by metis
qed

lemma make_download_keys:
  assumes "make_download W i meta h fm args path br r st k = (None, st')"
  obtains r1 st1 where "k r1 st1 = (None, st')" "wk_keys st1 = wk_keys st"
  using assms by (auto simp: make_download_def Let_def split_beta prod_eq_iff split: sum.splits)

lemma audio_downloads_keys:
  assumes "audio_downloads W i meta h a tmp r st = (None, st')"
  shows "wk_keys st' = wk_keys st"
proof -
  have f: "finish_audio W i meta a r1 st1 = (None, st') \<Longrightarrow> wk_keys st' = wk_keys st1" for r1 st1
    by (auto simp: finish_audio_def prod_eq_iff)
  from assms show ?thesis
    by (auto simp: audio_downloads_def Let_def dest!: f split: sum.splits if_splits elim!: make_download_keys)
qed

lemma audio_package_key:
  assumes "audio_package W i meta h a tmp r st k = (None, st')" and "ao_hls a" and "ao_encrypt a"
    and "\<And>r1 st1. k r1 st1 = (None, st') \<Longrightarrow> wk_keys st' = wk_keys st1"
  shows "packaged_with W h ''audio'' (wk_keys st) (wk_keys st')"
proof -
  obtain m rows p dir where
    "setup_hls_encryption (we_draws W) h ''audio'' (we_base_url W) (we_wrapper W) (wk_keys st) = Inr (m, rows)"
    "package_hls (we_tools W) tmp dir (Some (config_of_material m)) = Inr p" "wk_keys st' = rows"
    using assms(1-3) by (auto simp: audio_package_def split_beta split: sum.splits if_splits dest!: assms(4))
  then show ?thesis by (auto simp: packaged_with_def dest!: package_hls_key)
qed

lemma audio_waveform_keys:
  assumes "audio_waveform W i meta h a tmp r st k = (None, st')"
  obtains r1 st1 where "k r1 st1 = (None, st')" "wk_keys st1 = wk_keys st"
proof (cases "ao_waveform a")
  case True
  with assms obtain peaks data u where
    "k (set_au_waveform audio_ready (r\<lparr>ar_waveform := Some \<lparr>wa_key = worker_audio_key h ''waveform/waveform.json'',
       wa_bins = length (peaks :: 32 word list)\<rparr>\<rparr>))
       (snd (upload_bytes W (worker_audio_key h ''waveform/waveform.json'') ''application/json'' data st)) = (None, st')"
    by (auto simp: audio_waveform_def Let_def split_beta split: sum.splits if_splits)
  then show ?thesis by (rule that) simp
qed (use assms that in \<open>simp add: audio_waveform_def\<close>)

lemma audio_job_key:
  assumes "handle_audio W i h source a cb st = (None, st')" and "ao_hls a" and "ao_encrypt a"
  shows "packaged_with W h ''audio'' (wk_keys st) (wk_keys st')"
proof -
  let ?meta = "\<lparr>jm_type = type_audio_transcode, jm_hash = h, jm_callback = cb\<rparr>"
  obtain tmp r st2 where
    w: "audio_waveform W i ?meta h a tmp r st2 (\<lambda>r2 st3. audio_package W i ?meta h a tmp r2 st3
       (\<lambda>r3 st4. audio_downloads W i ?meta h a tmp r3 st4)) = (None, st')" "wk_keys st2 = wk_keys st"
    using assms(1) by (auto simp: handle_audio_def Let_def split: sum.splits if_splits)
  show ?thesis
  proof (rule audio_waveform_keys [OF w(1)])
    fix r2 st3
    assume "audio_package W i ?meta h a tmp r2 st3 (\<lambda>r3 st4. audio_downloads W i ?meta h a tmp r3 st4) = (None, st')"
      and "wk_keys st3 = wk_keys st2"
    with w(2) audio_package_key [OF this(1) assms(2,3) audio_downloads_keys] show ?thesis by simp
  qed
qed

section \<open>From the worker to the player\<close>

fun wants_encryption :: "payload \<Rightarrow> bool" where
  "wants_encryption (PTranscode h s e c) = e"
| "wants_encryption (PFull h s f c) = (case fo_transcode f of None \<Rightarrow> False | Some t \<Rightarrow> to_encrypt t)"
| "wants_encryption (PAudio h s a c) = (ao_hls a \<and> ao_encrypt a)"
| "wants_encryption p = False"

lemma encrypted_job_packaged:
  assumes "run_payload W T i p st = (None, st')" and "wants_encryption p"
  shows "\<exists>asset. packaged_with W (payload_hash p) asset (wk_keys st) (wk_keys st')"
  using assms by (cases p) (auto dest: transcode_job_key full_job_key audio_job_key split: option.splits)

lemma setup_material:
  assumes "setup_hls_encryption d hash asset base w rows = Inr (m, rows')"
  shows "m_key_uri m = key_uri base (m_id m)" "m_id m \<in> insert (d_uuid d) (kr_id ` set rows)"
  using assms
  by (auto simp: setup_hls_encryption_def upsert_stream_key_def find_Some_iff Let_def split: option.splits sum.splits if_splits)

lemma get_stream_key_kept:
  assumes "get_stream_key i rows = Some row" and "distinct (map kr_id rows2)"
    and "filter (\<lambda>r. kr_source_hash r = kr_source_hash row) rows2 = filter (\<lambda>r. kr_source_hash r = kr_source_hash row) rows"
  shows "get_stream_key i rows2 = Some row"
proof -
  have "row \<in> set rows" "kr_id row = i" using assms(1) by (auto simp: get_stream_key_def find_Some_iff)
  then have "row \<in> set (filter (\<lambda>r. kr_source_hash r = kr_source_hash row) rows2)" unfolding assms(3) by simp
  then have "row \<in> set rows2" by simp
  with assms(2) \<open>kr_id row = i\<close> show ?thesis
    by (induction rows2) (auto simp: get_stream_key_def)
qed

text \<open>
  C10. An encrypted job that succeeds is playable: the packager got a content key and the address of its
  endpoint, and that endpoint answers every valid token for the hash with this key, as long as the
  key rows of the hash stay what the job left, whatever happens to other hashes.
\<close>

theorem encrypted_job_playable:
  assumes "run_payload W T i p st = (None, st')" and "wants_encryption p" and "key_table_ok (wk_keys st)"
    and "aead_ok (kw_aead (we_wrapper W))" and "d_nonce (we_draws W) = Some nonce"
    and "length nonce = nonce_size (kw_aead (we_wrapper W))" and "kh_wrapper H = we_wrapper W"
    and "distinct (map kr_id rows)"
    and "filter (\<lambda>r. kr_source_hash r = payload_hash p) rows = filter (\<lambda>r. kr_source_hash r = payload_hash p) (wk_keys st')"
  shows "\<exists>(m :: material) args. mt_packager (we_tools W) args = Inr () \<and>
    {''label=:key_id='' @ hex_encode (m_key_id m) @ '':key='' @ hex_encode (m_key m), key_uri (we_base_url W) (m_id m)} \<subseteq> set args \<and>
    m_id m \<in> insert (d_uuid (we_draws W)) (kr_id ` set (wk_keys st)) \<and>
    (\<forall>x token expiry now. x \<noteq> [] \<and> kh_parse_uuid H x = Some (m_id m) \<and>
       verify_token (kh_mac H) (kh_secret H) (kh_unmarshal H) now token = Inr (payload_hash p, expiry) \<longrightarrow>
       key_handle H now rows x (''Bearer '' @ token) = (200, Some (m_key m)))"
proof -
  obtain asset m args where
    s: "setup_hls_encryption (we_draws W) (payload_hash p) asset (we_base_url W) (we_wrapper W) (wk_keys st) = Inr (m, wk_keys st')"
    and a: "mt_packager (we_tools W) args = Inr ()" "key_arguments m \<subseteq> set args"
    using encrypted_job_packaged [OF assms(1,2)] by (auto simp: packaged_with_def)
  obtain row where row: "get_stream_key (m_id m) (wk_keys st') = Some row" "kr_source_hash row = payload_hash p"
      "unwrap_key (we_wrapper W) (kr_wrapped_key row) (kr_wrap_nonce row) (kr_kek_version row) = Inr (m_key m)"
    using setup_serves_key [OF s assms(3-6)] by blast
  have "get_stream_key (m_id m) rows = Some row"
    using get_stream_key_kept [OF row(1) assms(8)] assms(9) by (simp add: row(2))
  then have k: "key_handle H now rows x (''Bearer '' @ token) = (200, Some (m_key m))"
    if "x \<noteq> []" "kh_parse_uuid H x = Some (m_id m)"
      "verify_token (kh_mac H) (kh_secret H) (kh_unmarshal H) now token = Inr (payload_hash p, expiry)" for x token expiry now
  proof -
    have "token \<noteq> []" using that(3) by (auto simp: verify_token_def split_first_def)
    with that row(2,3) \<open>get_stream_key (m_id m) rows = Some row\<close> show ?thesis
      by (simp add: key_handle_def bearer_token_def assms(7) del: append.append_Cons append_Cons)
  qed
  have u: "{''label=:key_id='' @ hex_encode (m_key_id m) @ '':key='' @ hex_encode (m_key m), key_uri (we_base_url W) (m_id m)} \<subseteq> set args"
    using a(2) unfolding key_arguments_def setup_material(1) [OF s] .
  show ?thesis
    by (intro exI [of _ m] exI [of _ args] conjI allI impI)
      (rule a(1), rule u, rule setup_material(2) [OF s], use k in blast)
qed

lemma hex_encode_Nil [simp]: "hex_encode x = [] \<longleftrightarrow> x = []"
  by (simp flip: length_0_conv)

lemma demo_transcode_succeeds:
  "\<exists>r. transcode demo_tools ''/tmp/v'' ''/tmp/o'' (Some (config_of_material m)) = Inr r"
  if "m_key m \<noteq> []" "m_key_id m \<noteq> []" "m_key_uri m \<noteq> []"
  by (rule transcode_total [of _ 640 360 "''/tmp/e''" True _ "projr (encryption_args (Some (config_of_material m)))"])
    (use that in \<open>simp_all add: demo_tools_def config_of_material_def video_geometry_def stream_rotation_def
       encryption_args_def Let_def\<close>)

lemma demo_encrypted_run:
  "\<exists>st'. run_payload demo_worker T ''j1'' (PTranscode ''h'' ''v'' True []) (demo_worker_state type_video_transcode) = (None, st') \<and>
     distinct (map kr_id (wk_keys st'))"
proof -
  obtain m rows where m: "setup_hls_encryption demo_draws ''h'' ''video'' ''http://vylux'' \<lparr>kw_aead = plain_aead, kw_version = ''v1''\<rparr> [] =
      Inr (m, rows)" "m_key m \<noteq> []" "m_key_id m \<noteq> []" "m_key_uri m \<noteq> []" "distinct (map kr_id rows)"
    by (simp add: setup_hls_encryption_def demo_draws_def wrap_key_def upsert_stream_key_def key_uri_def plain_aead_def)
  obtain r where r: "transcode demo_tools ''/tmp/v'' ''/tmp/o'' (Some (config_of_material m)) = Inr r"
    using demo_transcode_succeeds [OF m(2-4)] by blast
  have k: "wk_keys (set_progress demo_worker ''j1'' 5 (mark_processing demo_worker ''j1'' (demo_worker_state type_video_transcode))) = []"
    by (simp add: demo_worker_state_def)
  show ?thesis
    using m(1,5) r k
    by (simp add: handle_transcode_def setup_encryption_def Let_def demo_worker_def upload_bytes_def complete_job_def hls_mime_type_def)
qed

theorem encrypted_job_playable_witness:
  "\<exists>(st' :: worker_state) (m :: material) args. mt_packager demo_tools args = Inr () \<and> key_uri ''http://vylux'' ''id-1'' \<in> set args \<and>
     ''label=:key_id='' @ hex_encode (m_key_id m) @ '':key='' @ hex_encode (m_key m) \<in> set args \<and>
     key_handle demo_handler 99 (wk_keys st') ''id-1'' (''Bearer '' @ ''QQ.'') = (200, Some (m_key m))"
proof -
  obtain st' where r: "run_payload demo_worker (undefined :: unit image_tools) ''j1'' (PTranscode ''h'' ''v'' True [])
      (demo_worker_state type_video_transcode) = (None, st')" and d: "distinct (map kr_id (wk_keys st'))"
    using demo_encrypted_run by blast
  have wants: "wants_encryption (PTranscode ''h'' ''v'' True [])" by simp
  have w: "we_tools demo_worker = demo_tools" "we_draws demo_worker = demo_draws" "we_base_url demo_worker = ''http://vylux''"
    "we_wrapper demo_worker = kh_wrapper demo_handler" "wk_keys (demo_worker_state t) = []" for t
    by (simp_all add: demo_worker_def demo_handler_def demo_worker_state_def)
  have "key_table_ok []" "aead_ok (kw_aead (kh_wrapper demo_handler))" "d_nonce demo_draws = Some ''nonce-123456''"
    "length ''nonce-123456'' = nonce_size (kw_aead (kh_wrapper demo_handler))"
    by (simp_all add: key_table_ok_def demo_handler_def demo_draws_def plain_aead_ok) (simp add: plain_aead_def)
  from encrypted_job_playable [OF r wants, unfolded w, OF this refl d refl] obtain m :: material and args where
    m: "mt_packager demo_tools args = Inr ()"
    "{''label=:key_id='' @ hex_encode (m_key_id m) @ '':key='' @ hex_encode (m_key m), key_uri ''http://vylux'' (m_id m)} \<subseteq> set args"
    "m_id m \<in> insert (d_uuid demo_draws) (kr_id ` set ([] :: key_row list))" and
    k: "\<forall>x token expiry now. x \<noteq> [] \<and> kh_parse_uuid demo_handler x = Some (m_id m) \<and>
       verify_token (kh_mac demo_handler) (kh_secret demo_handler) (kh_unmarshal demo_handler) now token =
         Inr (payload_hash (PTranscode ''h'' ''v'' True []), expiry) \<longrightarrow>
       key_handle demo_handler now (wk_keys st') x (''Bearer '' @ token) = (200, Some (m_key m))"
    by blast
  have i: "m_id m = ''id-1''" using m(3) by (simp add: demo_draws_def)
  then have "kh_parse_uuid demo_handler ''id-1'' = Some (m_id m)" by (simp add: demo_handler_def)
  with demo_token have "key_handle demo_handler 99 (wk_keys st') ''id-1'' (''Bearer '' @ ''QQ.'') = (200, Some (m_key m))"
    using k [rule_format, of "''id-1''" 99 "''QQ.''" 100] by simp
  with m(1,2) i show ?thesis by (intro exI [of _ st'] exI [of _ m] exI [of _ args]) simp
qed

end
