(* ===== verification/S3Storage.thy ===== *)
theory S3Storage
  imports Cleanup
begin

text \<open>
  The storage driver and its instrumentation: \<open>internal/storage/s3.go\<close> and \<open>instrumented.go\<close>. The S3 client
  of the AWS SDK is a parameter; errors are those \<open>IsNotFound\<close> looks at. Spans are left out.
\<close>

section \<open>The driver\<close>

text \<open>
  The calls of the client, for one bucket. Objects have a body and a type; a head answers the length, which may be
  absent; a listing call gets prefix and continuation token, and answers keys and the next token, if any.
\<close>

record s3_client =
  sc_get :: "string \<Rightarrow> (storage_error, string) result"
  sc_put :: "string \<Rightarrow> string \<Rightarrow> string \<Rightarrow> (storage_error, unit) result"
  sc_head :: "string \<Rightarrow> (storage_error, int option) result"
  sc_delete :: "string \<Rightarrow> (storage_error, unit) result"
  sc_list :: "string \<Rightarrow> string option \<Rightarrow> (storage_error, string option list \<times> string option) result"
  sc_head_bucket :: "(storage_error, unit) result"

definition aws_to_int64 :: "int option \<Rightarrow> int" where
  "aws_to_int64 x = (case x of None \<Rightarrow> 0 | Some n \<Rightarrow> n)"

definition aws_to_string :: "string option \<Rightarrow> string" where
  "aws_to_string x = (case x of None \<Rightarrow> [] | Some s \<Rightarrow> s)"

definition s3_get :: "s3_client \<Rightarrow> string \<Rightarrow> (storage_error, string) result" where
  "s3_get C key = sc_get C key"

definition s3_put :: "s3_client \<Rightarrow> string \<Rightarrow> string \<Rightarrow> string \<Rightarrow> (storage_error, unit) result" where
  "s3_put C key data ct = sc_put C key data ct"

definition s3_exists :: "s3_client \<Rightarrow> string \<Rightarrow> (storage_error, bool) result" where
  "s3_exists C key =
     (case sc_head C key of
        Inl e \<Rightarrow> if se_not_found e then Inr False else Inl e
      | Inr n \<Rightarrow> Inr True)"

definition s3_size :: "s3_client \<Rightarrow> string \<Rightarrow> (storage_error, int) result" where
  "s3_size C key = (case sc_head C key of Inl e \<Rightarrow> Inl e | Inr n \<Rightarrow> Inr (aws_to_int64 n))"

definition s3_delete :: "s3_client \<Rightarrow> string \<Rightarrow> (storage_error, unit) result" where
  "s3_delete C key = sc_delete C key"

text \<open>
  The loop of \<open>List\<close> over the paginator, which asks for a next page as long as the last one came with a
  token. Nothing in the code bounds the number of pages.
\<close>

partial_function (option) s3_list_from ::
    "(string option \<Rightarrow> (storage_error, string option list \<times> string option) result) \<Rightarrow> string option \<Rightarrow> string list \<Rightarrow>
     (storage_error, string list) result option" where
  "s3_list_from page token keys =
     (case page token of
        Inl e \<Rightarrow> Some (Inl e)
      | Inr (contents, next_token) \<Rightarrow>
          (let keys1 = keys @ map aws_to_string contents in
           if next_token = None \<or> next_token = Some [] then Some (Inr keys1)
           else s3_list_from page next_token keys1))"

definition s3_list :: "s3_client \<Rightarrow> string \<Rightarrow> (storage_error, string list) result option" where
  "s3_list C prefix = s3_list_from (sc_list C prefix) None []"

definition s3_head_bucket :: "s3_client \<Rightarrow> (storage_error, unit) result" where
  "s3_head_bucket C = sc_head_bucket C"

section \<open>The calls of the interface, and their instrumentation\<close>

datatype storage_call =
    GetObj string
  | PutObj string string string
  | ExistsObj string
  | SizeObj string
  | DeleteObj string
  | ListObjs string
  | HeadBucket

datatype storage_answer = ABody string | ADone | AExists bool | ASize int | AKeys "string list"

definition s3_call :: "s3_client \<Rightarrow> storage_call \<Rightarrow> (storage_error, storage_answer) result option" where
  "s3_call C call =
     (case call of
        GetObj k \<Rightarrow> Some (map_sum id ABody (s3_get C k))
      | PutObj k d ct \<Rightarrow> Some (map_sum id (\<lambda>u. ADone) (s3_put C k d ct))
      | ExistsObj k \<Rightarrow> Some (map_sum id AExists (s3_exists C k))
      | SizeObj k \<Rightarrow> Some (map_sum id ASize (s3_size C k))
      | DeleteObj k \<Rightarrow> Some (map_sum id (\<lambda>u. ADone) (s3_delete C k))
      | ListObjs p \<Rightarrow> map_option (map_sum id AKeys) (s3_list C p)
      | HeadBucket \<Rightarrow> Some (map_sum id (\<lambda>u. ADone) (s3_head_bucket C)))"

definition operation_name :: "storage_call \<Rightarrow> string" where
  "operation_name call =
     (case call of
        GetObj k \<Rightarrow> ''get'' | PutObj k d ct \<Rightarrow> ''put'' | ExistsObj k \<Rightarrow> ''exists'' | SizeObj k \<Rightarrow> ''size''
      | DeleteObj k \<Rightarrow> ''delete'' | ListObjs p \<Rightarrow> ''list'' | HeadBucket \<Rightarrow> ''head_bucket'')"

text \<open>A sample of the metrics: role, driver, operation and result.\<close>

type_synonym metric_sample = "string \<times> string \<times> string \<times> string"

definition observe :: "string \<Rightarrow> string \<Rightarrow> string \<Rightarrow> ('e, 'a) result \<Rightarrow> metric_sample list \<Rightarrow> ('e, 'a) result \<times> metric_sample list" where
  "observe role driver operation r ms =
     (r, ms @ [(role, driver, operation, case r of Inl e \<Rightarrow> ''error'' | Inr a \<Rightarrow> ''ok'')])"

definition instrumented_call ::
    "string \<Rightarrow> string \<Rightarrow> (storage_call \<Rightarrow> ('e, 'a) result option) \<Rightarrow> storage_call \<Rightarrow> metric_sample list \<Rightarrow>
     (('e, 'a) result \<times> metric_sample list) option" where
  "instrumented_call role driver inner call ms =
     map_option (\<lambda>r. observe role driver (operation_name call) r ms) (inner call)"

lemma instrumentation_transparent:
  "map_option fst (instrumented_call role driver inner call ms) = inner call"
  "instrumented_call role driver inner call ms = Some (r, ms') \<Longrightarrow>
     \<exists>result. ms' = ms @ [(role, driver, operation_name call, result)] \<and> (result = ''error'' \<longleftrightarrow> isl r)"
  by (auto simp: instrumented_call_def observe_def option.map_comp comp_def option.map_ident split: sum.splits)

section \<open>Listings are complete\<close>

text \<open>
  What S3 documents of \<open>ListObjectsV2\<close>: pages of at most \<open>n\<close> keys in order, each but the last with the token
  of the next one. \<open>pos\<close> is where the page of a token starts, \<open>fault\<close> the error the call for the page at a
  position ends with, if any.
\<close>

definition serves_pages ::
    "(string option \<Rightarrow> (storage_error, string option list \<times> string option) result) \<Rightarrow> (string \<Rightarrow> nat) \<Rightarrow> nat \<Rightarrow>
     (nat \<Rightarrow> storage_error option) \<Rightarrow> string list \<Rightarrow> bool" where
  "serves_pages page pos n fault ks \<longleftrightarrow> 0 < n \<and>
     (\<forall>token. case fault (case token of None \<Rightarrow> 0 | Some t \<Rightarrow> pos t) of
        Some e \<Rightarrow> page token = Inl e
      | None \<Rightarrow>
          let p = (case token of None \<Rightarrow> 0 | Some t \<Rightarrow> pos t) in
          \<exists>next_token. page token = Inr (map Some (take n (drop p ks)), next_token) \<and>
            (if p + n < length ks then \<exists>t. next_token = Some t \<and> t \<noteq> [] \<and> pos t = p + n else next_token = None))"

lemma aws_to_string_Some [simp]: "aws_to_string \<circ> Some = id"
  by (simp add: fun_eq_iff aws_to_string_def)

lemma serves_pagesD:
  assumes "serves_pages page pos n fault ks" and "(case token of None \<Rightarrow> 0 | Some t \<Rightarrow> pos t) = p"
  shows "fault p = Some e \<Longrightarrow> page token = Inl e"
    "fault p = None \<Longrightarrow> \<exists>next_token. page token = Inr (map Some (take n (drop p ks)), next_token) \<and>
       (if p + n < length ks then \<exists>t. next_token = Some t \<and> t \<noteq> [] \<and> pos t = p + n else next_token = None)"
proof -
  note s = assms(1) [unfolded serves_pages_def Let_def, THEN conjunct2, rule_format, of token, unfolded assms(2)]
  show "fault p = Some e \<Longrightarrow> page token = Inl e" using s by simp
  show "fault p = None \<Longrightarrow> \<exists>next_token. page token = Inr (map Some (take n (drop p ks)), next_token) \<and>
       (if p + n < length ks then \<exists>t. next_token = Some t \<and> t \<noteq> [] \<and> pos t = p + n else next_token = None)"
    using s by (simp del: if_split)
qed

lemma s3_list_from_pages:
  assumes "serves_pages page pos n fault ks" and "(case token of None \<Rightarrow> 0 | Some t \<Rightarrow> pos t) = p" and "keys = take p ks"
  shows "s3_list_from page token keys = Some (Inr ks) \<and> (\<forall>i. p + i * n < length ks \<longrightarrow> fault (p + i * n) = None) \<or>
    (\<exists>i e. fault (p + i * n) = Some e \<and> s3_list_from page token keys = Some (Inl e))"
  using assms(2,3)
proof (induction "length ks - p" arbitrary: p token keys rule: less_induct)
  case less
  have n: "0 < n" using assms(1) by (simp add: serves_pages_def)
  show ?case
  proof (cases "fault p")
    case (Some e)
    then have "page token = Inl e" by (rule serves_pagesD(1) [OF assms(1) less.prems(1)])
    then have "s3_list_from page token keys = Some (Inl e)" by (simp add: s3_list_from.simps)
    with Some show ?thesis by (intro disjI2 exI [of _ 0] exI [of _ e]) simp
  next
    case None
    obtain next_token where
      pg: "page token = Inr (map Some (take n (drop p ks)), next_token)" and
      nx: "if p + n < length ks then \<exists>t. next_token = Some t \<and> t \<noteq> [] \<and> pos t = p + n else next_token = None"
      using serves_pagesD(2) [OF assms(1) less.prems(1) None] by blast
    have k1: "keys @ map aws_to_string (map Some (take n (drop p ks))) = take (p + n) ks"
      by (simp add: less.prems(2) take_add)
    show ?thesis
    proof (cases "p + n < length ks")
      case False
      then have "s3_list_from page token keys = Some (Inr ks)"
        using pg nx k1 by (subst s3_list_from.simps) (simp add: Let_def del: map_map)
      moreover have "fault (p + i * n) = None" if "p + i * n < length ks" for i
        using that False None by (cases i) auto
      ultimately show ?thesis by blast
    next
      case True
      then obtain t where t: "next_token = Some t" "t \<noteq> []" "pos t = p + n" using nx by auto
      have s: "s3_list_from page token keys = s3_list_from page (Some t) (take (p + n) ks)"
        using pg t k1 by (subst s3_list_from.simps) (simp add: Let_def del: map_map)
      have "length ks - (p + n) < length ks - p" using True n by linarith
      from less.hyps [OF this, of "Some t"] t(3)
      consider "s3_list_from page (Some t) (take (p + n) ks) = Some (Inr ks)"
          "\<forall>i. p + n + i * n < length ks \<longrightarrow> fault (p + n + i * n) = None"
        | i e where "fault (p + n + i * n) = Some e" "s3_list_from page (Some t) (take (p + n) ks) = Some (Inl e)"
        by auto
      then show ?thesis
      proof cases
        case 1
        have "fault (p + i * n) = None" if "p + i * n < length ks" for i
          using that 1(2) [rule_format, of "i - 1"] None by (cases i) (auto simp: algebra_simps)
        with 1(1) s show ?thesis by simp
      next
        case (2 i e)
        with s show ?thesis by (intro disjI2 exI [of _ "Suc i"] exI [of _ e]) (simp add: algebra_simps)
      qed
    qed
  qed
qed


definition demo_pages :: "nat \<Rightarrow> string list \<Rightarrow> string option \<Rightarrow> (storage_error, string option list \<times> string option) result" where
  "demo_pages n ks token =
     (let p = (case token of None \<Rightarrow> 0 | Some t \<Rightarrow> length t) in
      Inr (map Some (take n (drop p ks)), if p + n < length ks then Some (replicate (p + n) (CHR ''x'')) else None))"

definition demo_s3 :: "string list \<Rightarrow> s3_client" where
  "demo_s3 ks =
     \<lparr>sc_get = (\<lambda>k. Inl no_such_key), sc_put = (\<lambda>k d c. Inr ()), sc_head = (\<lambda>k. Inl no_such_key), sc_delete = (\<lambda>k. Inr ()),
      sc_list = (\<lambda>prefix. demo_pages 2 (filter (\<lambda>k. has_prefix k prefix) ks)), sc_head_bucket = Inr ()\<rparr>"


end
