(* ===== verification/Progress.thy ===== *)
theory Progress
  imports VideoProcessor
begin

text \<open>
  Reading FFmpeg's progress: \<open>internal/video/progress.go\<close> with the loop of \<open>bufio.Scanner\<close> it runs on. The
  reader hands out the text in pieces of any size; durations are exact rationals.
\<close>

section \<open>Lines\<close>

definition end_of_line :: "char \<Rightarrow> bool" where
  "end_of_line b \<longleftrightarrow> b = CHR 0x0A \<or> b = CHR 0x0D"

definition scan_ffmpeg_lines :: "string \<Rightarrow> bool \<Rightarrow> nat \<times> string option" where
  "scan_ffmpeg_lines data at_eof =
     (if at_eof \<and> data = [] then (0, None)
      else let line = takeWhile (\<lambda>b. \<not> end_of_line b) data in
        if length line < length data then (length line + 1, Some line)
        else if at_eof then (length data, Some data)
        else (0, None))"

lemma scan_advances: "scan_ffmpeg_lines buf e = (n, Some t) \<Longrightarrow> 0 < n \<and> n \<le> length buf"
  using length_takeWhile_le [of "\<lambda>b. \<not> end_of_line b" buf]
  by (auto simp: scan_ffmpeg_lines_def Let_def split: if_splits)

definition max_token_size :: nat where "max_token_size = 65536"

text \<open>
  \<open>bufio.Scanner\<close>: \<open>buf\<close> holds what is read and not yet consumed, \<open>rest\<close> what the reader still has, and the
  \<open>k\<close>-th read gets at most \<open>reads k + 1\<close> bytes, and no more than fit the buffer. A line that fills
  the buffer ends the scan with \<open>ErrTooLong\<close> (\<open>True\<close>).
\<close>

function scan_tokens :: "(nat \<Rightarrow> nat) \<Rightarrow> nat \<Rightarrow> string \<Rightarrow> string \<Rightarrow> string list \<times> bool" where
  "scan_tokens reads k buf rest =
     (case scan_ffmpeg_lines buf False of
        (advance, Some token) \<Rightarrow>
          (case scan_tokens reads k (drop advance buf) rest of (ts, long) \<Rightarrow> (token # ts, long))
      | (advance, None) \<Rightarrow>
          if length buf \<ge> max_token_size then ([], True)
          else if rest = [] then
            (case scan_ffmpeg_lines buf True of (advance, Some token) \<Rightarrow> ([token], False) | (advance, None) \<Rightarrow> ([], False))
          else let n = min (reads k + 1) (max_token_size - length buf) in
            scan_tokens reads (k + 1) (buf @ take n rest) (drop n rest))"
  by pat_completeness auto

termination
  by (relation "measure (\<lambda>(reads, k, buf, rest). length buf + 2 * length rest)")
    (auto dest!: scan_advances [OF sym] simp: neq_Nil_conv min_def not_le split: if_splits)

declare scan_tokens.simps [simp del]

section \<open>Times\<close>

text \<open>The expression \<open>time=(\d{2}):(\d{2}):(\d{2})\.(\d{2})\<close> at the start of a text, and its leftmost match.\<close>

definition two_digits :: "string \<Rightarrow> (nat \<times> string) option" where
  "two_digits s =
     (case s of a # b # r \<Rightarrow> if is_digit a \<and> is_digit b then Some (10 * digit_val a + digit_val b, r) else None | _ \<Rightarrow> None)"

definition expect :: "string \<Rightarrow> string \<Rightarrow> string option" where
  "expect p s = (if has_prefix s p then Some (drop (length p) s) else None)"

definition match_time :: "string \<Rightarrow> (nat \<times> nat \<times> nat \<times> nat) option" where
  "match_time s0 =
     Option.bind (expect ''time='' s0) (\<lambda>s1.
     Option.bind (two_digits s1) (\<lambda>(h, s2).
     Option.bind (expect '':'' s2) (\<lambda>s3.
     Option.bind (two_digits s3) (\<lambda>(m, s4).
     Option.bind (expect '':'' s4) (\<lambda>s5.
     Option.bind (two_digits s5) (\<lambda>(s, s6).
     Option.bind (expect ''.'' s6) (\<lambda>s7.
     Option.bind (two_digits s7) (\<lambda>(cs, s8). Some (h, m, s, cs)))))))))"

fun find_time :: "string \<Rightarrow> (nat \<times> nat \<times> nat \<times> nat) option" where
  "find_time [] = None"
| "find_time (c # cs) = (case match_time (c # cs) of Some t \<Rightarrow> Some t | None \<Rightarrow> find_time cs)"

definition seconds_of :: "nat \<times> nat \<times> nat \<times> nat \<Rightarrow> rat" where
  "seconds_of t = (case t of (h, m, s, cs) \<Rightarrow> of_nat (h * 3600 + m * 60 + s) + of_nat cs / 100)"

section \<open>Progress\<close>

definition line_progress :: "rat \<Rightarrow> string \<Rightarrow> rat option" where
  "line_progress dur line =
     (case find_time line of
        None \<Rightarrow> None
      | Some t \<Rightarrow> let pct = seconds_of t / dur in Some (if pct > 1 then 1 else pct))"

text \<open>The values the callback gets, and the error. \<open>read_error\<close> is what the reader ends with instead of EOF.\<close>

definition parse_progress ::
    "(nat \<Rightarrow> nat) \<Rightarrow> string \<Rightarrow> string option \<Rightarrow> rat \<Rightarrow> bool \<Rightarrow> rat list \<times> string option" where
  "parse_progress reads text read_error dur has_fn =
     (if dur \<le> 0 \<or> \<not> has_fn then ([], None)
      else case scan_tokens reads 0 [] text of
        (lines, long) \<Rightarrow>
          (List.map_filter (line_progress dur) lines,
           map_option ((@) ''scan ffmpeg progress: '')
             (if long then Some ''bufio.Scanner: token too long'' else read_error)))"

section \<open>Durations\<close>

text \<open>\<open>fmt\<close>'s \<open>%02d\<close>, and Go's division and remainder by a positive number.\<close>

definition pad2 :: "int \<Rightarrow> string" where
  "pad2 n = (if 0 \<le> n \<and> n < 10 then ''0'' else []) @ show_int n"

definition go_quot :: "int \<Rightarrow> int \<Rightarrow> int" where
  "go_quot a b = sgn a * (\<bar>a\<bar> div b)"

definition go_rem :: "int \<Rightarrow> int \<Rightarrow> int" where
  "go_rem a b = a - b * go_quot a b"

definition format_duration :: "rat \<Rightarrow> string" where
  "format_duration seconds =
     (let d = (if 0 \<le> seconds then \<lfloor>seconds * 10 ^ 9\<rfloor> else \<lceil>seconds * 10 ^ 9\<rceil>);
          h = go_quot d (3600 * 10 ^ 9); m = go_rem (go_quot d (60 * 10 ^ 9)) 60; s = go_rem (go_quot d (10 ^ 9)) 60
      in pad2 h @ '':'' @ pad2 m @ '':'' @ pad2 s)"

definition parse_duration_from_probe :: "(string \<Rightarrow> rat option) \<Rightarrow> string \<Rightarrow> rat option" where
  "parse_duration_from_probe parse_float s0 =
     (let s = trim_space s0 in
      case find_time (''time='' @ s) of Some t \<Rightarrow> Some (seconds_of t) | None \<Rightarrow> parse_float s)"

section \<open>Reads do not matter\<close>

text \<open>The lines of a text: a last line without an end counts when it is not empty.\<close>

function ffmpeg_lines :: "string \<Rightarrow> string list" where
  "ffmpeg_lines text =
     (if text = [] then []
      else let line = takeWhile (\<lambda>b. \<not> end_of_line b) text in line # ffmpeg_lines (drop (length line + 1) text))"
  by pat_completeness auto
termination by (relation "measure length") auto

declare ffmpeg_lines.simps [simp del]

lemma ffmpeg_lines_step:
  assumes "scan_ffmpeg_lines buf False = (n, Some t)"
  shows "ffmpeg_lines (buf @ rest) = t # ffmpeg_lines (drop n buf @ rest)"
proof -
  let ?P = "\<lambda>b. \<not> end_of_line b"
  have t: "t = takeWhile ?P buf" "n = length t + 1" "length t < length buf"
    using assms by (auto simp: scan_ffmpeg_lines_def Let_def split: if_splits)
  then have "\<exists>x \<in> set buf. \<not> ?P x" by (metis nat_less_le takeWhile_eq_all_conv)
  then have "takeWhile ?P (buf @ rest) = t" using t(1) by (auto simp: takeWhile_append1)
  moreover have "buf @ rest \<noteq> []" using t(3) by auto
  ultimately show ?thesis
    using t(2,3) by (subst ffmpeg_lines.simps) (simp add: Let_def)
qed

lemma scan_None:
  assumes "scan_ffmpeg_lines buf False = (n, None)"
  shows "takeWhile (\<lambda>b. \<not> end_of_line b) buf = buf"
proof -
  have "length buf \<le> length (takeWhile (\<lambda>b. \<not> end_of_line b) buf)"
    using assms by (auto simp: scan_ffmpeg_lines_def Let_def split: if_splits)
  then show ?thesis by (metis length_takeWhile_le le_antisym takeWhile_eq_take take_all)
qed

lemma first_line_long:
  assumes "takeWhile (\<lambda>b. \<not> end_of_line b) buf = buf" and "buf \<noteq> []"
  shows "\<exists>l \<in> set (ffmpeg_lines (buf @ rest)). length buf \<le> length l"
proof -
  have "takeWhile (\<lambda>b. \<not> end_of_line b) (buf @ rest) = buf @ takeWhile (\<lambda>b. \<not> end_of_line b) rest"
    using assms(1) by (simp add: takeWhile_append2 takeWhile_eq_all_conv)
  then show ?thesis using assms(2) by (subst ffmpeg_lines.simps) (simp add: Let_def)
qed

lemma scan_tokens_lines:
  "(\<forall>l \<in> set (ffmpeg_lines (buf @ rest)). length l < max_token_size) \<Longrightarrow>
   scan_tokens reads k buf rest = (ffmpeg_lines (buf @ rest), False)"
proof (induction reads k buf rest rule: scan_tokens.induct)
  case (1 reads k buf rest)
  show ?case
  proof (cases "snd (scan_ffmpeg_lines buf False)")
    case (Some t)
    then obtain n where s: "scan_ffmpeg_lines buf False = (n, Some t)" by (metis prod.collapse)
    note l = ffmpeg_lines_step [OF s, of rest]
    have "scan_tokens reads k (drop n buf) rest = (ffmpeg_lines (drop n buf @ rest), False)"
      by (rule 1(2) [OF s [symmetric] refl]) (use 1(3) l in simp)
    with s l show ?thesis by (subst scan_tokens.simps) simp
  next
    case None
    then obtain n where s: "scan_ffmpeg_lines buf False = (n, None)" by (metis prod.collapse)
    note t = scan_None [OF s]
    have short: "length buf < max_token_size"
    proof (cases "buf = []")
      case False
      with first_line_long [OF t, of rest] 1(3) show ?thesis by (meson le_less_trans)
    qed (simp add: max_token_size_def)
    show ?thesis
    proof (cases "rest = []")
      case True
      have "ffmpeg_lines buf = (if buf = [] then [] else [buf])"
        by (subst ffmpeg_lines.simps) (simp only: Let_def t, simp add: ffmpeg_lines.simps [of "[]"])
      moreover have "scan_ffmpeg_lines buf True = (if buf = [] then (0, None) else (length buf, Some buf))"
        by (simp only: scan_ffmpeg_lines_def Let_def t) simp
      ultimately show ?thesis using s short True by (subst scan_tokens.simps) simp
    next
      case False
      let ?n = "min (reads k + 1) (max_token_size - length buf)"
      have "scan_tokens reads (k + 1) (buf @ take ?n rest) (drop ?n rest) = (ffmpeg_lines (buf @ rest), False)"
        using 1(1) [OF s [symmetric] refl _ False refl] short 1(3) by simp
      with s short False show ?thesis by (subst scan_tokens.simps) (simp add: Let_def)
    qed
  qed
qed

text \<open>
  C25. Progress does not depend on how the pipe delivers FFmpeg's output: whatever the sizes of the
  reads, the callback gets the times of the lines in their order, as fractions between 0 and 1, as long
  as no line reaches the 64 KiB a scanner holds; and the only error is that of the reader.
\<close>

theorem progress_independent_of_reads:
  assumes "0 < dur" and "\<forall>l \<in> set (ffmpeg_lines text). length l < max_token_size"
  shows "parse_progress reads text read_error dur True =
      (List.map_filter (line_progress dur) (ffmpeg_lines text), map_option ((@) ''scan ffmpeg progress: '') read_error) \<and>
    (\<forall>p \<in> set (fst (parse_progress reads text read_error dur True)). 0 \<le> p \<and> p \<le> 1)"
proof -
  have e: "parse_progress reads text read_error dur True =
      (List.map_filter (line_progress dur) (ffmpeg_lines text), map_option ((@) ''scan ffmpeg progress: '') read_error)"
    using assms scan_tokens_lines [of "[]" "text" reads 0] by (simp add: parse_progress_def)
  have "0 \<le> seconds_of t" for t by (simp add: seconds_of_def split: prod.split)
  then have "line_progress dur l = Some p \<Longrightarrow> 0 \<le> p \<and> p \<le> 1" for l p
    using assms(1) by (auto simp: line_progress_def Let_def split: option.splits if_splits)
  with e show ?thesis by (auto simp: List.map_filter_def)
qed

section \<open>Printed times are read\<close>

text \<open>Two-digit fields, as \<open>FormatDuration\<close> and FFmpeg print them, are what the expression matches.\<close>

lemma two_digits_pad2: "0 \<le> n \<Longrightarrow> n < 100 \<Longrightarrow> two_digits (pad2 n @ r) = Some (nat n, r)"
proof -
  assume n: "0 \<le> n" "n < 100"
  show ?thesis
  proof (cases "n < 10")
    case True
    moreover have "nat n < 10" using True by linarith
    moreover have "is_digit (CHR ''0'')" "digit_val (CHR ''0'') = 0" by (simp_all add: is_digit_def digit_val_def)
    ultimately show ?thesis using n by (simp add: pad2_def show_int_def show_nat.simps [of "nat n"] two_digits_def)
  next
    case False
    have "nat n div 10 < 10" "\<not> nat n < 10" using n False by linarith+
    moreover from this have "show_nat (nat n) = [digit_char (nat n div 10), digit_char (nat n mod 10)]"
      by (simp add: show_nat.simps [of "nat n"] show_nat.simps [of "nat n div 10"])
    ultimately show ?thesis using n False by (simp add: pad2_def show_int_def two_digits_def)
  qed
qed

lemma expect_append [simp]: "expect p (p @ r) = Some r"
  by (simp add: expect_def)

lemma match_time_print:
  assumes "0 \<le> h" "h < 100" "0 \<le> m" "m < 100" "0 \<le> s" "s < 100" "0 \<le> c" "c < 100"
  shows "match_time (''time='' @ pad2 h @ '':'' @ pad2 m @ '':'' @ pad2 s @ ''.'' @ pad2 c @ r) =
    Some (nat h, nat m, nat s, nat c)"
  unfolding match_time_def using assms
  by (simp only: expect_append two_digits_pad2 Option.bind.bind_lunit prod.case)

section \<open>An example\<close>

definition demo_output :: string where
  "demo_output = ''time=00:00:05.00'' @ [CHR 0x0D] @ ''frame=2'' @ [CHR 0x0A] @ ''time=00:00:25.50''"

lemma demo_lines: "ffmpeg_lines demo_output = [''time=00:00:05.00'', ''frame=2'', ''time=00:00:25.50'']"
  unfolding demo_output_def by (simp add: ffmpeg_lines.simps end_of_line_def)

theorem progress_independent_of_reads_witness:
  "parse_progress (\<lambda>k. k) demo_output None 20 True = parse_progress (\<lambda>k. 100) demo_output None 20 True \<and>
   fst (parse_progress (\<lambda>k. 0) demo_output None 20 True) = [1 / 4, 1]"
proof -
  have "\<forall>l \<in> set (ffmpeg_lines demo_output). length l < max_token_size" by (simp add: demo_lines max_token_size_def)
  note p = progress_independent_of_reads [OF _ this, of 20, THEN conjunct1, simplified]
  have "line_progress 20 ''time=00:00:05.00'' = Some (1 / 4)" "line_progress 20 ''frame=2'' = None"
    "line_progress 20 ''time=00:00:25.50'' = Some 1"
    by (simp_all add: line_progress_def match_time_def expect_def has_prefix_def two_digits_def is_digit_def digit_val_def
        seconds_of_def Let_def)
  then show ?thesis by (simp add: p demo_lines List.map_filter_simps)
qed

end
