(* ===== verification/Spec2Isabelle.thy ===== *)
theory Spec2Isabelle
  imports ApiSystem Interleaving Startup Routes Observability TempFiles MediaTools EncryptedJob S3Storage Progress
begin

text \<open>
  A verification library of the Vylux media service (Go, \<open>src/\<close>).

  \<^bold>\<open>The program.\<close> Vylux serves images and media by signed URLs and runs media jobs. One process holds
  an HTTP server, task workers, or both (\<open>cmd/vylux/main.go\<close>). The server answers image requests from a
  memory cache, a storage cache or by processing a source object, proxies originals, thumbnails and HLS
  files, delivers content keys to players, and accepts, reports, retries and cleans up jobs. A job is a
  row of the job table and a task of an asynq queue. A worker takes the task, downloads the source, runs
  FFmpeg, ffprobe, the packager or libvips, uploads what they produced, updates the row and starts a
  webhook call. PostgreSQL keeps rows, keys and the index of cached images; Redis keeps queues and rate
  counters; two buckets keep sources and media.

  \<^bold>\<open>Theories and the code they model.\<close>

  \<^item> \<open>Prelude\<close>, \<open>GoNumbers\<close>, \<open>GoEncoding\<close>, \<open>GoJson\<close>: results, the string functions, number formats,
    paths, hex and base64 of Go's standard library, and the strict option codec
    (\<open>internal/jsonx\<close>) over dynamic JSON values, with integers read through float64 as Go does.
  \<^item> \<open>LruCache\<close>: the memory cache (\<open>internal/cache/lru.go\<close>) with its map, its list and a heap of
    entries. The interface \<open>byte_cache\<close> states the contract once; the model is its interpretation \<open>lru\<close>.
  \<^item> \<open>ImageOptions\<close>, \<open>ImageProcess\<close>: options, cache keys and processing decisions (\<open>internal/image\<close>).
  \<^item> \<open>Signature\<close>: signed URLs and webhook signatures (\<open>internal/signature/hmac.go\<close>).
  \<^item> \<open>Encryption\<close>: key wrapping, encrypted source tokens, the key table, the set-up of HLS encryption and
    the key endpoint (\<open>internal/encryption\<close>, \<open>internal/db/dbq/keys.sql.go\<close>, \<open>internal/handler/key.go\<close>).
  \<^item> \<open>Delivery\<close>, \<open>Endpoints\<close>: the image endpoint with its caches, and the original, thumbnail, stream and
    health endpoints with the middleware (\<open>internal/handler\<close>, \<open>internal/server\<close>).
  \<^item> \<open>QueueTasks\<close>, \<open>JobRequest\<close>: task types, option structs, queue routing (\<open>internal/queue\<close>), and job
    requests from JSON to their canonical form (\<open>internal/job/request\<close>).
  \<^item> \<open>VideoProcessor\<close>, \<open>AudioProbe\<close>, \<open>Waveform\<close>, \<open>AudioFlow\<close>, \<open>JobFlow\<close>: renditions, packaging, probing,
    waveforms, and the result envelopes with stages, artifacts and retry plans (\<open>internal/video\<close>,
    \<open>internal/audio\<close>, \<open>internal/jobflow\<close>).
  \<^item> \<open>JobStore\<close>, \<open>JobHandler\<close>: the statements on the job table (\<open>internal/db/dbq/jobs.sql.go\<close>), payloads and
    enqueueing (\<open>internal/queue/client.go\<close>), and the job endpoints (\<open>internal/handler/job.go\<close>). The interface
    \<open>job_index\<close> says what a table with a search for live rows guarantees; the table interprets it.
  \<^item> \<open>WorkerDeps\<close>, \<open>VideoWorkers\<close>, \<open>AudioWorker\<close>, \<open>Workers\<close>: the six task handlers and what they share
    (\<open>internal/queue/handlers\<close>, \<open>internal/video/cover.go\<close>, \<open>preview.go\<close>). The interface \<open>worker_inv\<close> lists the
    effects a handler can have; whatever they keep every handler keeps. It is interpreted for the frame
    of a task (\<open>fr\<close>) and for the typing of job rows (\<open>ok\<close>, in \<open>JobSystem\<close>).
  \<^item> \<open>FullWorkflow\<close>, \<open>AudioWorkflow\<close>: how a full and an audio job end, and what can be retried then.
  \<^item> \<open>Cleanup\<close>: deletion of everything that belongs to a hash (\<open>internal/cleanup\<close>, \<open>internal/handler/cleanup.go\<close>).
  \<^item> \<open>Webhook\<close>: delivery of callbacks (\<open>internal/webhook/client.go\<close>).
  \<^item> \<open>Config\<close>: validation of the configuration and start-up (\<open>internal/config/config.go\<close>, \<open>cmd/vylux/main.go\<close>).
  \<^item> \<open>JobSystem\<close>: job endpoints, workers, deliveries and cleanups on one state, as a step relation.
  \<^item> \<open>Interleaving\<close>: \<open>createOrReuseJob\<close> statement by statement, so that requests overlap with each other and
    with the steps of \<open>JobSystem\<close>.
  \<^item> \<open>ServerApi\<close>: the routes of the API with the key check and the limiter in front of their handlers
    (\<open>internal/server/server.go\<close>). \<open>ApiSystem\<close>: what a request does is a step of \<open>JobSystem\<close>.
  \<^item> \<open>WorkerPool\<close>: the two worker pools with their queues and the registered handlers
    (\<open>internal/queue/server.go\<close>). \<open>EncryptedJob\<close>: encrypted jobs from the worker to the key endpoint.
  \<^item> \<open>Startup\<close>: the process from its flags to its exit code, with what it opens, serves and closes
    (\<open>cmd/vylux/main.go\<close>, \<open>internal/db/db.go\<close>, \<open>internal/tracing/tracing.go\<close>). \<open>Routes\<close>: the table of routes with
    their middleware, and error answers (\<open>internal/server\<close>).
  \<^item> \<open>Observability\<close>: metrics, queue depths, trace carriers and the instrumentation of tasks
    (\<open>internal/metrics\<close>, \<open>internal/tracing\<close>).
  \<^item> \<open>TempFiles\<close>, \<open>MediaTools\<close>: downloads to the scratch directory, running FFmpeg, ffprobe and the packager
    (\<open>internal/queue/handlers/deps.go\<close>, \<open>internal/mediaexec/cmd.go\<close>): what the inputs of a worker stand for.
  \<^item> \<open>S3Storage\<close>: the storage driver with its paging loop, and its instrumentation (\<open>internal/storage\<close>).
  \<^item> \<open>Progress\<close>: FFmpeg's progress output and durations (\<open>internal/video/progress.go\<close>).

  \<^bold>\<open>State.\<close> Go structs are records with the fields of the code; enums and unions are datatypes; tables are
  lists of rows in the order of insertion, a statement is a function on them that respects the keys and
  references of the schema; a bucket is a map from keys to objects. Every call that can fail
  has its failure as an input: a field of an environment record (\<open>worker_env\<close>, \<open>job_faults\<close>,
  \<open>clean_faults\<close>, \<open>inspector\<close>, \<open>webhook_env\<close>), so that each early return of the code is a branch. Errors are
  values of a sum type; a handler returns the error asynq sees together with the new state.

  \<^bold>\<open>What the lemmas show.\<close>

  \<^item> Delivery: messages of different endpoints do not collide, what is signed is what is served, caches
    are transparent, the memory cache refines a recency list, cache keys identify variants, endpoints
    stay within the directories their URL names, limits of the rate limiter.
  \<^item> Keys: the player gets the key the packager used, from the run of the job to the answer of the
    endpoint, only against a valid token; tokens round-trip.
  \<^item> Requests: accepted requests have a canonical form that is stable, produce exactly the deliverables
    they ask for, and create one job that repetitions find again.
  \<^item> Jobs: in every reachable state, under any interleaving and any faults, rows and tasks agree and rows
    are well typed; without re-runs of failed tasks a request has at most one live job. Full and audio jobs
    end completely done or failed with a record of exactly what is missing, and a retry rebuilds that.
    The same agreement holds when creations overlap; what overlapping breaks is stated in \<open>Interleaving\<close>.
  \<^item> Cleanup: a confirmed cleanup leaves nothing of the hash and touches nothing of another; an
    unconfirmed one keeps the rows that describe the media; without faults it always ends confirmed; what
    workers write is what it deletes.
  \<^item> API: requests without the key have no effect, the limiter bounds what reaches the job handlers, and
    every request is a step of the system, so what holds in its reachable states holds under the API.
    Every queued task is in a queue one pool serves and the cleanup searches.
  \<^item> Process: a validated configuration starts and serves its mode, everything opened is closed in reverse
    order whatever fails, routing is unambiguous. Metrics count each task once and change nothing, the
    trace of a request reaches its worker, a download that fails leaves no file.
  \<^item> Storage and progress: listings end complete or with an error; progress does not depend on reads.
  \<^item> Webhooks: a delivery makes at most five requests in at most 65 seconds and records its outcome.
  \<^item> Theorems with a negative result (a failing insert, a panic in the waveform, re-runs of failed
    tasks, requests that overlap, a worker that runs before the row is inserted, a failing pool, a second encryption set-up,
    shared signatures) pin down where the code departs from this.

  \<^bold>\<open>Bounds.\<close> All definitions but one are total. Loops of the code are structural recursion or have a measure:
  the eviction of the cache (its length), the cancellation of a task (the five attempts of
  \<open>cancelAttempts\<close>), the delivery of a webhook (the five attempts of \<open>maxRetries\<close>) and the scanner of
  FFmpeg's output (what is left to read). Listing pages has no bound in the code: \<open>s3_list_from\<close> is
  partial, and proved to end when the pages of S3 do. No fuel is used. Numbers are unbounded integers
  with the checks of the code; where the width matters it is written out: float64 conversion of JSON
  integers, \<open>strconv\<close> ranges, IEEE bit patterns of samples as 32-bit words. Floating-point sizes and times
  are exact rationals.

  \<^bold>\<open>Parameters.\<close> Code outside the repository is an argument: HMAC, SHA-256, AES-GCM (with the
  documented law that it opens what it sealed), \<open>url.Parse\<close>, libvips, FFmpeg, ffprobe, the packager,
  the file system, S3, asynq's inspector, and the time a callback endpoint takes.

  \<^bold>\<open>Not modelled.\<close> Requests and tasks are atomic steps, except the creation of jobs (\<open>Interleaving\<close>): races inside
  the other handlers, goroutines of the image write-back and time-outs of storage calls are not modelled.
  Of metrics and tracing, durations, span attributes and the exporter are left out. Servers, connection
  pools and process groups are third-party: how they end is an input of \<open>Startup\<close>. \<open>Progress\<close> models code
  that nothing calls yet. Scratch directories of encoders, log lines and spans are left out; times of rows
  are their order. The test utilities (\<open>tests/testutil\<close>) are not part of the program.
\<close>

end
